theory Spec2Isabelle
  imports Complex_Main "HOL-Library.Monad_Syntax" "HOL-Library.List_Lexorder"
begin

section \<open>Python values and helpers\<close>

text \<open>
  The trainers are Python scripts. Finite Python floats are modelled as \<^typ>\<open>real\<close>: every
  arithmetic operation is exact, so rounding to the nearest double is not part of the model.
  Where a claim depends on the non-finite floats (NaN and the infinities) the type \<open>fl\<close> below
  is used instead. A raised exception is the value \<open>None\<close> of an option type, or \<open>Inl e\<close> of a
  sum type where the kind of the exception decides what the caller does with it.
\<close>

text \<open>\<open>xs[i]\<close> with a non-negative index: Python raises IndexError out of range.\<close>

definition py_get :: "'a list \<Rightarrow> nat \<Rightarrow> 'a option" where
  "py_get xs i = (if i < length xs then Some (xs ! i) else None)"

text \<open>\<open>xs[i] = v\<close> with a non-negative index: IndexError out of range, no extension.\<close>

definition py_set :: "'a list \<Rightarrow> nat \<Rightarrow> 'a \<Rightarrow> 'a list option" where
  "py_set xs i v = (if i < length xs then Some (xs[i := v]) else None)"

text \<open>A list comprehension whose element expression may raise: the first exception wins.\<close>

fun map_opt :: "('a \<Rightarrow> 'b option) \<Rightarrow> 'a list \<Rightarrow> 'b list option" where
  "map_opt f [] = Some []"
| "map_opt f (x # xs) = do { y \<leftarrow> f x; ys \<leftarrow> map_opt f xs; Some (y # ys) }"

text \<open>A \<open>for\<close> loop over a fixed index list whose body updates a state and may raise.\<close>

fun for_loop :: "'i list \<Rightarrow> ('s \<Rightarrow> 'i \<Rightarrow> 's option) \<Rightarrow> 's \<Rightarrow> 's option" where
  "for_loop [] body s = Some s"
| "for_loop (i # is) body s = do { s' \<leftarrow> body s i; for_loop is body s' }"

text \<open>\<open>sep.join(parts)\<close>.\<close>

fun str_join :: "string \<Rightarrow> string list \<Rightarrow> string" where
  "str_join sep [] = []"
| "str_join sep [p] = p"
| "str_join sep (p # q # ps) = p @ sep @ str_join sep (q # ps)"

section \<open>Polynomial feature expansion (flat variants)\<close>

text \<open>
  \<open>itertools.combinations_with_replacement(pool, r)\<close>: the \<open>r\<close>-tuples over \<open>pool\<close> with
  non-decreasing positions, emitted in lexicographic order of the positions (the library's
  documented behaviour; the library itself is not part of the repository).
\<close>

fun combinations_with_replacement :: "'a list \<Rightarrow> nat \<Rightarrow> 'a list list" where
  "combinations_with_replacement pool 0 = [[]]"
| "combinations_with_replacement [] (Suc r) = []"
| "combinations_with_replacement (x # pool) (Suc r) =
     map ((#) x) (combinations_with_replacement (x # pool) r)
     @ combinations_with_replacement pool (Suc r)"

definition feature_names :: "string list" where
  "feature_names = [''cutAngle'', ''spinY'', ''power'']"

text \<open>
  The two nested loops \<open>for d in range(1, degree + 1): for combo in
  combinations_with_replacement(range(n_features), d)\<close>: the index tuples in the order in which
  the loop body sees them.
\<close>

definition poly_combos :: "nat \<Rightarrow> int \<Rightarrow> nat list list" where
  "poly_combos n_features degree =
     concat (map (\<lambda>d. combinations_with_replacement [0..<n_features] (nat d)) [1..degree])"

text \<open>
  The loop body of \<open>build_angle_model_simple.py\<close>: the column \<open>val = 1.0; for idx in combo:
  val *= X[i][idx]\<close> for every sample, then the name \<open>'*'.join(feature_names[idx] ...)\<close>.
\<close>

definition term_value :: "real list \<Rightarrow> nat list \<Rightarrow> real option" where
  "term_value row combo = for_loop combo (\<lambda>val idx. do { x \<leftarrow> py_get row idx; Some (val * x) }) 1"

definition term_column :: "real list list \<Rightarrow> nat list \<Rightarrow> real list option" where
  "term_column X combo = map_opt (\<lambda>row. term_value row combo) X"

definition term_name :: "nat list \<Rightarrow> string option" where
  "term_name combo = do { name_parts \<leftarrow> map_opt (py_get feature_names) combo;
                          Some (str_join ''*'' name_parts) }"

definition build_term :: "real list list \<Rightarrow> nat list \<Rightarrow> (real list \<times> string) option" where
  "build_term X combo = do { term \<leftarrow> term_column X combo; name \<leftarrow> term_name combo;
                             Some (term, name) }"

text \<open>
  \<open>build_polynomial_features(X, degree)\<close> of \<open>build_angle_model_simple.py\<close>. \<open>X\<close> is a list of
  rows; \<open>n_features = len(X[0]) if X else 0\<close>. The result is the design matrix as a list of
  rows together with the term names.
\<close>

definition build_polynomial_features_simple ::
  "real list list \<Rightarrow> int \<Rightarrow> (real list list \<times> string list) option" where
  "build_polynomial_features_simple X degree =
     (let n_samples = length X;
          n_features = (if X \<noteq> [] then length (hd X) else 0)
      in do {
        built \<leftarrow> map_opt (build_term X) (poly_combos n_features degree);
        let terms = replicate n_samples 1 # map fst built;
        let term_names = ''1'' # map snd built;
        X_poly \<leftarrow> map_opt (\<lambda>i. map_opt (\<lambda>j. do { t \<leftarrow> py_get terms j; py_get t i })
                                         [0..<length terms]) [0..<n_samples];
        Some (X_poly, term_names)
      })"

text \<open>
  \<open>build_polynomial_features(X, degree)\<close> of \<open>build_angle_model.py\<close>. \<open>X\<close> is the numpy array
  that \<open>np.array(features)\<close> builds from the rows: it is two-dimensional only when there is at
  least one row and all rows have one length, and \<open>X.shape[1]\<close> raises IndexError otherwise.
  The column of a term is the elementwise product \<open>term *= X[:, idx]\<close>, and
  \<open>np.column_stack(terms)\<close> puts the columns side by side.
\<close>

definition np_shape1 :: "real list list \<Rightarrow> nat option" where
  "np_shape1 X = (if X \<noteq> [] \<and> (\<forall>row \<in> set X. length row = length (hd X))
                  then Some (length (hd X)) else None)"

definition np_column :: "real list list \<Rightarrow> nat \<Rightarrow> real list option" where
  "np_column X idx = map_opt (\<lambda>row. py_get row idx) X"

definition np_term_column :: "real list list \<Rightarrow> nat list \<Rightarrow> real list option" where
  "np_term_column X combo =
     for_loop combo (\<lambda>term idx. do { col \<leftarrow> np_column X idx; Some (map2 (*) term col) })
       (replicate (length X) 1)"

definition np_build_term :: "real list list \<Rightarrow> nat list \<Rightarrow> (real list \<times> string) option" where
  "np_build_term X combo = do { term \<leftarrow> np_term_column X combo; name \<leftarrow> term_name combo;
                                Some (term, name) }"

definition build_polynomial_features ::
  "real list list \<Rightarrow> int \<Rightarrow> (real list list \<times> string list) option" where
  "build_polynomial_features X degree =
     (let n_samples = length X
      in do {
        n_features \<leftarrow> np_shape1 X;
        built \<leftarrow> map_opt (np_build_term X) (poly_combos n_features degree);
        let terms = replicate n_samples 1 # map fst built;
        let term_names = ''1'' # map snd built;
        Some (map (\<lambda>i. map (\<lambda>t. t ! i) terms) [0..<n_samples], term_names)
      })"

text \<open>
  Vocabulary for stating the order of the terms: the name built from an index tuple, the value
  of its monomial on one sample, one row of the design matrix, and the order "lower degree
  first, then lexicographic in the feature indices".
\<close>

definition combo_name :: "nat list \<Rightarrow> string" where
  "combo_name c = str_join ''*'' (map ((!) feature_names) c)"

definition combo_value :: "real list \<Rightarrow> nat list \<Rightarrow> real" where
  "combo_value row c = prod_list (map ((!) row) c)"

definition design_row :: "nat \<Rightarrow> int \<Rightarrow> real list \<Rightarrow> real list" where
  "design_row k degree row = 1 # map (combo_value row) (poly_combos k degree)"

definition term_before :: "nat list \<Rightarrow> nat list \<Rightarrow> bool" where
  "term_before a b = (length a < length b \<or> (length a = length b \<and> a < b))"


section \<open>Code emitter of the flat variants\<close>

text \<open>
  Python's number formatting is part of the language, not of the repository, and depends on
  the binary representation of the floats. The format specifications the scripts use are
  therefore parameters of the emitters: \<open>fmt_4f x\<close> is \<open>f'{x:.4f}'\<close>, and so on; \<open>repr_float\<close>
  is what an f-string prints for a float without a format specification, and \<open>json_dumps\<close> is
  \<open>json.dumps(dict(zip(term_names, coeffs)), indent=8)\<close>.
\<close>

record py_format =
  fmt_4f :: "real \<Rightarrow> string"
  fmt_6f :: "real \<Rightarrow> string"
  fmt_10f :: "real \<Rightarrow> string"
  fmt_g :: "real \<Rightarrow> string"
  fmt_12g :: "real \<Rightarrow> string"
  repr_float :: "real \<Rightarrow> string"
  json_dumps :: "(string \<times> real) list \<Rightarrow> string"

text \<open>\<open>str(n)\<close> for an integer: its decimal digits, with a minus sign when negative.\<close>

fun show_nat :: "nat \<Rightarrow> string" where
  "show_nat n = (if n < 10 then [''0123456789'' ! n]
                 else show_nat (n div 10) @ [''0123456789'' ! (n mod 10)])"

definition show_int :: "int \<Rightarrow> string" where
  "show_int i = (if i < 0 then ''-'' @ show_nat (nat (- i)) else show_nat (nat i))"

text \<open>\<open>s.split(sep)\<close> for a separator of one character: every occurrence splits.\<close>

fun split_on :: "char \<Rightarrow> string \<Rightarrow> string list" where
  "split_on sep [] = [[]]"
| "split_on sep (c # cs) =
     (let ps = split_on sep cs in if c = sep then [] # ps else (c # hd ps) # tl ps)"

text \<open>A line of text with its line feed.\<close>

definition ln :: "string \<Rightarrow> string" where
  "ln s = s @ [CHR 0x0A]"

text \<open>
  \<open>generate_javascript(coeffs, term_names, degree, r_squared, rmse, n_samples)\<close>. The two flat
  scripts have the same function, but for \<open>coeffs.tolist()\<close> in the metadata of the numpy one.
  First the opening f-string, up to the head of the predictor function.
\<close>

definition js_header :: "py_format \<Rightarrow> int \<Rightarrow> real \<Rightarrow> real \<Rightarrow> int \<Rightarrow> string" where
  "js_header F degree r_squared rmse n_samples = concat (map ln
    [''/**'',
     '' * AI Angle Error Prediction Model'',
     '' *'',
     '' * Generated from '' @ show_int n_samples @ '' shot samples'',
     '' * Polynomial degree: '' @ show_int degree,
     '' * R-squared: '' @ fmt_4f F r_squared,
     '' * RMSE: '' @ fmt_4f F rmse @ '' degrees'',
     '' *'',
     '' * Predicts the angle error (in degrees) based on cut angle, spin, and power.'',
     '' * Use this to adjust aim: subtract the predicted error from your aim angle.'',
     '' */'',
     '''',
     ''/**'',
     '' * Predict the angle error for a shot'',
     '' * @param {number} cutAngle - Cut angle in degrees (0 = straight, 90 = max)'',
     '' * @param {number} spinY - Vertical spin (-1 to 1, positive = topspin)'',
     '' * @param {number} power - Shot power'',
     '' * @returns {number} Predicted angle error in degrees'',
     '' */'',
     ''function predictAngleError(cutAngle, spinY, power) {''])"

text \<open>
  The loop over \<open>zip(coeffs, term_names)\<close>: a coefficient of magnitude below \<open>1e-10\<close> is skipped,
  the constant term is the bare number, any other term is the number times its factors.
\<close>

definition term_expr :: "py_format \<Rightarrow> real \<times> string \<Rightarrow> string" where
  "term_expr F = (\<lambda>(coeff, name).
     if name = ''1'' then fmt_10f F coeff
     else (let parts = split_on (CHR ''*'') name;
               js_expr = str_join '' * '' parts
           in fmt_10f F coeff @ '' * '' @ js_expr))"

definition terms_code :: "py_format \<Rightarrow> real list \<Rightarrow> string list \<Rightarrow> string list" where
  "terms_code F coeffs term_names =
     map (term_expr F) (filter (\<lambda>(coeff, name). \<not> \<bar>coeff\<bar> < 1 / 10 ^ 10) (zip coeffs term_names))"

text \<open>The return statement: on one line up to three terms, one term per line otherwise.\<close>

definition js_return :: "string list \<Rightarrow> string" where
  "js_return tc =
     (if length tc \<le> 3 then ln (''    return '' @ str_join '' + '' tc @ '';'')
      else ln ''    return (''
           @ concat (map (\<lambda>(i, term). ln ((if i = 0 then ''        '' else ''        + '') @ term))
                         (zip [0..<length tc] tc))
           @ ln ''    );'')"

definition js_footer ::
  "py_format \<Rightarrow> real list \<Rightarrow> string list \<Rightarrow> int \<Rightarrow> real \<Rightarrow> real \<Rightarrow> int \<Rightarrow> string" where
  "js_footer F coeffs term_names degree r_squared rmse n_samples = concat (map ln
    ['''',
     ''/**'',
     '' * Calculate aim adjustment to compensate for predicted angle error'',
     '' * @param {number} cutAngle - Cut angle in degrees'',
     '' * @param {number} spinY - Vertical spin'',
     '' * @param {number} power - Shot power'',
     '' * @returns {number} Angle adjustment in degrees (subtract from aim)'',
     '' */'',
     ''function calculateAimAdjustment(cutAngle, spinY, power) {'',
     ''    return predictAngleError(cutAngle, spinY, power);'',
     ''}'',
     '''',
     ''// Model metadata'',
     ''const ANGLE_MODEL_INFO = {'',
     ''    degree: '' @ show_int degree @ '','',
     ''    rSquared: '' @ fmt_4f F r_squared @ '','',
     ''    rmse: '' @ fmt_4f F rmse @ '','',
     ''    nSamples: '' @ show_int n_samples @ '','',
     ''    features: ['' @ [CHR 0x27] @ ''cutAngle'' @ [CHR 0x27] @ '', '' @ [CHR 0x27] @ ''spinY''
        @ [CHR 0x27] @ '', '' @ [CHR 0x27] @ ''power'' @ [CHR 0x27] @ ''],'',
     ''    coefficients: '' @ json_dumps F (zip term_names coeffs),
     ''};'',
     '''',
     ''// Export for use in modules'',
     ''if (typeof module !== '' @ [CHR 0x27] @ ''undefined'' @ [CHR 0x27] @ '' && module.exports) {'',
     ''    module.exports = { predictAngleError, calculateAimAdjustment, ANGLE_MODEL_INFO };'',
     ''}''])"

definition generate_javascript ::
  "py_format \<Rightarrow> real list \<Rightarrow> string list \<Rightarrow> int \<Rightarrow> real \<Rightarrow> real \<Rightarrow> int \<Rightarrow> string" where
  "generate_javascript F coeffs term_names degree r_squared rmse n_samples =
     js_header F degree r_squared rmse n_samples
     @ js_return (terms_code F coeffs term_names)
     @ ln ''}''
     @ js_footer F coeffs term_names degree r_squared rmse n_samples"

section \<open>Floats with infinities and NaN\<close>

text \<open>
  numpy's float64 scalars and JavaScript's numbers are IEEE 754 doubles: an operation never
  raises, it returns an infinity or NaN instead. The type \<open>fl\<close> has the finite values (as exact
  reals: rounding and the sign of zero are not modelled), the two infinities and NaN. A finite
  result whose magnitude reaches \<open>2^1024\<close> overflows to the infinity of its sign, as rounding to
  nearest does. NaN compares false with everything.
\<close>

datatype fl = Fin real | PInf | NInf | NaN

definition fl_of :: "real \<Rightarrow> fl" where
  "fl_of x = (if 2 ^ 1024 \<le> x then PInf else if x \<le> - (2 ^ 1024) then NInf else Fin x)"

fun fl_neg :: "fl \<Rightarrow> fl" where
  "fl_neg (Fin a) = Fin (- a)"
| "fl_neg PInf = NInf"
| "fl_neg NInf = PInf"
| "fl_neg NaN = NaN"

fun fl_add :: "fl \<Rightarrow> fl \<Rightarrow> fl" where
  "fl_add (Fin a) (Fin b) = fl_of (a + b)"
| "fl_add NaN y = NaN"
| "fl_add x NaN = NaN"
| "fl_add PInf NInf = NaN"
| "fl_add NInf PInf = NaN"
| "fl_add PInf y = PInf"
| "fl_add NInf y = NInf"
| "fl_add (Fin a) y = y"

definition fl_sub :: "fl \<Rightarrow> fl \<Rightarrow> fl" where
  "fl_sub x y = fl_add x (fl_neg y)"

text \<open>The infinity of a product or quotient: zero times infinity is NaN.\<close>

definition fl_scale_inf :: "real \<Rightarrow> fl \<Rightarrow> fl" where
  "fl_scale_inf a i = (if a = 0 then NaN else if 0 < a then i else fl_neg i)"

fun fl_mul :: "fl \<Rightarrow> fl \<Rightarrow> fl" where
  "fl_mul (Fin a) (Fin b) = fl_of (a * b)"
| "fl_mul NaN y = NaN"
| "fl_mul x NaN = NaN"
| "fl_mul (Fin a) y = fl_scale_inf a y"
| "fl_mul x (Fin b) = fl_scale_inf b x"
| "fl_mul PInf y = y"
| "fl_mul NInf y = fl_neg y"

fun fl_div :: "fl \<Rightarrow> fl \<Rightarrow> fl" where
  "fl_div (Fin a) (Fin b) =
     (if b = 0 then (if a = 0 then NaN else if 0 < a then PInf else NInf) else fl_of (a / b))"
| "fl_div NaN y = NaN"
| "fl_div x NaN = NaN"
| "fl_div (Fin a) y = Fin 0"
| "fl_div x (Fin b) = (if 0 \<le> b then x else fl_neg x)"
| "fl_div x y = NaN"

fun fl_less :: "fl \<Rightarrow> fl \<Rightarrow> bool" where
  "fl_less (Fin a) (Fin b) = (a < b)"
| "fl_less NaN y = False"
| "fl_less x NaN = False"
| "fl_less x NInf = False"
| "fl_less PInf y = False"
| "fl_less x y = True"

definition fl_sum :: "fl list \<Rightarrow> fl" where
  "fl_sum xs = foldl fl_add (Fin 0) xs"

section \<open>Fit quality: R-squared in the three variants\<close>

text \<open>\<open>a / b\<close> on Python floats raises ZeroDivisionError when \<open>b\<close> is zero.\<close>

definition py_truediv :: "real \<Rightarrow> real \<Rightarrow> real option" where
  "py_truediv a b = (if b = 0 then None else Some (a / b))"

text \<open>
  \<open>build_angle_model_simple.py\<close>, \<open>fit_regression\<close>, lines 173 to 177: Python floats, so a
  division by zero would raise.
\<close>

definition r_squared_simple :: "real list \<Rightarrow> real list \<Rightarrow> real option" where
  "r_squared_simple y y_pred = do {
     y_mean \<leftarrow> py_truediv (sum_list y) (real (length y));
     sq_res \<leftarrow> map_opt (\<lambda>i. do { a \<leftarrow> py_get y i; p \<leftarrow> py_get y_pred i; Some ((a - p)\<^sup>2) })
                        [0..<length y];
     let ss_res = sum_list sq_res;
     sq_tot \<leftarrow> map_opt (\<lambda>i. do { a \<leftarrow> py_get y i; Some ((a - y_mean)\<^sup>2) }) [0..<length y];
     let ss_tot = sum_list sq_tot;
     if ss_tot > 0 then do { q \<leftarrow> py_truediv ss_res ss_tot; Some (1 - q) } else Some 0
   }"

text \<open>
  \<open>build_angle_model.py\<close>, \<open>fit_regression\<close>, lines 99 to 103: numpy arrays of one length (the
  targets and the predictions \<open>X_poly @ coeffs\<close>), float64 scalars.
\<close>

definition np_mean :: "real list \<Rightarrow> fl" where
  "np_mean xs = fl_div (fl_sum (map Fin xs)) (Fin (real (length xs)))"

definition np_sum_sq_dev :: "real list \<Rightarrow> fl \<Rightarrow> fl" where
  "np_sum_sq_dev xs m = fl_sum (map (\<lambda>x. let d = fl_sub (Fin x) m in fl_mul d d) xs)"

definition r_squared_np :: "real list \<Rightarrow> real list \<Rightarrow> fl" where
  "r_squared_np y y_pred =
     (let ss_res = fl_sum (map (\<lambda>(a, p). let d = fl_sub (Fin a) (Fin p) in fl_mul d d) (zip y y_pred));
          ss_tot = np_sum_sq_dev y (np_mean y)
      in if fl_less (Fin 0) ss_tot then fl_sub (Fin 1) (fl_div ss_res ss_tot) else Fin 0)"

text \<open>
  \<open>build_angle_model_piecewise.py\<close>: a record is (cutAngle, power, cueBallToTargetDist,
  angleError). The two coefficient vectors come from \<open>np.linalg.lstsq\<close> (four and five entries)
  and are parameters here. Lines 82 to 104.
\<close>

definition CUT_BREAK_DEG :: real where
  "CUT_BREAK_DEG = 30"

definition predict ::
  "real \<times> real \<times> real \<times> real \<Rightarrow> real \<times> real \<times> real \<times> real \<times> real \<Rightarrow> real \<Rightarrow> real \<Rightarrow> real \<Rightarrow> fl" where
  "predict coef_low coef_high c p d =
     (case (coef_low, coef_high) of ((l0, l1, l2, l3), (h0, h1, h2, h3, h4)) \<Rightarrow>
        if c \<le> CUT_BREAK_DEG
        then fl_add (fl_add (fl_add (Fin l0) (fl_mul (Fin l1) (Fin c)))
                            (fl_mul (Fin l2) (fl_of (c ^ 2))))
                    (fl_mul (Fin l3) (fl_of (c ^ 3)))
        else fl_add (fl_add (fl_add (fl_add (Fin h0) (fl_mul (Fin h1) (Fin c)))
                                    (fl_mul (Fin h2) (Fin p)))
                            (fl_mul (Fin h3) (Fin d)))
                    (fl_mul (fl_mul (Fin h4) (Fin c)) (Fin d)))"

definition r2_piecewise ::
  "real \<times> real \<times> real \<times> real \<Rightarrow> real \<times> real \<times> real \<times> real \<times> real
   \<Rightarrow> (real \<times> real \<times> real \<times> real) list \<Rightarrow> fl" where
  "r2_piecewise coef_low coef_high data =
     (let err = map (\<lambda>(c, p, d, e). e) data;
          pred = map (\<lambda>(c, p, d, e). predict coef_low coef_high c p d) data;
          resid = map2 (\<lambda>e q. fl_sub (Fin e) q) err pred;
          ss_res = fl_sum (map (\<lambda>r. fl_mul r r) resid);
          ss_tot = np_sum_sq_dev err (np_mean err)
      in fl_sub (Fin 1) (fl_div ss_res ss_tot))"

section \<open>Rounding to the nearest double\<close>

text \<open>
  Where a claim depends on the rounding of a sum (the nudge of the last bracket, the conversion
  of an integer), the result of an operation on finite doubles is the exact result rounded to
  the nearest double, ties to the even significand: 53 significant bits, exponents from \<open>-1022\<close>
  to \<open>1023\<close>, subnormal numbers below, and the infinity of the sign when the rounded value
  reaches \<open>2^1024\<close>.

  \<open>x <= y\<close> on doubles.
\<close>

definition fl_le :: "fl \<Rightarrow> fl \<Rightarrow> bool" where
  "fl_le x y = (x \<noteq> NaN \<and> y \<noteq> NaN \<and> \<not> fl_less y x)"

text \<open>The nearest integer, a tie going to the even one.\<close>

definition round_half_even :: "real \<Rightarrow> int" where
  "round_half_even x =
     (let n = \<lfloor>x\<rfloor>; r = x - of_int n
      in if r < 1 / 2 then n else if 1 / 2 < r then n + 1 else if even n then n else n + 1)"

text \<open>
  The exponent of a magnitude: the largest \<open>e\<close> with \<open>2^e \<le> x\<close>, searched downwards from \<open>e\<close> in
  at most \<open>k\<close> steps. From 1023 in 2045 steps the search ends at \<open>-1022\<close>, the exponent of the
  smallest normal numbers and of the subnormal ones.
\<close>

fun binade :: "nat \<Rightarrow> int \<Rightarrow> real \<Rightarrow> int" where
  "binade 0 e x = e"
| "binade (Suc k) e x = (if 2 powi e \<le> x then e else binade k (e - 1) x)"

definition double_exponent :: "real \<Rightarrow> int" where
  "double_exponent x = binade 2045 1023 \<bar>x\<bar>"

text \<open>Doubles of exponent \<open>e\<close> are the multiples of \<open>2^(e - 52)\<close>.\<close>

definition round_double :: "real \<Rightarrow> fl" where
  "round_double x =
     (let q = 2 powi (double_exponent x - 52)
      in fl_of (of_int (round_half_even (x / q)) * q))"

text \<open>
  The four operations on doubles, as Python floats and numpy's float64 compute them when no
  exception is at stake: an infinite or NaN operand is handled as in \<open>fl_add\<close> and its
  companions, a division of a finite number by zero gives an infinity or NaN.
\<close>

fun dbl_add :: "fl \<Rightarrow> fl \<Rightarrow> fl" where
  "dbl_add (Fin a) (Fin b) = round_double (a + b)"
| "dbl_add x y = fl_add x y"

fun dbl_sub :: "fl \<Rightarrow> fl \<Rightarrow> fl" where
  "dbl_sub (Fin a) (Fin b) = round_double (a - b)"
| "dbl_sub x y = fl_sub x y"

fun dbl_mul :: "fl \<Rightarrow> fl \<Rightarrow> fl" where
  "dbl_mul (Fin a) (Fin b) = round_double (a * b)"
| "dbl_mul x y = fl_mul x y"

fun dbl_div :: "fl \<Rightarrow> fl \<Rightarrow> fl" where
  "dbl_div (Fin a) (Fin b) = (if b = 0 then fl_div (Fin a) (Fin b) else round_double (a / b))"
| "dbl_div x y = fl_div x y"

section \<open>Power brackets of the adaptive variant\<close>

text \<open>
  \<open>np.min\<close> and \<open>np.max\<close> of an array of doubles: ValueError on an empty array, NaN as soon as
  one entry is NaN.
\<close>

definition np_min :: "fl list \<Rightarrow> fl option" where
  "np_min xs =
     (case xs of
        [] \<Rightarrow> None
      | x # rest \<Rightarrow> Some (if NaN \<in> set xs then NaN
                         else fold (\<lambda>v m. if fl_less v m then v else m) rest x))"

definition np_max :: "fl list \<Rightarrow> fl option" where
  "np_max xs =
     (case xs of
        [] \<Rightarrow> None
      | x # rest \<Rightarrow> Some (if NaN \<in> set xs then NaN
                         else fold (\<lambda>v m. if fl_less m v then v else m) rest x))"

text \<open>The literal \<open>1e-9\<close>: the double nearest to it.\<close>

definition EPS :: fl where
  "EPS = round_double (1 / 10 ^ 9)"

text \<open>
  \<open>make_brackets_auto(powers, n)\<close>. \<open>np.linspace\<close> belongs to numpy and is a parameter
  (\<open>linspace lo hi num\<close> is \<open>np.linspace(lo, hi, num)\<close>, \<open>None\<close> its ValueError for a negative
  count); \<open>brackets[-1]\<close> on an empty list raises IndexError. The sum \<open>hi + 1e-9\<close> is a sum of
  doubles.
\<close>

definition make_brackets_auto ::
  "(fl \<Rightarrow> fl \<Rightarrow> int \<Rightarrow> fl list option) \<Rightarrow> fl list \<Rightarrow> int \<Rightarrow> (fl \<times> fl) list option" where
  "make_brackets_auto linspace powers n = do {
     lo \<leftarrow> np_min powers;
     hi \<leftarrow> np_max powers;
     if fl_le hi lo then Some [(lo, dbl_add hi EPS)]
     else do {
       edges \<leftarrow> linspace lo hi (n + 1);
       brackets \<leftarrow> map_opt (\<lambda>i. do { a \<leftarrow> py_get edges i; b \<leftarrow> py_get edges (i + 1); Some (a, b) })
                           [0..<nat n];
       if brackets = [] then None
       else Some (butlast brackets @ [(fst (last brackets), dbl_add (snd (last brackets)) EPS)])
     }
   }"

text \<open>The mask of \<open>main\<close>: \<open>(p_all >= pmin) & (p_all < pmax)\<close>.\<close>

definition in_bracket :: "fl \<times> fl \<Rightarrow> fl \<Rightarrow> bool" where
  "in_bracket b p = (fl_le (fst b) p \<and> fl_less p (snd b))"

text \<open>
  What numpy's \<open>linspace\<close> computes for doubles (\<open>endpoint=True\<close>), after its source: the step
  \<open>(stop - start) / (num - 1)\<close>, the samples \<open>i * step + start\<close>, each operation rounded, and the
  last sample overwritten with \<open>stop\<close>. The theorems hold for every \<open>linspace\<close>; this one serves
  the examples.
\<close>

definition np_linspace :: "fl \<Rightarrow> fl \<Rightarrow> int \<Rightarrow> fl list option" where
  "np_linspace start stop num =
     (if num < 0 then None
      else let d = num - 1;
               delta = dbl_sub stop start;
               y = map (\<lambda>i. Fin (real i)) [0..<nat num];
               y = (if 0 < d
                    then let step = dbl_div delta (Fin (real_of_int d))
                         in if step = Fin 0
                            then map (\<lambda>v. dbl_mul (dbl_div v (Fin (real_of_int d))) delta) y
                            else map (\<lambda>v. dbl_mul v step) y
                    else map (\<lambda>v. dbl_mul v delta) y);
               y = map (\<lambda>v. dbl_add v start) y
           in Some (if 1 < num then butlast y @ [stop] else y))"


section \<open>Split search of the adaptive variant\<close>

text \<open>The configuration constants of \<open>build_angle_model_split.py\<close>.\<close>

definition AUTO_BRACKETS_N :: int where "AUTO_BRACKETS_N = 55"
definition SPLIT_MIN :: int where "SPLIT_MIN = 10"
definition SPLIT_MAX :: int where "SPLIT_MAX = 60"
definition SPLIT_STEP :: int where "SPLIT_STEP = 1"
definition POLY_DEGREE :: int where "POLY_DEGREE = 3"
definition RIDGE_ALPHA :: real where "RIDGE_ALPHA = 1"
definition TEST_SIZE :: real where "TEST_SIZE = 2 / 10"
definition RANDOM_SEED :: int where "RANDOM_SEED = 42"
definition MIN_SAMPLES_PER_BRACKET :: nat where "MIN_SAMPLES_PER_BRACKET = 10"
definition MIN_SAMPLES_PER_SIDE :: nat where "MIN_SAMPLES_PER_SIDE = 5"
definition TARGET_CLIP :: real where "TARGET_CLIP = 15"

text \<open>
  The functions of scikit-learn that the trainer calls are not part of the repository; they are
  parameters of the model. \<open>fit_poly_ridge degree alpha X y\<close> is
  \<open>build_poly_ridge(degree, alpha).fit(X, y)\<close>, a row of \<open>X\<close> is (cutAngle, power). A fitted
  model is a value of the type \<open>'m\<close>.
\<close>

record 'm sklearn =
  fit_poly_ridge :: "int \<Rightarrow> real \<Rightarrow> (real \<times> real) list \<Rightarrow> real list \<Rightarrow> 'm"
  predict_model :: "'m \<Rightarrow> (real \<times> real) list \<Rightarrow> real list"
  mean_squared_error :: "real list \<Rightarrow> real list \<Rightarrow> real"
  train_test_split :: "(real \<times> real) list \<Rightarrow> real list \<Rightarrow> real \<Rightarrow> int
     \<Rightarrow> (real \<times> real) list \<times> (real \<times> real) list \<times> real list \<times> real list"

text \<open>\<open>range(start, stop, step)\<close>: ValueError when the step is zero.\<close>

definition py_range :: "int \<Rightarrow> int \<Rightarrow> int \<Rightarrow> int list option" where
  "py_range start stop step =
     (if step = 0 then None
      else if 0 < step
      then Some (map (\<lambda>k. start + int k * step) [0..<nat ((stop - start + step - 1) div step)])
      else Some (map (\<lambda>k. start + int k * step) [0..<nat ((start - stop - step - 1) div (- step))]))"

text \<open>\<open>xs[mask]\<close> for a boolean mask as long as \<open>xs\<close>, and the scatter \<open>out[mask] = a; out[~mask] = b\<close>.\<close>

definition np_select :: "bool list \<Rightarrow> 'a list \<Rightarrow> 'a list" where
  "np_select msk xs = map fst (filter snd (zip xs msk))"

fun np_scatter :: "bool list \<Rightarrow> 'a list \<Rightarrow> 'a list \<Rightarrow> 'a list" where
  "np_scatter (True # msk) (a # as) bs = a # np_scatter msk as bs"
| "np_scatter (False # msk) as (b # bs) = b # np_scatter msk as bs"
| "np_scatter msk as bs = []"

definition rmse :: "'m sklearn \<Rightarrow> real list \<Rightarrow> real list \<Rightarrow> real" where
  "rmse S y_true y_pred = sqrt (mean_squared_error S y_true y_pred)"

text \<open>
  \<open>fit_piecewise_cutangle\<close>: the samples strictly below the split angle train the left model, the
  others the right one; \<open>None\<close> when a side has fewer than \<open>MIN_SAMPLES_PER_SIDE\<close> samples. The two
  unfitted pipelines that the caller passes in are \<open>build_poly_ridge(POLY_DEGREE, RIDGE_ALPHA)\<close>.
\<close>

definition fit_piecewise_cutangle ::
  "'m sklearn \<Rightarrow> (real \<times> real) list \<Rightarrow> real list \<Rightarrow> int \<Rightarrow> ('m \<times> 'm) option" where
  "fit_piecewise_cutangle S X_train y_train split_angle =
     (let mask_left = map (\<lambda>row. fst row < real_of_int split_angle) X_train;
          Xl = np_select mask_left X_train; yl = np_select mask_left y_train;
          Xr = np_select (map Not mask_left) X_train; yr = np_select (map Not mask_left) y_train
      in if length yl < MIN_SAMPLES_PER_SIDE \<or> length yr < MIN_SAMPLES_PER_SIDE then None
         else Some (fit_poly_ridge S POLY_DEGREE RIDGE_ALPHA Xl yl,
                    fit_poly_ridge S POLY_DEGREE RIDGE_ALPHA Xr yr))"

definition predict_piecewise_cutangle ::
  "'m sklearn \<Rightarrow> (real \<times> real) list \<Rightarrow> int \<Rightarrow> 'm \<Rightarrow> 'm \<Rightarrow> real list" where
  "predict_piecewise_cutangle S X split_angle model_left model_right =
     (let mask_left = map (\<lambda>row. fst row < real_of_int split_angle) X
      in np_scatter mask_left
           (if (\<exists>b \<in> set mask_left. b) then predict_model S model_left (np_select mask_left X)
            else [])
           (if (\<exists>b \<in> set mask_left. \<not> b)
            then predict_model S model_right (np_select (map Not mask_left) X) else []))"

text \<open>The dictionary \<open>best\<close> of the search loop in \<open>main\<close>.\<close>

record 'm candidate =
  c_split :: int
  c_rmse :: real
  c_mL :: 'm
  c_mR :: 'm

text \<open>The body of the loop over the split angles, up to the comparison with \<open>best\<close>.\<close>

definition evaluate_split ::
  "'m sklearn \<Rightarrow> (real \<times> real) list \<Rightarrow> real list \<Rightarrow> (real \<times> real) list \<Rightarrow> real list \<Rightarrow> int
   \<Rightarrow> 'm candidate option" where
  "evaluate_split S X_train y_train X_test y_test split =
     (case fit_piecewise_cutangle S X_train y_train split of
        None \<Rightarrow> None
      | Some (mL, mR) \<Rightarrow>
          let pred = predict_piecewise_cutangle S X_test split mL mR;
              score = rmse S y_test pred
          in Some \<lparr> c_split = split, c_rmse = score, c_mL = mL, c_mR = mR \<rparr>)"

text \<open>\<open>if best is None or score < best["rmse"]: best = ...\<close>\<close>

definition keep_best :: "'m candidate option \<Rightarrow> 'm candidate option \<Rightarrow> 'm candidate option" where
  "keep_best best cand =
     (case cand of
        None \<Rightarrow> best
      | Some c \<Rightarrow> (case best of
                     None \<Rightarrow> Some c
                   | Some b \<Rightarrow> if c_rmse c < c_rmse b then Some c else best))"

definition search_split ::
  "'m sklearn \<Rightarrow> (real \<times> real) list \<Rightarrow> real list \<Rightarrow> (real \<times> real) list \<Rightarrow> real list
   \<Rightarrow> int list \<Rightarrow> 'm candidate option" where
  "search_split S X_train y_train X_test y_test splits =
     fold (\<lambda>split best. keep_best best (evaluate_split S X_train y_train X_test y_test split))
          splits None"

text \<open>
  An entry of \<open>results\<close>. The dictionary also stores \<open>r2\<close>, \<open>rmse_left\<close> and \<open>rmse_right\<close>, which are
  printed and never read again; they are left out.
\<close>

record 'm result =
  r_bi :: nat
  r_pmin :: real
  r_pmax :: real
  r_split :: int
  r_rmse :: real
  r_mL :: 'm
  r_mR :: 'm
  r_n :: nat

text \<open>
  One round of the loop over the brackets in \<open>main\<close>. The outer \<open>None\<close> is a raised exception;
  \<open>Some None\<close> is a bracket that is skipped (too few samples) or failed (no valid split) and
  adds nothing to \<open>results\<close>.
\<close>

definition bracket_result ::
  "'m sklearn \<Rightarrow> (real \<times> real) list \<Rightarrow> real list \<Rightarrow> real list \<Rightarrow> nat \<times> (real \<times> real)
   \<Rightarrow> 'm result option option" where
  "bracket_result S X_all y_all p_all = (\<lambda>(bi, (pmin, pmax)).
     let msk = map (\<lambda>p. in_bracket (Fin pmin, Fin pmax) (Fin p)) p_all;
         Xb = np_select msk X_all;
         yb = np_select msk y_all
     in if length yb < MIN_SAMPLES_PER_BRACKET then Some None
        else (case train_test_split S Xb yb TEST_SIZE RANDOM_SEED of
                (X_train, X_test, y_train, y_test) \<Rightarrow> do {
                  splits \<leftarrow> py_range SPLIT_MIN (SPLIT_MAX + 1) SPLIT_STEP;
                  Some (case search_split S X_train y_train X_test y_test splits of
                          None \<Rightarrow> None
                        | Some best \<Rightarrow>
                            Some \<lparr> r_bi = bi, r_pmin = pmin, r_pmax = pmax, r_split = c_split best,
                                   r_rmse = rmse S y_test (predict_piecewise_cutangle S X_test
                                              (c_split best) (c_mL best) (c_mR best)),
                                   r_mL = c_mL best, r_mR = c_mR best, r_n = length yb \<rparr>)
                }))"

definition train_brackets ::
  "'m sklearn \<Rightarrow> (real \<times> real) list \<Rightarrow> real list \<Rightarrow> real list \<Rightarrow> (real \<times> real) list
   \<Rightarrow> 'm result list option" where
  "train_brackets S X_all y_all p_all brackets = do {
     rs \<leftarrow> map_opt (bracket_result S X_all y_all p_all) (zip [0..<length brackets] brackets);
     Some (concat (map (\<lambda>r. case r of None \<Rightarrow> [] | Some x \<Rightarrow> [x]) rs))
   }"

text \<open>
  Vocabulary for the result of the loop: a bracket has a split when it holds enough samples and
  the search over the split angles, run on its training part, returns a candidate.
\<close>

definition bracket_has_split ::
  "'m sklearn \<Rightarrow> (real \<times> real) list \<Rightarrow> real list \<Rightarrow> real list \<Rightarrow> real \<times> real \<Rightarrow> bool" where
  "bracket_has_split S X_all y_all p_all b =
     (let msk = map (\<lambda>p. in_bracket (Fin (fst b), Fin (snd b)) (Fin p)) p_all;
          Xb = np_select msk X_all;
          yb = np_select msk y_all
      in MIN_SAMPLES_PER_BRACKET \<le> length yb
         \<and> (case train_test_split S Xb yb TEST_SIZE RANDOM_SEED of
               (X_train, X_test, y_train, y_test) \<Rightarrow>
                 search_split S X_train y_train X_test y_test [10..60] \<noteq> None))"

text \<open>
  The same search in the words of the specification. The training samples strictly below a
  threshold and those at or above it; a threshold is valid when both sides hold the minimum
  number of samples; its two models are the degree-3 ridge fits (\<open>alpha = 1\<close>) of the two sides;
  its held-out RMSE is the square root of the mean squared error, on the held-out samples, of
  the prediction that these two models make.
\<close>

definition below_split :: "(real \<times> real) list \<Rightarrow> real list \<Rightarrow> int \<Rightarrow> ((real \<times> real) \<times> real) list" where
  "below_split X_train y_train s = filter (\<lambda>(row, t). fst row < real_of_int s) (zip X_train y_train)"

definition from_split :: "(real \<times> real) list \<Rightarrow> real list \<Rightarrow> int \<Rightarrow> ((real \<times> real) \<times> real) list" where
  "from_split X_train y_train s = filter (\<lambda>(row, t). \<not> fst row < real_of_int s) (zip X_train y_train)"

definition split_valid :: "(real \<times> real) list \<Rightarrow> real list \<Rightarrow> int \<Rightarrow> bool" where
  "split_valid X_train y_train s =
     (MIN_SAMPLES_PER_SIDE \<le> length (below_split X_train y_train s)
      \<and> MIN_SAMPLES_PER_SIDE \<le> length (from_split X_train y_train s))"

definition left_model :: "'m sklearn \<Rightarrow> (real \<times> real) list \<Rightarrow> real list \<Rightarrow> int \<Rightarrow> 'm" where
  "left_model S X_train y_train s =
     fit_poly_ridge S 3 1 (map fst (below_split X_train y_train s)) (map snd (below_split X_train y_train s))"

definition right_model :: "'m sklearn \<Rightarrow> (real \<times> real) list \<Rightarrow> real list \<Rightarrow> int \<Rightarrow> 'm" where
  "right_model S X_train y_train s =
     fit_poly_ridge S 3 1 (map fst (from_split X_train y_train s)) (map snd (from_split X_train y_train s))"

definition held_out_rmse ::
  "'m sklearn \<Rightarrow> (real \<times> real) list \<Rightarrow> real list \<Rightarrow> (real \<times> real) list \<Rightarrow> real list \<Rightarrow> int \<Rightarrow> real" where
  "held_out_rmse S X_train y_train X_test y_test s =
     sqrt (mean_squared_error S y_test
             (predict_piecewise_cutangle S X_test s (left_model S X_train y_train s)
                (right_model S X_train y_train s)))"

text \<open>
  The entry of \<open>results\<close> for a bracket: none when the bracket holds fewer than ten samples or
  the search over the thresholds 10 to 60 returns nothing, otherwise the bracket with the
  threshold, score and models that the search returns on the split of the bracket's samples
  (test share 0.2, seed 42).
\<close>

definition bracket_entry ::
  "'m sklearn \<Rightarrow> (real \<times> real) list \<Rightarrow> real list \<Rightarrow> real list \<Rightarrow> nat \<Rightarrow> real \<times> real
   \<Rightarrow> 'm result option" where
  "bracket_entry S X_all y_all p_all bi b =
     (let Xb = map fst (filter (\<lambda>(row, p). in_bracket (Fin (fst b), Fin (snd b)) (Fin p)) (zip X_all p_all));
          yb = map fst (filter (\<lambda>(t, p). in_bracket (Fin (fst b), Fin (snd b)) (Fin p)) (zip y_all p_all))
      in if length yb < 10 then None
         else (case train_test_split S Xb yb (2 / 10) 42 of
                 (X_train, X_test, y_train, y_test) \<Rightarrow>
                   map_option (\<lambda>best. \<lparr> r_bi = bi, r_pmin = fst b, r_pmax = snd b,
                                         r_split = c_split best, r_rmse = c_rmse best,
                                         r_mL = c_mL best, r_mR = c_mR best, r_n = length yb \<rparr>)
                     (search_split S X_train y_train X_test y_test [10..60])))"

section \<open>Dataset loader\<close>

text \<open>
  What \<open>json.load\<close> returns: Python reads a number without fraction or exponent as an integer,
  any other number as a float, and accepts the literals \<open>NaN\<close>, \<open>Infinity\<close> and \<open>-Infinity\<close>.
  A record is a dictionary from field names to such values.
\<close>

datatype json = JNull | JBool bool | JInt int | JFloat fl | JStr string
  | JArr "json list" | JObj "(string \<times> json) list"

type_synonym shot = "string \<rightharpoonup> json"

datatype py_error = TypeError | ValueError | OverflowError | KeyError

text \<open>
  The loop of \<open>extract_features\<close> in \<open>build_angle_model.py\<close> (lines 36 to 46): a record without
  one of the four keys is skipped, the values of the others are appended as they are. \<open>None\<close>
  is a KeyError.
\<close>

definition has_keys :: "string list \<Rightarrow> shot \<Rightarrow> bool" where
  "has_keys keys shot = (\<not> (\<exists>key \<in> set keys. shot key = None))"

definition feature_rows :: "shot list \<Rightarrow> (json list list \<times> json list) option" where
  "feature_rows data =
     (let kept = filter (has_keys [''cutAngle'', ''spinY'', ''power'', ''angleError'']) data
      in do {
        features \<leftarrow> map_opt (\<lambda>shot. map_opt shot [''cutAngle'', ''spinY'', ''power'']) kept;
        targets \<leftarrow> map_opt (\<lambda>shot. shot ''angleError'') kept;
        Some (features, targets)
      })"

text \<open>
  The rest of the function is numpy's: \<open>np.array\<close> of the two lists (numpy chooses the element
  type and converts, or raises), then the report of the ranges (\<open>min\<close>, \<open>max\<close>, \<open>mean\<close>, \<open>std\<close> of
  the columns and their formatting with \<open>:.2f\<close>), which raises on arrays that are not numeric
  and on an empty selection. These are parameters; \<open>None\<close> is an exception, which ends the run.
\<close>

record ('X, 'y) numpy =
  np_array2 :: "json list list \<Rightarrow> 'X option"
  np_array1 :: "json list \<Rightarrow> 'y option"
  range_report :: "'X \<Rightarrow> 'y \<Rightarrow> unit option"

definition extract_features :: "('X, 'y) numpy \<Rightarrow> shot list \<Rightarrow> ('X \<times> 'y) option" where
  "extract_features NP data = do {
     (features, targets) \<leftarrow> feature_rows data;
     X \<leftarrow> np_array2 NP features;
     y \<leftarrow> np_array1 NP targets;
     _ \<leftarrow> range_report NP X y;
     Some (X, y)
   }"

text \<open>
  \<open>float(v)\<close> on a value read from JSON. A string is parsed by Python (the parser is a
  parameter: \<open>None\<close> is its ValueError; it accepts \<open>'nan'\<close> and \<open>'inf'\<close>), \<open>None\<close>, lists and
  dictionaries raise TypeError, a boolean is 1 or 0. An integer becomes the nearest double;
  when that would be \<open>2^1024\<close>, which is from \<open>2^1024 - 2^970\<close> on, Python raises OverflowError.
\<close>

definition py_float :: "(string \<Rightarrow> fl option) \<Rightarrow> json \<Rightarrow> py_error + fl" where
  "py_float parse v =
     (case v of
        JNull \<Rightarrow> Inl TypeError
      | JBool b \<Rightarrow> Inr (Fin (if b then 1 else 0))
      | JInt i \<Rightarrow> (if 2 ^ 1024 - 2 ^ 970 \<le> \<bar>real_of_int i\<bar> then Inl OverflowError
                   else Inr (round_double (real_of_int i)))
      | JFloat f \<Rightarrow> Inr f
      | JStr s \<Rightarrow> (case parse s of None \<Rightarrow> Inl ValueError | Some f \<Rightarrow> Inr f)
      | JArr xs \<Rightarrow> Inl TypeError
      | JObj kvs \<Rightarrow> Inl TypeError)"

text \<open>\<open>r[key]\<close> on a dictionary.\<close>

definition py_item :: "shot \<Rightarrow> string \<Rightarrow> py_error + json" where
  "py_item r key = (case r key of None \<Rightarrow> Inl KeyError | Some v \<Rightarrow> Inr v)"

definition TARGET :: string where
  "TARGET = ''angleError''"

text \<open>
  The body of the \<open>try\<close> block in \<open>main\<close> of \<open>build_angle_model_split.py\<close> (lines 308 to 310):
  the three conversions in order, the first exception wins.
\<close>

definition convert_row :: "(string \<Rightarrow> fl option) \<Rightarrow> shot \<Rightarrow> py_error + (fl \<times> fl \<times> fl)" where
  "convert_row parse r =
     (case py_item r ''cutAngle'' of Inl e \<Rightarrow> Inl e | Inr v1 \<Rightarrow>
      case py_float parse v1 of Inl e \<Rightarrow> Inl e | Inr cut_angle \<Rightarrow>
      case py_item r ''power'' of Inl e \<Rightarrow> Inl e | Inr v2 \<Rightarrow>
      case py_float parse v2 of Inl e \<Rightarrow> Inl e | Inr pow \<Rightarrow>
      case py_item r TARGET of Inl e \<Rightarrow> Inl e | Inr v3 \<Rightarrow>
      case py_float parse v3 of Inl e \<Rightarrow> Inl e | Inr y \<Rightarrow>
      Inr (cut_angle, pow, y))"

text \<open>
  The loop of \<open>main\<close> (lines 303 to 315): a record without one of the three keys is skipped; a
  TypeError or ValueError of the conversions is caught and the record skipped; any other
  exception ends the run. The result lists (cutAngle, power, angleError) per retained record:
  \<open>X_all\<close> is its first two components, \<open>y_all\<close> the third and \<open>p_all\<close> the second.
\<close>

fun collect_rows :: "(string \<Rightarrow> fl option) \<Rightarrow> shot list \<Rightarrow> py_error + (fl \<times> fl \<times> fl) list" where
  "collect_rows parse [] = Inr []"
| "collect_rows parse (r # rows) =
     (if r ''cutAngle'' = None \<or> r ''power'' = None \<or> r TARGET = None
      then collect_rows parse rows
      else (case convert_row parse r of
              Inl e \<Rightarrow> (if e = TypeError \<or> e = ValueError then collect_rows parse rows else Inl e)
            | Inr sample \<Rightarrow>
                (case collect_rows parse rows of
                   Inl e \<Rightarrow> Inl e
                 | Inr samples \<Rightarrow> Inr (sample # samples))))"

text \<open>
  Vocabulary for the result: the integers too large for a double, the values that \<open>float\<close>
  accepts, the float it makes of them, and the floats that are finite.
\<close>

definition too_large :: "json \<Rightarrow> bool" where
  "too_large v = (case v of JInt i \<Rightarrow> 2 ^ 1024 - 2 ^ 970 \<le> \<bar>real_of_int i\<bar> | _ \<Rightarrow> False)"

fun float_accepts :: "(string \<Rightarrow> fl option) \<Rightarrow> json \<Rightarrow> bool" where
  "float_accepts parse (JBool b) = True"
| "float_accepts parse (JInt i) = (\<not> too_large (JInt i))"
| "float_accepts parse (JFloat f) = True"
| "float_accepts parse (JStr s) = (parse s \<noteq> None)"
| "float_accepts parse v = False"

fun float_value :: "(string \<Rightarrow> fl option) \<Rightarrow> json \<Rightarrow> fl" where
  "float_value parse (JBool b) = Fin (if b then 1 else 0)"
| "float_value parse (JInt i) = round_double (real_of_int i)"
| "float_value parse (JFloat f) = f"
| "float_value parse (JStr s) = (case parse s of Some f \<Rightarrow> f | None \<Rightarrow> NaN)"
| "float_value parse v = NaN"

fun is_finite :: "fl \<Rightarrow> bool" where
  "is_finite (Fin x) = True"
| "is_finite f = False"

text \<open>A record that \<open>float\<close> accepts in its three fields, and the sample made of it.\<close>

definition row_accepted :: "(string \<Rightarrow> fl option) \<Rightarrow> shot \<Rightarrow> bool" where
  "row_accepted parse r =
     (\<forall>key \<in> set [''cutAngle'', ''power'', ''angleError''].
        case r key of None \<Rightarrow> False | Some v \<Rightarrow> float_accepts parse v)"

definition field_float :: "(string \<Rightarrow> fl option) \<Rightarrow> shot \<Rightarrow> string \<Rightarrow> fl" where
  "field_float parse r key = (case r key of None \<Rightarrow> NaN | Some v \<Rightarrow> float_value parse v)"

definition row_floats :: "(string \<Rightarrow> fl option) \<Rightarrow> shot \<Rightarrow> fl \<times> fl \<times> fl" where
  "row_floats parse r =
     (field_float parse r ''cutAngle'', field_float parse r ''power'', field_float parse r ''angleError'')"

text \<open>
  A record that ends the run: it has the three fields and, reading them in the order cutAngle,
  power, angleError, \<open>float\<close> meets an integer too large for a double before any value that it
  rejects.
\<close>

definition row_aborts :: "(string \<Rightarrow> fl option) \<Rightarrow> shot \<Rightarrow> bool" where
  "row_aborts parse r =
     (case (r ''cutAngle'', r ''power'', r ''angleError'') of
        (Some a, Some b, Some c) \<Rightarrow>
          too_large a \<or> (float_accepts parse a
                          \<and> (too_large b \<or> (float_accepts parse b \<and> too_large c)))
      | _ \<Rightarrow> False)"

definition field_raw :: "shot \<Rightarrow> string \<Rightarrow> json" where
  "field_raw r key = (case r key of None \<Rightarrow> JNull | Some v \<Rightarrow> v)"

section \<open>Code emitter of the adaptive variant\<close>

text \<open>
  \<open>int(s)\<close> for a string: an optional sign and decimal digits (Python also accepts surrounding
  white space and underscores between digits, which the feature names of scikit-learn never
  hold). \<open>None\<close> is the ValueError.
\<close>

fun parse_digits :: "string \<Rightarrow> nat \<Rightarrow> nat option" where
  "parse_digits [] acc = Some acc"
| "parse_digits (c # cs) acc =
     (if c \<in> set ''0123456789'' then parse_digits cs (10 * acc + (of_char c - 48)) else None)"

definition py_int :: "string \<Rightarrow> int option" where
  "py_int s =
     (case s of
        [] \<Rightarrow> None
      | c # cs \<Rightarrow>
          if c = CHR ''-'' then (if cs = [] then None else map_option (\<lambda>n. - int n) (parse_digits cs 0))
          else if c = CHR ''+'' then (if cs = [] then None else map_option int (parse_digits cs 0))
          else map_option int (parse_digits s 0))"

text \<open>\<open>s.rstrip(chars)\<close>.\<close>

definition py_rstrip :: "string \<Rightarrow> string \<Rightarrow> string" where
  "py_rstrip chars s = rev (dropWhile (\<lambda>c. c \<in> set chars) (rev s))"

text \<open>
  \<open>term_to_js\<close> inside \<open>js_from_poly_ridge\<close> reads a feature name of scikit-learn (\<open>1\<close>, \<open>x0\<close>,
  \<open>x0^2 x1\<close>) and writes a JavaScript product. Here it is split in two: the factors it reads
  (a ValueError of the unpacking \<open>base, pw = p.split("^")\<close> or of \<open>int(pw)\<close> is \<open>None\<close>), and
  the text it writes for them.
\<close>

datatype js_factor = JVar string | JPow string int

definition parse_factor :: "string \<Rightarrow> js_factor option" where
  "parse_factor p =
     (if CHR ''^'' \<in> set p
      then (case split_on (CHR ''^'') p of
              [base, pw] \<Rightarrow> map_option (JPow base) (py_int pw)
            | _ \<Rightarrow> None)
      else Some (JVar p))"

definition term_factors :: "string \<Rightarrow> js_factor list option" where
  "term_factors term = map_opt parse_factor (split_on (CHR '' '') term)"

definition xmap :: "string \<rightharpoonup> string" where
  "xmap = [''x0'' \<mapsto> ''cutAngle'', ''x1'' \<mapsto> ''power'']"

definition repl_var :: "string \<Rightarrow> string" where
  "repl_var tok = (case xmap tok of Some v \<Rightarrow> v | None \<Rightarrow> tok)"

fun render_factor :: "js_factor \<Rightarrow> string" where
  "render_factor (JVar p) = repl_var p"
| "render_factor (JPow base pw) = ''Math.pow('' @ repl_var base @ '', '' @ show_int pw @ '')''"

definition term_to_js :: "string \<Rightarrow> string option" where
  "term_to_js term =
     (if term = ''1'' then Some ''1.0''
      else do { js_parts \<leftarrow> term_factors term;
                Some (''('' @ str_join '' * '' (map render_factor js_parts) @ '')'') })"

text \<open>
  \<open>js_from_poly_ridge(model, func_name, xmap)\<close>, as the list of its lines. The pairs of feature
  name and coefficient come from the fitted model (\<open>extract_poly_ridge_coeffs\<close>, scikit-learn).
\<close>

definition js_from_poly_ridge ::
  "py_format \<Rightarrow> (string \<times> real) list \<Rightarrow> string \<Rightarrow> string list option" where
  "js_from_poly_ridge F coeffs func_name = do {
     term_lines \<leftarrow> map_opt (\<lambda>(name, c). do { t \<leftarrow> term_to_js name;
                                              Some (''    '' @ fmt_12g F c @ '' * '' @ t @ '' +'') })
                           coeffs;
     let lines = [''function '' @ func_name @ ''(cutAngle, power) {'', ''  return (''] @ term_lines;
     let lines = butlast lines @ [py_rstrip '' +'' (last lines)];
     Some (lines @ [''  );'', ''}''])
   }"

text \<open>The fit-quality figures that \<open>main\<close> passes as \<open>metrics\<close>.\<close>

record metrics =
  m_r2 :: real
  m_rmse :: real
  m_mae :: real

text \<open>
  \<open>build_js\<close>. Its first statement reads the clock, \<open>now =
  datetime.utcnow().strftime("%Y-%m-%d %H:%M:%SZ")\<close>: the reading is the parameter \<open>now\<close>.
  \<open>coeffs_of\<close> is \<open>extract_poly_ridge_coeffs\<close>. The header comes first.
\<close>

definition js_split_header :: "py_format \<Rightarrow> string \<Rightarrow> int \<Rightarrow> real \<Rightarrow> metrics \<Rightarrow> string \<Rightarrow> string list" where
  "js_split_header F input_filename poly_degree clip_val mt now =
    [''/* eslint-disable no-var, prefer-const */'',
     ''/**'',
     '' * Auto-generated angle error model.'',
     '' *'',
     '' * Trained on: '' @ input_filename,
     '' * Features: cutAngle, spinY, power'',
     '' * Model: piecewise PolynomialFeatures(degree='' @ show_int poly_degree @ '') + Ridge'',
     '' * Output clip: [-'' @ fmt_g F clip_val @ '', '' @ fmt_g F clip_val @ ''] degrees'',
     '' * Generated (UTC): '' @ now,
     '' * Metrics (overall holdout test, random_state=42):'',
     '' *   rSquared: '' @ fmt_6f F (m_r2 mt),
     '' *   rmse: '' @ fmt_6f F (m_rmse mt),
     '' *   mae: '' @ fmt_6f F (m_mae mt),
     '' *'',
     '' * Generated by build_angle_model_nn.py'',
     '' */'',
     '''']"

text \<open>The two functions of a bracket.\<close>

definition js_bracket_functions ::
  "py_format \<Rightarrow> ('m \<Rightarrow> (string \<times> real) list) \<Rightarrow> 'm result \<Rightarrow> string list option" where
  "js_bracket_functions F coeffs_of r =
     (let fL = ''__predictAngleError_b'' @ show_nat (r_bi r) @ ''_left'';
          fR = ''__predictAngleError_b'' @ show_nat (r_bi r) @ ''_right''
      in do {
        left \<leftarrow> js_from_poly_ridge F (coeffs_of (r_mL r)) fL;
        right \<leftarrow> js_from_poly_ridge F (coeffs_of (r_mR r)) fR;
        Some ([''// Bracket '' @ show_nat (r_bi r) @ '': power in ['' @ repr_float F (r_pmin r) @ '', ''
                @ repr_float F (r_pmax r) @ '') (n='' @ show_nat (r_n r) @ '', split=''
                @ show_int (r_split r) @ '', rmse='' @ fmt_4f F (r_rmse r) @ '')'',
               str_join [CHR 0x0A] left, '''', str_join [CHR 0x0A] right, ''''])
      })"

text \<open>The six lines that route inside a bracket and clip the prediction.\<close>

definition js_route_lines :: "py_format \<Rightarrow> real \<Rightarrow> 'm result \<Rightarrow> string list" where
  "js_route_lines F clip_val r =
    [''    const split = '' @ show_int (r_split r) @ '';'',
     ''    let y = (cutAngle < split)'',
     ''      ? __predictAngleError_b'' @ show_nat (r_bi r) @ ''_left(cutAngle, power)'',
     ''      : __predictAngleError_b'' @ show_nat (r_bi r) @ ''_right(cutAngle, power);'',
     ''    if (y > '' @ fmt_g F clip_val @ '') y = '' @ fmt_g F clip_val @ '';'',
     ''    else if (y < -'' @ fmt_g F clip_val @ '') y = -'' @ fmt_g F clip_val @ '';'',
     ''    return y;'',
     ''  }'']"

definition js_bracket_branch :: "py_format \<Rightarrow> real \<Rightarrow> nat \<times> 'm result \<Rightarrow> string list" where
  "js_bracket_branch F clip_val = (\<lambda>(idx, r).
     let cond = ''(power >= '' @ repr_float F (r_pmin r) @ '' && power < '' @ repr_float F (r_pmax r) @ '')''
     in [(if idx = 0 then ''  if '' else ''  else if '') @ cond @ '' {''] @ js_route_lines F clip_val r)"

definition js_fallback :: "py_format \<Rightarrow> real \<Rightarrow> 'm result list \<Rightarrow> string list" where
  "js_fallback F clip_val results =
     ''  // fallback: clamp to nearest bracket'' #
     (if results \<noteq> []
      then [''  if (power < '' @ repr_float F (r_pmin (hd results)) @ '') {'']
           @ js_route_lines F clip_val (hd results)
           @ [''  {''] @ js_route_lines F clip_val (last results)
      else [''  return 0;''])"

definition js_split_wrapper_head :: "string list" where
  "js_split_wrapper_head =
    [''/**'',
     '' * Predict the angle error for a shot'',
     '' * @param {number} cutAngle - Cut angle in degrees (0 = straight, 90 = max)'',
     '' * @param {number} spinY - Vertical spin (-1 to 1, positive = topspin)'',
     '' * @param {number} power - Shot power'',
     '' * @returns {number} Predicted angle error in degrees'',
     '' */'',
     ''function predictAngleError(cutAngle, spinY, power) {'',
     ''  // basic input sanitization (avoid NaN/Infinity propagating)'',
     ''  if (!Number.isFinite(cutAngle) || !Number.isFinite(spinY) || !Number.isFinite(power)) return 0;'',
     '''',
     ''  // NOTE: spinY is accepted for compatibility but not used by this model.'',
     '''']"

definition js_split_footer ::
  "py_format \<Rightarrow> 'm result list \<Rightarrow> int \<Rightarrow> int \<Rightarrow> real \<Rightarrow> metrics \<Rightarrow> string list" where
  "js_split_footer F results n_samples_total poly_degree clip_val mt =
    [''}'',
     '''',
     ''/**'',
     '' * Calculate aim adjustment to compensate for predicted angle error'',
     '' * @param {number} cutAngle - Cut angle in degrees'',
     '' * @param {number} spinY - Vertical spin'',
     '' * @param {number} power - Shot power'',
     '' * @returns {number} Angle adjustment in degrees (subtract from aim)'',
     '' */'',
     ''function calculateAimAdjustment(cutAngle, spinY, power) {'',
     ''  return predictAngleError(cutAngle, spinY, power);'',
     ''}'',
     '''',
     ''// Model metadata'',
     ''const ANGLE_MODEL_INFO = {'',
     ''  modelType: '' @ [CHR 0x22] @ ''piecewise_poly_ridge'' @ [CHR 0x22] @ '','',
     ''  degree: '' @ show_int poly_degree @ '','',
     ''  clip: '' @ fmt_g F clip_val @ '','',
     ''  nSamples: '' @ show_int n_samples_total @ '','',
     ''  features: ['' @ [CHR 0x22] @ ''cutAngle'' @ [CHR 0x22] @ '', '' @ [CHR 0x22] @ ''spinY''
        @ [CHR 0x22] @ '', '' @ [CHR 0x22] @ ''power'' @ [CHR 0x22] @ ''],'',
     ''  piecewise: {'',
     ''    brackets: ['']
    @ map (\<lambda>r. ''      { pmin: '' @ repr_float F (r_pmin r) @ '', pmax: '' @ repr_float F (r_pmax r)
                 @ '', split: '' @ show_int (r_split r) @ '', n: '' @ show_nat (r_n r) @ '' },'')
          results
    @ [''    ]'',
       ''  },'',
       ''  metrics: {'',
       ''    rSquared: '' @ fmt_6f F (m_r2 mt) @ '','',
       ''    rmse: '' @ fmt_6f F (m_rmse mt) @ '','',
       ''    mae: '' @ fmt_6f F (m_mae mt),
       ''  }'',
       ''};'',
       '''',
       ''// Export for use in modules'',
       ''if (typeof module !== '' @ [CHR 0x22] @ ''undefined'' @ [CHR 0x22] @ '' && module.exports) {'',
       ''  module.exports = { predictAngleError, calculateAimAdjustment, ANGLE_MODEL_INFO };'',
       ''}'',
       '''']"

definition build_js_lines ::
  "py_format \<Rightarrow> ('m \<Rightarrow> (string \<times> real) list) \<Rightarrow> 'm result list \<Rightarrow> string \<Rightarrow> int \<Rightarrow> int \<Rightarrow> real
   \<Rightarrow> metrics \<Rightarrow> string \<Rightarrow> string list option" where
  "build_js_lines F coeffs_of results input_filename n_samples_total poly_degree clip_val mt now = do {
     functions \<leftarrow> map_opt (js_bracket_functions F coeffs_of) results;
     Some (js_split_header F input_filename poly_degree clip_val mt now
           @ concat functions
           @ js_split_wrapper_head
           @ concat (map (js_bracket_branch F clip_val) (zip [0..<length results] results))
           @ js_fallback F clip_val results
           @ js_split_footer F results n_samples_total poly_degree clip_val mt)
   }"

definition build_js ::
  "py_format \<Rightarrow> ('m \<Rightarrow> (string \<times> real) list) \<Rightarrow> 'm result list \<Rightarrow> string \<Rightarrow> int \<Rightarrow> int \<Rightarrow> real
   \<Rightarrow> metrics \<Rightarrow> string \<Rightarrow> string option" where
  "build_js F coeffs_of results input_filename n_samples_total poly_degree clip_val mt now =
     map_option (str_join [CHR 0x0A])
       (build_js_lines F coeffs_of results input_filename n_samples_total poly_degree clip_val mt now)"

section \<open>The emitted predictor as a function\<close>

text \<open>
  What the emitted JavaScript computes, line by line. Numbers are doubles (\<open>fl\<close>). A
  coefficient is written with twelve significant digits and the clip value with six; the model
  takes the value of the written literal as given (\<open>k\<close>, \<open>clip\<close>). \<open>None\<close> is an emitted text
  outside the fragment that is modelled: an identifier other than the two parameters (a
  ReferenceError when the function runs) or an empty sum (a SyntaxError when the file loads).

  \<open>Math.pow(x, n)\<close> for a finite \<open>x\<close> and an integer \<open>n\<close>:
\<close>

definition js_pow :: "real \<Rightarrow> int \<Rightarrow> fl" where
  "js_pow x n = (if 0 \<le> n then fl_of (x ^ nat n) else fl_div (Fin 1) (fl_of (x ^ nat (- n))))"

text \<open>The parameters \<open>cutAngle\<close> and \<open>power\<close> of a bracket function.\<close>

definition js_var :: "real \<Rightarrow> real \<Rightarrow> string \<Rightarrow> real option" where
  "js_var cut_angle pw name =
     (if name = ''cutAngle'' then Some cut_angle else if name = ''power'' then Some pw else None)"

fun factor_value :: "real \<Rightarrow> real \<Rightarrow> js_factor \<Rightarrow> fl option" where
  "factor_value cut_angle pw (JVar p) = map_option Fin (js_var cut_angle pw (repl_var p))"
| "factor_value cut_angle pw (JPow base n) =
     map_option (\<lambda>x. js_pow x n) (js_var cut_angle pw (repl_var base))"

text \<open>\<open>(f1 * f2 * ...)\<close>, or \<open>1.0\<close> for the constant term.\<close>

definition js_term_value :: "real \<Rightarrow> real \<Rightarrow> string \<Rightarrow> fl option" where
  "js_term_value cut_angle pw term =
     (if term = ''1'' then Some (Fin 1)
      else do { fs \<leftarrow> term_factors term;
                vs \<leftarrow> map_opt (factor_value cut_angle pw) fs;
                (case vs of [] \<Rightarrow> None | v # vs' \<Rightarrow> Some (foldl fl_mul v vs')) })"

text \<open>\<open>return ( k0 * t0 + k1 * t1 + ... );\<close>\<close>

definition js_poly_value :: "(string \<times> real) list \<Rightarrow> real \<Rightarrow> real \<Rightarrow> fl option" where
  "js_poly_value coeffs cut_angle pw = do {
     prods \<leftarrow> map_opt (\<lambda>(name, k). map_option (fl_mul (Fin k)) (js_term_value cut_angle pw name))
                      coeffs;
     (case prods of [] \<Rightarrow> None | v # vs \<Rightarrow> Some (foldl fl_add v vs))
   }"

text \<open>
  A call of \<open>__predictAngleError_b{bi}_left\<close> runs the last function declared under that name:
  the one of the last entry of \<open>results\<close> with that bracket index.
\<close>

definition js_lookup :: "'m result list \<Rightarrow> nat \<Rightarrow> 'm result option" where
  "js_lookup results bi =
     (case filter (\<lambda>r. r_bi r = bi) results of [] \<Rightarrow> None | r # rs \<Rightarrow> Some (last (r # rs)))"

text \<open>\<open>if (y > clip) y = clip; else if (y < -clip) y = -clip; return y;\<close>\<close>

definition js_clamp :: "real \<Rightarrow> fl \<Rightarrow> fl" where
  "js_clamp clip y =
     (if fl_less (Fin clip) y then Fin clip
      else if fl_less y (Fin (- clip)) then Fin (- clip)
      else y)"

text \<open>The block that routes inside the bracket of \<open>r\<close> and clips.\<close>

definition js_route ::
  "('m \<Rightarrow> (string \<times> real) list) \<Rightarrow> 'm result list \<Rightarrow> real \<Rightarrow> 'm result \<Rightarrow> real \<Rightarrow> real \<Rightarrow> fl option" where
  "js_route coeffs_of results clip r cut_angle pw = do {
     fr \<leftarrow> js_lookup results (r_bi r);
     y \<leftarrow> (if cut_angle < real_of_int (r_split r)
           then js_poly_value (coeffs_of (r_mL fr)) cut_angle pw
           else js_poly_value (coeffs_of (r_mR fr)) cut_angle pw);
     Some (js_clamp clip y)
   }"

text \<open>
  The emitted \<open>predictAngleError(cutAngle, spinY, power)\<close>: the test of the inputs, the chain of
  \<open>if\<close> and \<open>else if\<close> over the brackets, then the fallback. An argument that is not a number
  fails \<open>Number.isFinite\<close> like NaN does.
\<close>

definition predictAngleError ::
  "('m \<Rightarrow> (string \<times> real) list) \<Rightarrow> 'm result list \<Rightarrow> real \<Rightarrow> fl \<Rightarrow> fl \<Rightarrow> fl \<Rightarrow> fl option" where
  "predictAngleError coeffs_of results clip cutAngle spinY pw =
     (case (cutAngle, spinY, pw) of
        (Fin c, Fin s, Fin p) \<Rightarrow>
          (case find (\<lambda>r. r_pmin r \<le> p \<and> p < r_pmax r) results of
             Some r \<Rightarrow> js_route coeffs_of results clip r c p
           | None \<Rightarrow>
               if results \<noteq> []
               then (if p < r_pmin (hd results)
                     then js_route coeffs_of results clip (hd results) c p
                     else js_route coeffs_of results clip (last results) c p)
               else Some (Fin 0))
      | _ \<Rightarrow> Some (Fin 0))"

text \<open>
  Vocabulary: the feature names that scikit-learn gives to the terms over two inputs (\<open>1\<close>, and
  products of \<open>x0\<close> and \<open>x1\<close> with optional powers), and a model with at least one term, all of
  them so named.
\<close>

fun factor_ok :: "js_factor \<Rightarrow> bool" where
  "factor_ok (JVar p) = (p = ''x0'' \<or> p = ''x1'')"
| "factor_ok (JPow base n) = (base = ''x0'' \<or> base = ''x1'')"

definition name_ok :: "string \<Rightarrow> bool" where
  "name_ok term = (term = ''1'' \<or> (case term_factors term of None \<Rightarrow> False | Some fs \<Rightarrow> list_all factor_ok fs))"

definition model_ok :: "(string \<times> real) list \<Rightarrow> bool" where
  "model_ok coeffs = (coeffs \<noteq> [] \<and> list_all (\<lambda>(name, k). name_ok name) coeffs)"

definition in_clip :: "real \<Rightarrow> fl \<Rightarrow> bool" where
  "in_clip clip y = (case y of Fin v \<Rightarrow> - clip \<le> v \<and> v \<le> clip | _ \<Rightarrow> False)"

section \<open>The dependency-free linear solver\<close>

text \<open>
  \<open>solve_linear_system(A, b)\<close> of \<open>build_angle_model_simple.py\<close>. The augmented matrix is a list
  of rows; every read and write of an entry is checked, so that an IndexError is \<open>None\<close>. The
  division of Python floats is the parameter \<open>dv\<close> (\<open>py_truediv\<close> in the script), so that the
  theorems can say on which divisors the result depends.
\<close>

definition get2 :: "real list list \<Rightarrow> nat \<Rightarrow> nat \<Rightarrow> real option" where
  "get2 aug r c = do { row \<leftarrow> py_get aug r; py_get row c }"

definition set2 :: "real list list \<Rightarrow> nat \<Rightarrow> nat \<Rightarrow> real \<Rightarrow> real list list option" where
  "set2 aug r c v = do { row \<leftarrow> py_get aug r; row' \<leftarrow> py_set row c v; py_set aug r row' }"

text \<open>\<open>aug = [row[:] + [b[i]] for i, row in enumerate(A)]\<close>\<close>

definition augment :: "real list list \<Rightarrow> real list \<Rightarrow> real list list option" where
  "augment A b = map_opt (\<lambda>(i, row). do { bi \<leftarrow> py_get b i; Some (row @ [bi]) })
                         (zip [0..<length A] A)"

text \<open>The search for the pivot: the first row, from \<open>col\<close> down, of largest magnitude in the column.\<close>

definition find_pivot :: "real list list \<Rightarrow> nat \<Rightarrow> nat \<Rightarrow> nat option" where
  "find_pivot aug n col =
     for_loop [col + 1..<n]
       (\<lambda>max_row row. do { a \<leftarrow> get2 aug row col; m \<leftarrow> get2 aug max_row col;
                           Some (if \<bar>a\<bar> > \<bar>m\<bar> then row else max_row) })
       col"

text \<open>\<open>aug[col], aug[max_row] = aug[max_row], aug[col]\<close>\<close>

definition swap_rows :: "real list list \<Rightarrow> nat \<Rightarrow> nat \<Rightarrow> real list list option" where
  "swap_rows aug i j = do { rj \<leftarrow> py_get aug j; ri \<leftarrow> py_get aug i;
                            aug1 \<leftarrow> py_set aug i rj; py_set aug1 j ri }"

text \<open>The elimination of the column from one row below the pivot.\<close>

definition eliminate_row ::
  "(real \<Rightarrow> real \<Rightarrow> real option) \<Rightarrow> nat \<Rightarrow> nat \<Rightarrow> real list list \<Rightarrow> nat \<Rightarrow> real list list option" where
  "eliminate_row dv n col aug row = do {
     a \<leftarrow> get2 aug row col;
     p \<leftarrow> get2 aug col col;
     factor \<leftarrow> dv a p;
     for_loop [col..<n + 1]
       (\<lambda>aug j. do { x \<leftarrow> get2 aug row j; y \<leftarrow> get2 aug col j; set2 aug row j (x - factor * y) })
       aug
   }"

text \<open>One round of the forward elimination; a pivot below \<open>1e-12\<close> in magnitude is skipped.\<close>

definition forward_column ::
  "(real \<Rightarrow> real \<Rightarrow> real option) \<Rightarrow> nat \<Rightarrow> real list list \<Rightarrow> nat \<Rightarrow> real list list option" where
  "forward_column dv n aug col = do {
     max_row \<leftarrow> find_pivot aug n col;
     aug \<leftarrow> swap_rows aug col max_row;
     p \<leftarrow> get2 aug col col;
     if \<bar>p\<bar> < 1 / 10 ^ 12 then Some aug
     else for_loop [col + 1..<n] (eliminate_row dv n col) aug
   }"

definition forward_elimination ::
  "(real \<Rightarrow> real \<Rightarrow> real option) \<Rightarrow> nat \<Rightarrow> real list list \<Rightarrow> real list list option" where
  "forward_elimination dv n aug = for_loop [0..<n] (forward_column dv n) aug"

text \<open>One round of the back substitution, for the row \<open>i\<close>.\<close>

definition back_row ::
  "(real \<Rightarrow> real \<Rightarrow> real option) \<Rightarrow> nat \<Rightarrow> real list list \<Rightarrow> real list \<Rightarrow> nat \<Rightarrow> real list option" where
  "back_row dv n aug x i = do {
     p \<leftarrow> get2 aug i i;
     if \<bar>p\<bar> < 1 / 10 ^ 12 then py_set x i 0
     else do {
       r \<leftarrow> get2 aug i n;
       x \<leftarrow> py_set x i r;
       x \<leftarrow> for_loop [i + 1..<n]
              (\<lambda>x j. do { xi \<leftarrow> py_get x i; a \<leftarrow> get2 aug i j; xj \<leftarrow> py_get x j;
                          py_set x i (xi - a * xj) })
              x;
       xi \<leftarrow> py_get x i;
       p \<leftarrow> get2 aug i i;
       q \<leftarrow> dv xi p;
       py_set x i q
     }
   }"

definition back_substitution ::
  "(real \<Rightarrow> real \<Rightarrow> real option) \<Rightarrow> nat \<Rightarrow> real list list \<Rightarrow> real list option" where
  "back_substitution dv n aug = for_loop (rev [0..<n]) (back_row dv n aug) (replicate n 0)"

definition solve_linear_system ::
  "(real \<Rightarrow> real \<Rightarrow> real option) \<Rightarrow> real list list \<Rightarrow> real list \<Rightarrow> real list option" where
  "solve_linear_system dv A b = do {
     let n = length A;
     aug \<leftarrow> augment A b;
     aug \<leftarrow> forward_elimination dv n aug;
     back_substitution dv n aug
   }"

text \<open>
  Vocabulary: a square system, and a division that raises whenever the divisor is below
  \<open>1e-12\<close> in magnitude (Python's raises only when it is zero).
\<close>

definition square_system :: "real list list \<Rightarrow> real list \<Rightarrow> bool" where
  "square_system A b = (length b = length A \<and> list_all (\<lambda>row. length row = length A) A)"

definition strict_truediv :: "real \<Rightarrow> real \<Rightarrow> real option" where
  "strict_truediv a d = (if \<bar>d\<bar> < 1 / 10 ^ 12 then None else Some (a / d))"

text \<open>
  Vocabulary of the proofs: an augmented matrix of \<open>n\<close> rows and \<open>n + 1\<close> columns, and a division
  that is the quotient on every divisor of magnitude \<open>1e-12\<close> or more (on smaller divisors it may
  do anything, also raise).
\<close>

definition shape :: "nat \<Rightarrow> real list list \<Rightarrow> bool" where
  "shape n aug = (length aug = n \<and> list_all (\<lambda>row. length row = Suc n) aug)"

definition div_ok :: "(real \<Rightarrow> real \<Rightarrow> real option) \<Rightarrow> bool" where
  "div_ok dv = (\<forall>a d. \<not> \<bar>d\<bar> < 1 / 10 ^ 12 \<longrightarrow> dv a d = Some (a / d))"

section \<open>Facts about the helpers\<close>

lemma map_opt_Some: "(\<forall>x \<in> set xs. f x = Some (g x)) \<Longrightarrow> map_opt f xs = Some (map g xs)"
  by (induction xs) auto

lemma for_loop_invariant:
  assumes "P s" "\<And>s i. P s \<Longrightarrow> i \<in> set is \<Longrightarrow> \<exists>s'. body s i = Some s' \<and> P s'"
  shows "\<exists>s'. for_loop is body s = Some s' \<and> P s'"
  using assms
proof (induction "is" arbitrary: s)
  case Nil
  then show ?case by simp
next
  case (Cons i "is")
  obtain s1 where s1: "body s i = Some s1" "P s1" using Cons.prems by force
  have "\<exists>s'. for_loop is body s1 = Some s' \<and> P s'"
    using s1 Cons.prems(2) by (intro Cons.IH) auto
  then show ?case using s1 by simp
qed

lemma map_opt_length: "map_opt f xs = Some ys \<Longrightarrow> length ys = length xs"
  by (induction xs arbitrary: ys) (auto split: bind_splits)

lemma map_opt_total: "(\<forall>x \<in> set xs. \<exists>y. f x = Some y) \<Longrightarrow> \<exists>ys. map_opt f xs = Some ys"
  by (induction xs) auto

lemma fl_of_small: "\<bar>x\<bar> < 2 ^ 1024 \<Longrightarrow> fl_of x = Fin x"
  by (auto simp: fl_of_def)

lemma fl_of_bounded: "\<bar>x\<bar> \<le> 1048576 \<Longrightarrow> fl_of x = Fin x"
proof -
  assume a: "\<bar>x\<bar> \<le> 1048576"
  have "(2::real) ^ 20 < 2 ^ 1024" by (rule power_strict_increasing) simp_all
  then have "(1048576::real) < 2 ^ 1024" by simp
  then show ?thesis using a by (intro fl_of_small) linarith
qed

section \<open>Facts about rounding\<close>

lemma binade_eq:
  assumes "2 powi e0 \<le> x" "x < 2 powi (e0 + 1)" "e0 \<le> e" "e - e0 \<le> int k"
  shows "binade k e x = e0"
  using assms(3,4)
proof (induction k arbitrary: e)
  case 0
  then show ?case by simp
next
  case (Suc k)
  show ?case
  proof (cases "2 powi e \<le> x")
    case True
    then have "(2::real) powi e < 2 powi (e0 + 1)" using assms(2) by simp
    then have "e < e0 + 1"
    proof (rule contrapos_pp)
      assume "\<not> e < e0 + 1"
      then have "(2::real) powi (e0 + 1) \<le> 2 powi e" by (intro power_int_increasing) simp_all
      then show "\<not> (2::real) powi e < 2 powi (e0 + 1)" by simp
    qed
    then show ?thesis using True Suc.prems by simp
  next
    case False
    then have "e \<noteq> e0" using assms(1) by auto
    then have "binade k (e - 1) x = e0" using Suc.prems by (intro Suc.IH) simp_all
    then show ?thesis using False by simp
  qed
qed

lemma binade_below:
  assumes "x < 2 powi (e - int k + 1)"
  shows "binade k e x = e - int k"
  using assms
proof (induction k arbitrary: e)
  case 0
  then show ?case by simp
next
  case (Suc k)
  have "(2::real) powi (e - int (Suc k) + 1) \<le> 2 powi e"
    by (intro power_int_increasing) simp_all
  then have "\<not> 2 powi e \<le> x" using Suc.prems by simp
  moreover have "binade k (e - 1) x = e - 1 - int k" using Suc.prems by (intro Suc.IH) simp
  ultimately show ?case by simp
qed

lemma double_exponent_eq:
  assumes "2 powi e \<le> \<bar>x\<bar>" "\<bar>x\<bar> < 2 powi (e + 1)" "- 1022 \<le> e" "e \<le> 1023"
  shows "double_exponent x = e"
  unfolding double_exponent_def using assms by (intro binade_eq) simp_all

lemma double_exponent_small:
  assumes "\<bar>x\<bar> < 2 powi (- 1021)"
  shows "double_exponent x = - 1022"
  unfolding double_exponent_def using binade_below[of "\<bar>x\<bar>" 1023 2045] assms by simp

lemma round_double_at:
  assumes "2 powi e \<le> \<bar>x\<bar>" "\<bar>x\<bar> < 2 powi (e + 1)" "- 1022 \<le> e" "e \<le> 1023"
  shows "round_double x = fl_of (of_int (round_half_even (x / 2 powi (e - 52))) * 2 powi (e - 52))"
  unfolding round_double_def Let_def double_exponent_eq[OF assms] by (rule refl)

lemma round_double_zero: "round_double 0 = Fin 0"
  by (simp add: round_double_def double_exponent_small round_half_even_def fl_of_bounded)

lemma round_double_examples:
  "round_double 1 = Fin 1" "round_double 2 = Fin 2" "round_double 3 = Fin 3"
  "round_double 4 = Fin 4" "round_double 5 = Fin 5"
proof -
  show "round_double 1 = Fin 1"
    by (subst round_double_at[of 0]) (simp_all add: round_half_even_def power_int_minus fl_of_bounded)
  show "round_double 2 = Fin 2"
    by (subst round_double_at[of 1]) (simp_all add: round_half_even_def power_int_minus fl_of_bounded)
  show "round_double 3 = Fin 3"
    by (subst round_double_at[of 1]) (simp_all add: round_half_even_def power_int_minus fl_of_bounded)
  show "round_double 4 = Fin 4"
    by (subst round_double_at[of 2]) (simp_all add: round_half_even_def power_int_minus fl_of_bounded)
  show "round_double 5 = Fin 5"
    by (subst round_double_at[of 2]) (simp_all add: round_half_even_def power_int_minus fl_of_bounded)
qed

lemma fl_le_Fin [simp]: "fl_le (Fin a) (Fin b) = (a \<le> b)"
  by (auto simp: fl_le_def)


section \<open>Facts about the polynomial feature expansion\<close>

lemma length_cwr: "length (combinations_with_replacement xs r) = (length xs + r - 1) choose r"
  by (induction xs r rule: combinations_with_replacement.induct) auto

lemma upto_1_Suc: "[1..int (Suc n)] = [1..int n] @ [int n + 1]"
  using upto_rec2[of 1 "int (Suc n)"] by simp

lemma length_poly_combos_nat:
  "Suc (length (poly_combos k (int n))) = (k + n) choose n"
proof (induction n)
  case 0
  show ?case by (simp add: poly_combos_def)
next
  case (Suc n)
  have "length (poly_combos k (int (Suc n))) = length (poly_combos k (int n)) + ((k + n) choose Suc n)"
    unfolding poly_combos_def upto_1_Suc
    by (simp add: length_cwr nat_add_distrib)
  with Suc show ?case by simp
qed

lemma cwr_elem: "c \<in> set (combinations_with_replacement xs r) \<Longrightarrow> length c = r \<and> set c \<subseteq> set xs"
  by (induction xs r arbitrary: c rule: combinations_with_replacement.induct) fastforce+

lemma cwr_sorted_elem: "sorted_wrt (<) xs \<Longrightarrow> c \<in> set (combinations_with_replacement xs r) \<Longrightarrow> sorted (c :: nat list)"
proof (induction xs r arbitrary: c rule: combinations_with_replacement.induct)
  case (3 x pool r)
  from "3.prems"(2) consider c' where "c = x # c'" "c' \<in> set (combinations_with_replacement (x # pool) r)"
    | "c \<in> set (combinations_with_replacement pool (Suc r))" by auto
  then show ?case
  proof cases
    case 1
    have "sorted c'" using 3 1 by blast
    moreover have "set c' \<subseteq> set (x # pool)" using cwr_elem[OF 1(2)] by simp
    ultimately show ?thesis using 1(1) "3.prems"(1) by (auto simp: less_imp_le)
  next
    case 2
    then show ?thesis using 3 by simp
  qed
qed auto

lemma cwr_complete: "sorted_wrt (<) xs \<Longrightarrow> sorted (c::nat list) \<Longrightarrow> set c \<subseteq> set xs \<Longrightarrow> length c = r
   \<Longrightarrow> c \<in> set (combinations_with_replacement xs r)"
proof (induction xs r arbitrary: c rule: combinations_with_replacement.induct)
  case (1 pool)
  then show ?case by simp
next
  case (2 r)
  then show ?case by auto
next
  case (3 x pool r)
  obtain y c' where c: "c = y # c'" using "3.prems"(4) by (cases c) auto
  show ?case
  proof (cases "y = x")
    case True
    have "c' \<in> set (combinations_with_replacement (x # pool) r)"
      using 3 c by (intro "3.IH"(1)) auto
    then show ?thesis using c True by simp
  next
    case False
    have "\<forall>z \<in> set c. z \<in> set pool"
    proof
      fix z assume z: "z \<in> set c"
      have "y \<in> set pool" using "3.prems"(3) c False by auto
      then have "x < y" using "3.prems"(1) by auto
      moreover have "y \<le> z" using z c "3.prems"(2) by auto
      ultimately have "z \<noteq> x" by simp
      then show "z \<in> set pool" using z "3.prems"(3) by auto
    qed
    then have "c \<in> set (combinations_with_replacement pool (Suc r))"
      using 3 by (intro "3.IH"(2)) auto
    then show ?thesis by simp
  qed
qed

lemma cwr_lex_sorted: "sorted_wrt (<) xs \<Longrightarrow> sorted_wrt (<) (combinations_with_replacement (xs::nat list) r)"
proof (induction xs r rule: combinations_with_replacement.induct)
  case (3 x pool r)
  have a: "sorted_wrt (<) (map ((#) x) (combinations_with_replacement (x # pool) r))"
    using 3 by (simp add: sorted_wrt_map)
  have b: "sorted_wrt (<) (combinations_with_replacement pool (Suc r))" using 3 by simp
  have c: "\<forall>u \<in> set (map ((#) x) (combinations_with_replacement (x # pool) r)).
           \<forall>v \<in> set (combinations_with_replacement pool (Suc r)). u < v"
  proof (intro ballI)
    fix u v assume u: "u \<in> set (map ((#) x) (combinations_with_replacement (x # pool) r))"
      and v: "v \<in> set (combinations_with_replacement pool (Suc r))"
    obtain u' where u': "u = x # u'" using u by auto
    obtain y v' where v': "v = y # v'" using cwr_elem[OF v] by (cases v) auto
    have "y \<in> set pool" using cwr_elem[OF v] v' by auto
    then have "x < y" using "3.prems" by auto
    then show "u < v" using u' v' by simp
  qed
  show ?case using a b c by (simp add: sorted_wrt_append)
qed auto

lemma poly_combos_Suc:
  "poly_combos k (int (Suc n)) = poly_combos k (int n) @ combinations_with_replacement [0..<k] (Suc n)"
  unfolding poly_combos_def upto_1_Suc by (simp add: nat_add_distrib)

lemma poly_combos_set_nat:
  "set (poly_combos k (int n)) = {c. sorted c \<and> set c \<subseteq> {0..<k} \<and> 1 \<le> length c \<and> length c \<le> n}"
proof (induction n)
  case 0
  show ?case by (auto simp: poly_combos_def)
next
  case (Suc n)
  have "set (combinations_with_replacement [0..<k] (Suc n)) = {c. sorted c \<and> set c \<subseteq> {0..<k} \<and> length c = Suc n}"
    using cwr_elem[of _ "[0..<k]" "Suc n"] cwr_sorted_elem[of "[0..<k]" _ "Suc n"]
      cwr_complete[of "[0..<k]" _ "Suc n"] by auto
  then show ?case unfolding poly_combos_Suc using Suc by auto
qed

lemma poly_combos_sorted_nat: "sorted_wrt term_before ([] # poly_combos k (int n))"
proof (induction n)
  case 0
  show ?case by (simp add: poly_combos_def)
next
  case (Suc n)
  let ?blk = "combinations_with_replacement [0..<k] (Suc n)"
  have blk: "sorted_wrt term_before ?blk"
    using cwr_lex_sorted[of "[0..<k]" "Suc n"] cwr_elem[of _ "[0..<k]" "Suc n"]
    by (auto simp: sorted_wrt_iff_nth_less term_before_def)
  have cross: "\<forall>a \<in> set ([] # poly_combos k (int n)). \<forall>b \<in> set ?blk. term_before a b"
    using cwr_elem[of _ "[0..<k]" "Suc n"] by (auto simp: poly_combos_set_nat term_before_def)
  have "sorted_wrt term_before (([] # poly_combos k (int n)) @ ?blk)"
    unfolding sorted_wrt_append using Suc blk cross by blast
  then show ?case unfolding poly_combos_Suc by simp
qed

lemma join_split:
  assumes "s \<notin> set p" "s \<notin> set q" "p @ s # u = q @ s # v"
  shows "p = q \<and> u = v"
proof -
  have "takeWhile (\<lambda>c. c \<noteq> s) (p @ s # u) = p" "takeWhile (\<lambda>c. c \<noteq> s) (q @ s # v) = q"
    using assms(1,2) by (auto simp: takeWhile_tail)
  then have "p = q" using assms(3) by simp
  then show ?thesis using assms(3) by simp
qed

lemma str_join_Cons: "str_join sep (p # ps) = (if ps = [] then p else p @ sep @ str_join sep ps)"
  by (cases ps) auto

lemma str_join_inj:
  assumes "\<forall>p \<in> set ps. s \<notin> set p \<and> p \<noteq> []" "\<forall>q \<in> set qs. s \<notin> set q \<and> q \<noteq> []"
    "str_join [s] ps = str_join [s] qs"
  shows "ps = qs"
  using assms
proof (induction ps arbitrary: qs)
  case Nil
  then show ?case by (cases qs) (auto simp: str_join_Cons split: if_splits)
next
  case (Cons p ps)
  obtain q qs' where qs: "qs = q # qs'"
    using Cons.prems by (cases qs) (auto simp: str_join_Cons split: if_splits)
  have p: "s \<notin> set p" and q: "s \<notin> set q" using Cons.prems qs by auto
  show ?case
  proof (cases "ps = []")
    case True
    have "qs' = []"
    proof (rule ccontr)
      assume "qs' \<noteq> []"
      then have "p = q @ s # str_join [s] qs'" using Cons.prems(3) True qs by (simp add: str_join_Cons)
      then have "s \<in> set p" by simp
      then show False using p by simp
    qed
    then show ?thesis using Cons.prems(3) True qs by (simp add: str_join_Cons)
  next
    case False
    have "qs' \<noteq> []"
    proof
      assume "qs' = []"
      then have "q = p @ s # str_join [s] ps" using Cons.prems(3) False qs by (simp add: str_join_Cons)
      then have "s \<in> set q" by simp
      then show False using q by simp
    qed
    then have "p @ s # str_join [s] ps = q @ s # str_join [s] qs'"
      using Cons.prems(3) False qs by (simp add: str_join_Cons)
    from join_split[OF p q this] have "p = q" "str_join [s] ps = str_join [s] qs'" by auto
    moreover have "ps = qs'" using Cons.IH[of qs'] Cons.prems qs calculation by auto
    ultimately show ?thesis using qs by simp
  qed
qed

lemma feature_name_ok: "i < 3 \<Longrightarrow> CHR ''*'' \<notin> set (feature_names ! i) \<and> feature_names ! i \<noteq> []"
proof -
  assume "i < 3"
  then consider "i = 0" | "i = 1" | "i = 2" by linarith
  then show ?thesis by cases (simp_all add: feature_names_def)
qed

lemma feature_name_inj: "i < 3 \<Longrightarrow> j < 3 \<Longrightarrow> feature_names ! i = feature_names ! j \<Longrightarrow> i = j"
proof -
  assume "i < 3" "j < 3" and e: "feature_names ! i = feature_names ! j"
  have "distinct feature_names" "length feature_names = 3" by (simp_all add: feature_names_def)
  then show ?thesis using \<open>i < 3\<close> \<open>j < 3\<close> e by (simp add: nth_eq_iff_index_eq)
qed

lemma feature_name_not_1: "i < 3 \<Longrightarrow> feature_names ! i \<noteq> ''1''"
proof -
  assume "i < 3"
  then consider "i = 0" | "i = 1" | "i = 2" by linarith
  then show ?thesis by cases (simp_all add: feature_names_def)
qed

lemma combo_name_inj:
  assumes "set c \<subseteq> {0..<3}" "set c' \<subseteq> {0..<3}" "combo_name c = combo_name c'"
  shows "c = c'"
proof -
  have "map ((!) feature_names) c = map ((!) feature_names) c'"
    using assms feature_name_ok unfolding combo_name_def
    by (intro str_join_inj[where s = "CHR ''*''"]) auto
  then show ?thesis using assms(1,2)
  proof (induction c arbitrary: c')
    case Nil then show ?case by simp
  next
    case (Cons a c)
    then obtain b c2 where "c' = b # c2" by (cases c') auto
    then show ?case using Cons feature_name_inj[of a b] by auto
  qed
qed

lemma combo_name_not_1:
  assumes "set c \<subseteq> {0..<3}" shows "combo_name c \<noteq> ''1''"
proof
  assume e: "combo_name c = ''1''"
  have "map ((!) feature_names) c = [''1'']"
    using assms feature_name_ok e unfolding combo_name_def
    by (intro str_join_inj[where s = "CHR ''*''"]) auto
  then obtain i where "c = [i]" "feature_names ! i = ''1''" by (cases c) auto
  then show False using assms feature_name_not_1[of i] by auto
qed

lemma term_value_loop:
  "set c \<subseteq> {0..<length row} \<Longrightarrow>
   for_loop c (\<lambda>val idx. do { x \<leftarrow> py_get row idx; Some (val * x) }) v = Some (v * combo_value row c)"
  by (induction c arbitrary: v) (simp_all add: combo_value_def py_get_def mult.assoc)

lemma term_value_Some: "set c \<subseteq> {0..<length row} \<Longrightarrow> term_value row c = Some (combo_value row c)"
  unfolding term_value_def by (simp add: term_value_loop)

lemma term_column_Some:
  "\<forall>row \<in> set X. length row = k \<Longrightarrow> set c \<subseteq> {0..<k} \<Longrightarrow>
   term_column X c = Some (map (\<lambda>row. combo_value row c) X)"
  unfolding term_column_def by (intro map_opt_Some) (simp add: term_value_Some)

lemma term_name_Some: "set c \<subseteq> {0..<3} \<Longrightarrow> term_name c = Some (combo_name c)"
proof -
  assume c: "set c \<subseteq> {0..<3}"
  have "map_opt (py_get feature_names) c = Some (map ((!) feature_names) c)"
    using c by (intro map_opt_Some) (auto simp: py_get_def feature_names_def)
  then show ?thesis by (simp add: term_name_def combo_name_def)
qed

lemma np_term_column_loop:
  "\<forall>row \<in> set X. length row = k \<Longrightarrow> set c \<subseteq> {0..<k} \<Longrightarrow>
   for_loop c (\<lambda>term idx. do { col \<leftarrow> np_column X idx; Some (map2 (*) term col) })
     (map f X) = Some (map (\<lambda>row. f row * combo_value row c) X)"
proof (induction c arbitrary: f)
  case Nil
  then show ?case by (simp add: combo_value_def)
next
  case (Cons idx c)
  have col: "np_column X idx = Some (map (\<lambda>row. row ! idx) X)"
    unfolding np_column_def using Cons.prems by (intro map_opt_Some) (auto simp: py_get_def)
  have m: "map2 (*) (map f X) (map (\<lambda>row. row ! idx) X) = map (\<lambda>row. f row * row ! idx) X"
    by (induction X) auto
  have "for_loop c (\<lambda>term idx. do { col \<leftarrow> np_column X idx; Some (map2 (*) term col) })
     (map (\<lambda>row. f row * row ! idx) X) = Some (map (\<lambda>row. (f row * row ! idx) * combo_value row c) X)"
    using Cons.prems by (intro Cons.IH) auto
  then show ?case using col m by (simp add: combo_value_def mult.assoc)
qed

lemma np_term_column_Some:
  assumes "\<forall>row \<in> set X. length row = k" "set c \<subseteq> {0..<k}"
  shows "np_term_column X c = Some (map (\<lambda>row. combo_value row c) X)"
proof -
  have r: "replicate (length X) (1::real) = map (\<lambda>row. 1) X" by (induction X) auto
  show ?thesis unfolding np_term_column_def r using np_term_column_loop[OF assms, of "\<lambda>row. 1"] by simp
qed

lemma poly_combos_range: "c \<in> set (poly_combos k degree) \<Longrightarrow> set c \<subseteq> {0..<k}"
  unfolding poly_combos_def using cwr_elem[of c "[0..<k]"] by auto

lemma transpose_rows:
  fixes X :: "real list list"
  shows "map (\<lambda>i. map (\<lambda>t. t ! i) (replicate (length X) 1 # map (\<lambda>c. map (\<lambda>row. combo_value row c) X) cs))
          [0..<length X] = map (\<lambda>row. 1 # map (combo_value row) cs) X"
  by (rule nth_equalityI) simp_all

lemma column_opt:
  assumes "\<forall>t \<in> set terms. length t = n" "i < n"
  shows "map_opt (\<lambda>j. do { t \<leftarrow> py_get terms j; py_get t i }) [0..<length terms] = Some (map (\<lambda>t. t ! i) terms)"
proof -
  have "map_opt (\<lambda>j. do { t \<leftarrow> py_get terms j; py_get t i }) [0..<length terms]
        = Some (map (\<lambda>j. terms ! j ! i) [0..<length terms])"
    using assms by (intro map_opt_Some) (simp add: py_get_def)
  moreover have "map (\<lambda>j. terms ! j ! i) [0..<length terms] = map (\<lambda>t. t ! i) terms"
    by (rule nth_equalityI) simp_all
  ultimately show ?thesis by simp
qed

lemma transpose_opt:
  assumes "\<forall>t \<in> set terms. length t = n"
  shows "map_opt (\<lambda>i. map_opt (\<lambda>j. do { t \<leftarrow> py_get terms j; py_get t i }) [0..<length terms]) [0..<n]
         = Some (map (\<lambda>i. map (\<lambda>t. t ! i) terms) [0..<n])"
  using column_opt[OF assms] by (intro map_opt_Some) simp

lemma build_simple_Some:
  assumes "X \<noteq> []" "\<forall>row \<in> set X. length row = k" "k \<le> 3"
  shows "build_polynomial_features_simple X degree =
         Some (map (design_row k degree) X, ''1'' # map combo_name (poly_combos k degree))"
proof -
  let ?cs = "poly_combos k degree"
  let ?g = "\<lambda>c. (map (\<lambda>row. combo_value row c) X, combo_name c)"
  have k: "(if X \<noteq> [] then length (hd X) else 0) = k" using assms by simp
  have built: "map_opt (build_term X) ?cs = Some (map ?g ?cs)"
  proof (intro map_opt_Some ballI)
    fix c assume "c \<in> set ?cs"
    then have c: "set c \<subseteq> {0..<k}" by (rule poly_combos_range)
    then have "set c \<subseteq> {0..<3}" using assms(3) by auto
    then show "build_term X c = Some (?g c)"
      using term_column_Some[OF assms(2) c] by (simp add: build_term_def term_name_Some)
  qed
  let ?terms = "replicate (length X) (1::real) # map (\<lambda>c. map (\<lambda>row. combo_value row c) X) ?cs"
  have "\<forall>t \<in> set ?terms. length t = length X" by auto
  then have "map_opt (\<lambda>i. map_opt (\<lambda>j. do { t \<leftarrow> py_get ?terms j; py_get t i }) [0..<length ?terms]) [0..<length X]
     = Some (map (\<lambda>i. map (\<lambda>t. t ! i) ?terms) [0..<length X])"
    by (rule transpose_opt)
  also have "map (\<lambda>i. map (\<lambda>t. t ! i) ?terms) [0..<length X] = map (design_row k degree) X"
    unfolding design_row_def by (rule transpose_rows)
  finally have tr: "map_opt (\<lambda>i. map_opt (\<lambda>j. do { t \<leftarrow> py_get ?terms j; py_get t i }) [0..<length ?terms]) [0..<length X]
     = Some (map (design_row k degree) X)" .
  then show ?thesis
    unfolding build_polynomial_features_simple_def Let_def k
    using built tr by (simp add: comp_def)
qed

lemma build_numpy_Some:
  assumes "X \<noteq> []" "\<forall>row \<in> set X. length row = k" "k \<le> 3"
  shows "build_polynomial_features X degree =
         Some (map (design_row k degree) X, ''1'' # map combo_name (poly_combos k degree))"
proof -
  let ?cs = "poly_combos k degree"
  let ?g = "\<lambda>c. (map (\<lambda>row. combo_value row c) X, combo_name c)"
  have k: "np_shape1 X = Some k" using assms by (simp add: np_shape1_def)
  have built: "map_opt (np_build_term X) ?cs = Some (map ?g ?cs)"
  proof (intro map_opt_Some ballI)
    fix c assume "c \<in> set ?cs"
    then have c: "set c \<subseteq> {0..<k}" by (rule poly_combos_range)
    then have "set c \<subseteq> {0..<3}" using assms(3) by auto
    then show "np_build_term X c = Some (?g c)"
      using np_term_column_Some[OF assms(2) c] by (simp add: np_build_term_def term_name_Some)
  qed
  show ?thesis
    unfolding build_polynomial_features_def Let_def
    using built k transpose_rows[of X ?cs] by (simp add: comp_def design_row_def)
qed

lemma sorted_wrt_irrefl_distinct:
  assumes "sorted_wrt R xs" "\<And>x. \<not> R x x"
  shows "distinct xs"
  using assms by (induction xs) auto

lemma poly_terms_distinct_names:
  assumes "k \<le> 3" "0 \<le> degree"
  shows "distinct (''1'' # map combo_name (poly_combos k degree))"
proof -
  obtain n where n: "degree = int n" using assms(2) by (metis nat_0_le)
  have "sorted_wrt term_before (poly_combos k degree)"
    using poly_combos_sorted_nat[of k n] n by simp
  then have d: "distinct (poly_combos k degree)"
    by (rule sorted_wrt_irrefl_distinct) (simp add: term_before_def)
  have r: "\<forall>c \<in> set (poly_combos k degree). set c \<subseteq> {0..<3}"
    using poly_combos_range[of _ k degree] assms(1) by fastforce
  have "inj_on combo_name (set (poly_combos k degree))"
    using r combo_name_inj by (intro inj_onI) blast
  then have "distinct (map combo_name (poly_combos k degree))"
    using d by (simp add: distinct_map)
  moreover have "''1'' \<notin> set (map combo_name (poly_combos k degree))"
    using r combo_name_not_1 by force
  ultimately show ?thesis by simp
qed

text \<open>
  Claim C1. For \<open>k\<close> input features and maximum degree \<open>d\<close> the loops enumerate, after the
  constant term, exactly the non-decreasing index tuples of length 1 to \<open>d\<close> over the \<open>k\<close>
  features: \<open>C(k + d, d)\<close> terms with the constant, lower degree first and lexicographic in
  the feature indices within a degree (so the degree-1 terms come in declaration order), without
  duplicates. On a dataset of \<open>k \<le> 3\<close> equally long rows (the scripts name three features) both
  flat variants return the same design matrix and the same distinct term names, \<open>C(k + d, d)\<close>
  of them, \<open>'1'\<close> first.
\<close>

theorem build_polynomial_features_canonical_terms:
  assumes "0 \<le> degree"
  shows "Suc (length (poly_combos k degree)) = (k + nat degree) choose nat degree
       \<and> sorted_wrt term_before ([] # poly_combos k degree)
       \<and> set ([] # poly_combos k degree) = {c. sorted c \<and> set c \<subseteq> {0..<k} \<and> int (length c) \<le> degree}
       \<and> (X \<noteq> [] \<and> (\<forall>row \<in> set X. length row = k) \<and> k \<le> 3 \<longrightarrow>
           (\<exists>X_poly term_names.
              build_polynomial_features_simple X degree = Some (X_poly, term_names)
            \<and> build_polynomial_features X degree = Some (X_poly, term_names)
            \<and> X_poly = map (design_row k degree) X
            \<and> term_names = ''1'' # map combo_name (poly_combos k degree)
            \<and> length term_names = (k + nat degree) choose nat degree
            \<and> distinct term_names))"
proof -
  obtain n where n: "degree = int n" using assms by (metis nat_0_le)
  have count: "Suc (length (poly_combos k degree)) = (k + nat degree) choose nat degree"
    using length_poly_combos_nat[of k n] n by simp
  have ord: "sorted_wrt term_before ([] # poly_combos k degree)"
    using poly_combos_sorted_nat[of k n] n by simp
  have all: "set ([] # poly_combos k degree) = {c. sorted c \<and> set c \<subseteq> {0..<k} \<and> int (length c) \<le> degree}"
  proof -
    have "insert [] {c. sorted c \<and> set c \<subseteq> {0..<k} \<and> 1 \<le> length c \<and> length c \<le> n}
          = {c::nat list. sorted c \<and> set c \<subseteq> {0..<k} \<and> length c \<le> n}"
    proof (rule set_eqI)
      fix c :: "nat list"
      show "c \<in> insert [] {c. sorted c \<and> set c \<subseteq> {0..<k} \<and> 1 \<le> length c \<and> length c \<le> n}
            \<longleftrightarrow> c \<in> {c. sorted c \<and> set c \<subseteq> {0..<k} \<and> length c \<le> n}"
        by (cases c) simp_all
    qed
    then show ?thesis using poly_combos_set_nat[of k n] n by simp
  qed
  have fn: "\<exists>X_poly term_names.
              build_polynomial_features_simple X degree = Some (X_poly, term_names)
            \<and> build_polynomial_features X degree = Some (X_poly, term_names)
            \<and> X_poly = map (design_row k degree) X
            \<and> term_names = ''1'' # map combo_name (poly_combos k degree)
            \<and> length term_names = (k + nat degree) choose nat degree
            \<and> distinct term_names"
    if h: "X \<noteq> [] \<and> (\<forall>row \<in> set X. length row = k) \<and> k \<le> 3"
  proof (intro exI conjI)
    show "build_polynomial_features_simple X degree =
          Some (map (design_row k degree) X, ''1'' # map combo_name (poly_combos k degree))"
      using h by (intro build_simple_Some) simp_all
    show "build_polynomial_features X degree =
          Some (map (design_row k degree) X, ''1'' # map combo_name (poly_combos k degree))"
      using h by (intro build_numpy_Some) simp_all
    show "length (''1'' # map combo_name (poly_combos k degree)) = (k + nat degree) choose nat degree"
      using count by simp
    show "distinct (''1'' # map combo_name (poly_combos k degree))"
      using h assms by (intro poly_terms_distinct_names) simp_all
  qed (rule refl)+
  from fn have fn': "X \<noteq> [] \<and> (\<forall>row \<in> set X. length row = k) \<and> k \<le> 3 \<longrightarrow>
           (\<exists>X_poly term_names.
              build_polynomial_features_simple X degree = Some (X_poly, term_names)
            \<and> build_polynomial_features X degree = Some (X_poly, term_names)
            \<and> X_poly = map (design_row k degree) X
            \<and> term_names = ''1'' # map combo_name (poly_combos k degree)
            \<and> length term_names = (k + nat degree) choose nat degree
            \<and> distinct term_names)" by (rule impI)
  show ?thesis by (intro conjI count ord all fn')
qed

theorem build_polynomial_features_canonical_terms_witness:
  "(0::int) \<le> 2 \<and> [[1, 2, 3], [4, 5, 6]] \<noteq> ([] :: real list list)
   \<and> map length [[1, 2, 3], [4, 5, 6 :: real]] = [3, 3] \<and> (3::nat) \<le> 3
   \<and> (\<exists>X_poly term_names.
        build_polynomial_features_simple [[1, 2, 3], [4, 5, 6]] 2 = Some (X_poly, term_names)
      \<and> build_polynomial_features [[1, 2, 3], [4, 5, 6]] 2 = Some (X_poly, term_names)
      \<and> length term_names = 10 \<and> distinct term_names)"
proof -
  have c: "(3 + nat 2) choose nat 2 = (10::nat)" by (simp add: numeral_eq_Suc)
  show ?thesis
    using build_polynomial_features_canonical_terms[of 2 3 "[[1, 2, 3], [4, 5, 6]]"] c by simp
qed

section \<open>Facts about the flat code emitter\<close>

text \<open>
  Claim C10. When every fitted coefficient has magnitude below \<open>1e-10\<close>, the loop of the flat
  emitter keeps no term, and the generated source is the header, the line \<open>return ;\<close> (a return
  statement with an empty expression), the closing brace and the footer: the emitter is a total
  function, so it produces this output for every input.
\<close>

theorem generate_javascript_all_negligible:
  assumes "\<forall>c \<in> set coeffs. \<bar>c\<bar> < 1 / 10 ^ 10"
  shows "terms_code F coeffs term_names = []
       \<and> generate_javascript F coeffs term_names degree r_squared rms n_samples =
           js_header F degree r_squared rms n_samples
           @ ln ''    return ;'' @ ln ''}''
           @ js_footer F coeffs term_names degree r_squared rms n_samples"
proof -
  have "filter (\<lambda>(coeff, name). \<not> \<bar>coeff\<bar> < 1 / 10 ^ 10) (zip coeffs term_names) = []"
    using assms by (auto simp: filter_empty_conv dest: set_zip_leftD)
  then have t: "terms_code F coeffs term_names = []" by (simp add: terms_code_def)
  show ?thesis unfolding generate_javascript_def t by (simp add: js_return_def)
qed

theorem generate_javascript_all_negligible_witness:
  "terms_code
     \<lparr> fmt_4f = (\<lambda>x. ''0.0000''), fmt_6f = (\<lambda>x. ''0''), fmt_10f = (\<lambda>x. ''0''),
        fmt_g = (\<lambda>x. ''0''), fmt_12g = (\<lambda>x. ''0''), repr_float = (\<lambda>x. ''0''),
        json_dumps = (\<lambda>x. ''{}'') \<rparr>
     [0, 1 / 10 ^ 11, - 1 / 10 ^ 12] [''1'', ''cutAngle'', ''spinY''] = []
   \<and> generate_javascript
     \<lparr> fmt_4f = (\<lambda>x. ''0.0000''), fmt_6f = (\<lambda>x. ''0''), fmt_10f = (\<lambda>x. ''0''),
        fmt_g = (\<lambda>x. ''0''), fmt_12g = (\<lambda>x. ''0''), repr_float = (\<lambda>x. ''0''),
        json_dumps = (\<lambda>x. ''{}'') \<rparr>
     [0, 1 / 10 ^ 11, - 1 / 10 ^ 12] [''1'', ''cutAngle'', ''spinY''] 1 0 0 3 =
       js_header
         \<lparr> fmt_4f = (\<lambda>x. ''0.0000''), fmt_6f = (\<lambda>x. ''0''), fmt_10f = (\<lambda>x. ''0''),
        fmt_g = (\<lambda>x. ''0''), fmt_12g = (\<lambda>x. ''0''), repr_float = (\<lambda>x. ''0''),
        json_dumps = (\<lambda>x. ''{}'') \<rparr> 1 0 0 3
       @ ln ''    return ;'' @ ln ''}''
       @ js_footer
         \<lparr> fmt_4f = (\<lambda>x. ''0.0000''), fmt_6f = (\<lambda>x. ''0''), fmt_10f = (\<lambda>x. ''0''),
        fmt_g = (\<lambda>x. ''0''), fmt_12g = (\<lambda>x. ''0''), repr_float = (\<lambda>x. ''0''),
        json_dumps = (\<lambda>x. ''{}'') \<rparr>
         [0, 1 / 10 ^ 11, - 1 / 10 ^ 12] [''1'', ''cutAngle'', ''spinY''] 1 0 0 3"
  using generate_javascript_all_negligible[of "[0, 1 / 10 ^ 11, - 1 / 10 ^ 12]"
     "\<lparr> fmt_4f = (\<lambda>x. ''0.0000''), fmt_6f = (\<lambda>x. ''0''), fmt_10f = (\<lambda>x. ''0''),
        fmt_g = (\<lambda>x. ''0''), fmt_12g = (\<lambda>x. ''0''), repr_float = (\<lambda>x. ''0''),
        json_dumps = (\<lambda>x. ''{}'') \<rparr>"
     "[''1'', ''cutAngle'', ''spinY'']" 1 0 0 3]
  by simp

section \<open>Facts about R-squared\<close>

lemma r_squared_simple_guarded:
  assumes "y \<noteq> []" "length y_pred = length y"
  shows "r_squared_simple y y_pred =
         Some (let y_mean = sum_list y / real (length y);
                   ss_res = (\<Sum>i\<leftarrow>[0..<length y]. (y ! i - y_pred ! i)\<^sup>2);
                   ss_tot = (\<Sum>i\<leftarrow>[0..<length y]. (y ! i - y_mean)\<^sup>2)
               in if ss_tot > 0 then 1 - ss_res / ss_tot else 0)"
proof -
  let ?m = "sum_list y / real (length y)"
  have m: "py_truediv (sum_list y) (real (length y)) = Some ?m"
    using assms(1) by (simp add: py_truediv_def)
  have r: "map_opt (\<lambda>i. do { a \<leftarrow> py_get y i; p \<leftarrow> py_get y_pred i; Some ((a - p)\<^sup>2) }) [0..<length y]
           = Some (map (\<lambda>i. (y ! i - y_pred ! i)\<^sup>2) [0..<length y])"
    using assms(2) by (intro map_opt_Some) (simp add: py_get_def)
  have t: "map_opt (\<lambda>i. do { a \<leftarrow> py_get y i; Some ((a - ?m)\<^sup>2) }) [0..<length y]
           = Some (map (\<lambda>i. (y ! i - ?m)\<^sup>2) [0..<length y])"
    by (intro map_opt_Some) (simp add: py_get_def)
  show ?thesis
    by (simp add: r_squared_simple_def m r t Let_def) (simp add: py_truediv_def)
qed

lemma r_squared_np_identical_targets: "r_squared_np [1, 1] [1, 1] = Fin 0"
  by (simp add: r_squared_np_def np_sum_sq_dev_def np_mean_def fl_sum_def fl_sub_def fl_of_bounded Let_def)

text \<open>
  Claim C4. The two flat variants guard the quotient with \<open>ss_tot > 0\<close> and return 0 otherwise
  (the two lemmas above). The piecewise variant has no guard: \<open>r2 = 1.0 - ss_res / ss_tot\<close>. On a
  dataset whose targets are all 1 the total sum of squares is 0, and the division by zero gives
  NaN when the fit is exact and minus infinity when a residual is left, not 0.
\<close>

theorem r2_piecewise_identical_targets:
  "r2_piecewise (1, 0, 0, 0) (1, 0, 0, 0, 0)
     [(0, 1, 1, 1), (10, 1, 1, 1), (20, 1, 1, 1), (30, 1, 1, 1),
      (40, 1, 1, 1), (50, 1, 1, 1), (40, 2, 1, 1), (40, 1, 2, 1), (50, 1, 2, 1)] = NaN
   \<and> r2_piecewise (1, 1 / 10 ^ 17, 0, 0) (1, 0, 0, 0, 0)
     [(0, 1, 1, 1), (10, 1, 1, 1), (20, 1, 1, 1), (30, 1, 1, 1),
      (40, 1, 1, 1), (50, 1, 1, 1), (40, 2, 1, 1), (40, 1, 2, 1), (50, 1, 2, 1)] = NInf"
  by (simp add: r2_piecewise_def predict_def CUT_BREAK_DEG_def np_sum_sq_dev_def np_mean_def
        fl_sum_def fl_sub_def fl_of_bounded Let_def)

section \<open>Facts about the power brackets\<close>

lemma EPS_value: "EPS = Fin (4835703278458517 / 2 ^ 82)"
proof -
  have "round_double (1 / 10 ^ 9)
        = fl_of (of_int (round_half_even ((1 / 10 ^ 9) / 2 powi (- 30 - 52))) * 2 powi (- 30 - 52))"
    by (rule round_double_at) (simp_all add: power_int_minus field_simps)
  also have "\<dots> = Fin (4835703278458517 / 2 ^ 82)"
    by (simp add: round_half_even_def power_int_minus fl_of_small Let_def)
  finally show ?thesis by (simp add: EPS_def)
qed










lemma nudge_absorbed: "dbl_add (Fin 100000000) EPS = Fin 100000000"
proof -
  have "round_double (100000000 + 4835703278458517 / 2 ^ 82)
        = fl_of (of_int (round_half_even ((100000000 + 4835703278458517 / 2 ^ 82) / 2 powi (26 - 52)))
                 * 2 powi (26 - 52))"
    by (rule round_double_at) simp_all
  also have "\<dots> = Fin 100000000"
    by (simp add: round_half_even_def power_int_minus fl_of_small Let_def)
  finally show ?thesis by (simp add: EPS_value)
qed

lemma round_double_large:
  "round_double 100000000 = Fin 100000000" "round_double 50000000 = Fin 50000000"
proof -
  show "round_double 100000000 = Fin 100000000"
    by (subst round_double_at[of 26]) (simp_all add: round_half_even_def power_int_minus fl_of_small)
  show "round_double 50000000 = Fin 50000000"
    by (subst round_double_at[of 25]) (simp_all add: round_half_even_def power_int_minus fl_of_small)
qed




text \<open>
  Where the sum is rounded back to the maximum the nudge is lost: with the powers 0 and \<open>1e8\<close>
  the last bracket ends at \<open>1e8\<close> and the maximum lies in no bracket.
\<close>

lemma make_brackets_auto_absorbed_nudge:
  "make_brackets_auto np_linspace [Fin 0, Fin 100000000] 2
     = Some [(Fin 0, Fin 50000000), (Fin 50000000, Fin 100000000)]
   \<and> \<not> in_bracket (Fin 0, Fin 50000000) (Fin 100000000)
   \<and> \<not> in_bracket (Fin 50000000, Fin 100000000) (Fin 100000000)"
  by (simp add: make_brackets_auto_def np_min_def np_max_def np_linspace_def Let_def upt_conv_Cons
        round_double_large round_double_zero nudge_absorbed in_bracket_def py_get_def)

section \<open>Facts about the split search\<close>

lemma py_range_step1: "py_range a b 1 = Some [a..b - 1]"
proof -
  have "map (\<lambda>k. a + int k) [0..<nat (b - a)] = [a..b - 1]"
    by (rule nth_equalityI) (simp_all add: nth_upto)
  then show ?thesis by (simp add: py_range_def)
qed

lemma split_range: "py_range SPLIT_MIN (SPLIT_MAX + 1) SPLIT_STEP = Some [10..60]"
  by (simp add: py_range_step1 SPLIT_MIN_def SPLIT_MAX_def SPLIT_STEP_def)

lemma length_np_select:
  "length ys = length xs \<Longrightarrow> length (np_select (map P xs) ys) = length (filter P xs)"
proof (induction xs arbitrary: ys)
  case Nil
  then show ?case by (simp add: np_select_def)
next
  case (Cons x xs)
  then obtain y ys' where ys: "ys = y # ys'" "length ys' = length xs" by (cases ys) auto
  show ?case using Cons.IH[OF ys(2)] unfolding ys(1) by (simp add: np_select_def)
qed

lemma fit_piecewise_cutangle_None:
  assumes "length y_train = length X_train"
  shows "fit_piecewise_cutangle S X_train y_train s = None \<longleftrightarrow>
         length (filter (\<lambda>row. fst row < real_of_int s) X_train) < MIN_SAMPLES_PER_SIDE
       \<or> length (filter (\<lambda>row. \<not> fst row < real_of_int s) X_train) < MIN_SAMPLES_PER_SIDE"
proof -
  have l: "length (np_select (map (\<lambda>row. fst row < real_of_int s) X_train) y_train)
           = length (filter (\<lambda>row. fst row < real_of_int s) X_train)"
    using assms by (rule length_np_select)
  have r: "length (np_select (map Not (map (\<lambda>row. fst row < real_of_int s) X_train)) y_train)
           = length (filter (\<lambda>row. \<not> fst row < real_of_int s) X_train)"
    using length_np_select[OF assms, of "\<lambda>row. \<not> fst row < real_of_int s"] by (simp add: comp_def)
  show ?thesis unfolding fit_piecewise_cutangle_def Let_def l r by simp
qed

lemma evaluate_split_None:
  "evaluate_split S X_train y_train X_test y_test s = None \<longleftrightarrow>
   fit_piecewise_cutangle S X_train y_train s = None"
  by (auto simp: evaluate_split_def Let_def split: option.splits)

lemma evaluate_split_Some:
  "evaluate_split S X_train y_train X_test y_test s = Some c \<Longrightarrow>
   c_split c = s
   \<and> fit_piecewise_cutangle S X_train y_train s = Some (c_mL c, c_mR c)
   \<and> c_rmse c = rmse S y_test (predict_piecewise_cutangle S X_test s (c_mL c) (c_mR c))"
  by (auto simp: evaluate_split_def Let_def split: option.splits)

lemma fold_keep_best_None:
  "fold (\<lambda>s best. keep_best best (ev s)) xs None = None \<longleftrightarrow> (\<forall>s \<in> set xs. ev s = None)"
proof (induction xs rule: rev_induct)
  case Nil
  show ?case by simp
next
  case (snoc x xs)
  show ?case using snoc.IH
    by (cases "ev x"; cases "fold (\<lambda>s best. keep_best best (ev s)) xs None")
       (auto simp: keep_best_def split: if_splits)
qed

lemma fold_keep_best_Some:
  assumes "fold (\<lambda>s best. keep_best best (ev s)) xs None = Some b"
  shows "\<exists>i<length xs. ev (xs ! i) = Some b
           \<and> (\<forall>j<length xs. \<forall>c. ev (xs ! j) = Some c \<longrightarrow>
                 c_rmse b \<le> c_rmse c \<and> (j < i \<longrightarrow> c_rmse b < c_rmse c))"
  using assms
proof (induction xs arbitrary: b rule: rev_induct)
  case Nil
  then show ?case by simp
next
  case (snoc x xs)
  let ?r = "fold (\<lambda>s best. keep_best best (ev s)) xs None"
  have step: "keep_best ?r (ev x) = Some b" using snoc.prems by simp
  have nth_old: "(xs @ [x]) ! j = xs ! j" if "j < length xs" for j using that by (simp add: nth_append)
  show ?case
  proof (cases "?r")
    case None
    then have all: "\<forall>s \<in> set xs. ev s = None" by (simp add: fold_keep_best_None)
    have evx: "ev x = Some b" using step None by (cases "ev x") (simp_all add: keep_best_def)
    have "\<forall>j<length (xs @ [x]). \<forall>c. ev ((xs @ [x]) ! j) = Some c \<longrightarrow>
             c_rmse b \<le> c_rmse c \<and> (j < length xs \<longrightarrow> c_rmse b < c_rmse c)"
    proof (intro allI impI)
      fix j c assume j: "j < length (xs @ [x])" and c: "ev ((xs @ [x]) ! j) = Some c"
      show "c_rmse b \<le> c_rmse c \<and> (j < length xs \<longrightarrow> c_rmse b < c_rmse c)"
      proof (cases "j < length xs")
        case True
        then have "ev (xs ! j) = None" using all by simp
        then show ?thesis using c nth_old[OF True] by simp
      next
        case False
        then have "j = length xs" using j by simp
        then show ?thesis using c evx by simp
      qed
    qed
    then show ?thesis using evx by (intro exI[of _ "length xs"]) simp
  next
    case (Some b0)
    from snoc.IH[OF Some] obtain i where i: "i < length xs" "ev (xs ! i) = Some b0"
      "\<forall>j<length xs. \<forall>c. ev (xs ! j) = Some c \<longrightarrow> c_rmse b0 \<le> c_rmse c \<and> (j < i \<longrightarrow> c_rmse b0 < c_rmse c)"
      by blast
    show ?thesis
    proof (cases "\<exists>c. ev x = Some c \<and> c_rmse c < c_rmse b0")
      case True
      then obtain c where c: "ev x = Some c" "c_rmse c < c_rmse b0" by blast
      then have bc: "b = c" using step Some by (simp add: keep_best_def)
      have "\<forall>j<length (xs @ [x]). \<forall>d. ev ((xs @ [x]) ! j) = Some d \<longrightarrow>
               c_rmse b \<le> c_rmse d \<and> (j < length xs \<longrightarrow> c_rmse b < c_rmse d)"
      proof (intro allI impI)
        fix j d assume j: "j < length (xs @ [x])" and d: "ev ((xs @ [x]) ! j) = Some d"
        show "c_rmse b \<le> c_rmse d \<and> (j < length xs \<longrightarrow> c_rmse b < c_rmse d)"
        proof (cases "j < length xs")
          case True
          then have "c_rmse b0 \<le> c_rmse d" using i(3) d nth_old[OF True] by simp
          then show ?thesis using c(2) bc by simp
        next
          case False
          then have "j = length xs" using j by simp
          then show ?thesis using d c(1) bc by simp
        qed
      qed
      then show ?thesis using c(1) bc by (intro exI[of _ "length xs"]) simp
    next
      case nobetter: False
      then have bb: "b = b0" using step Some by (cases "ev x") (auto simp: keep_best_def)
      have "\<forall>j<length (xs @ [x]). \<forall>d. ev ((xs @ [x]) ! j) = Some d \<longrightarrow>
               c_rmse b \<le> c_rmse d \<and> (j < i \<longrightarrow> c_rmse b < c_rmse d)"
      proof (intro allI impI)
        fix j d assume j: "j < length (xs @ [x])" and d: "ev ((xs @ [x]) ! j) = Some d"
        show "c_rmse b \<le> c_rmse d \<and> (j < i \<longrightarrow> c_rmse b < c_rmse d)"
        proof (cases "j < length xs")
          case True
          then show ?thesis using i(3) d nth_old[OF True] bb by simp
        next
          case False
          then have jl: "j = length xs" using j by simp
          then have "ev x = Some d" using d by simp
          then have "\<not> c_rmse d < c_rmse b0" using nobetter by blast
          then show ?thesis using jl i(1) bb by simp
        qed
      qed
      moreover have "ev ((xs @ [x]) ! i) = Some b" using i(1,2) bb nth_old by simp
      ultimately show ?thesis using i(1) by (intro exI[of _ i]) simp
    qed
  qed
qed

lemma bracket_result_eq:
  "bracket_result S X_all y_all p_all (bi, b) =
     Some (if bracket_has_split S X_all y_all p_all b
           then (let msk = map (\<lambda>p. in_bracket (Fin (fst b), Fin (snd b)) (Fin p)) p_all;
                     Xb = np_select msk X_all; yb = np_select msk y_all
                 in case train_test_split S Xb yb TEST_SIZE RANDOM_SEED of
                   (X_train, X_test, y_train, y_test) \<Rightarrow>
                     (case search_split S X_train y_train X_test y_test [10..60] of
                        None \<Rightarrow> None
                      | Some best \<Rightarrow>
                          Some \<lparr> r_bi = bi, r_pmin = fst b, r_pmax = snd b, r_split = c_split best,
                                 r_rmse = rmse S y_test (predict_piecewise_cutangle S X_test
                                            (c_split best) (c_mL best) (c_mR best)),
                                 r_mL = c_mL best, r_mR = c_mR best, r_n = length yb \<rparr>))
           else None)"
  by (cases b) (auto simp: bracket_result_def bracket_has_split_def Let_def split_range
        split: prod.splits option.splits)

lemma bracket_result_cases:
  "(\<not> bracket_has_split S X_all y_all p_all b \<and> bracket_result S X_all y_all p_all (bi, b) = Some None)
   \<or> (bracket_has_split S X_all y_all p_all b
       \<and> (\<exists>r. bracket_result S X_all y_all p_all (bi, b) = Some (Some r) \<and> r_bi r = bi
              \<and> r_pmin r = fst b \<and> r_pmax r = snd b))"
  unfolding bracket_result_eq
  by (auto simp: bracket_has_split_def Let_def split: prod.splits option.splits)

lemma collect_results:
  fixes f :: "nat \<times> (real \<times> real) \<Rightarrow> 'r option option"
  assumes "\<And>bi b. (\<not> Q b \<and> f (bi, b) = Some None) \<or> (Q b \<and> (\<exists>r. f (bi, b) = Some (Some r) \<and> key r = bi))"
  shows "\<exists>rs. map_opt f ps = Some rs
            \<and> map key (concat (map (\<lambda>r. case r of None \<Rightarrow> [] | Some x \<Rightarrow> [x]) rs))
                = map fst (filter (\<lambda>p. Q (snd p)) ps)"
proof (induction ps)
  case Nil
  show ?case by simp
next
  case (Cons p ps)
  obtain bi b where p: "p = (bi, b)" by (cases p)
  from Cons.IH obtain rs where rs: "map_opt f ps = Some rs"
    "map key (concat (map (\<lambda>r. case r of None \<Rightarrow> [] | Some x \<Rightarrow> [x]) rs)) = map fst (filter (\<lambda>p. Q (snd p)) ps)"
    by blast
  show ?case using assms[of b bi] rs unfolding p by auto
qed

lemma filter_zip_index:
  "map fst (filter (\<lambda>p. Q (snd p)) (zip [0..<length bs] bs)) = filter (\<lambda>i. Q (bs ! i)) [0..<length bs]"
proof -
  have z: "zip [0..<length bs] bs = map (\<lambda>i. (i, bs ! i)) [0..<length bs]"
    by (rule nth_equalityI) simp_all
  show ?thesis unfolding z by (simp add: filter_map comp_def)
qed

lemma train_brackets_results:
  "\<exists>rs. train_brackets S X_all y_all p_all brackets = Some rs
      \<and> map r_bi rs = filter (\<lambda>bi. bracket_has_split S X_all y_all p_all (brackets ! bi))
                                [0..<length brackets]"
proof -
  have c: "(\<not> bracket_has_split S X_all y_all p_all b \<and> bracket_result S X_all y_all p_all (bi, b) = Some None)
      \<or> (bracket_has_split S X_all y_all p_all b
          \<and> (\<exists>r. bracket_result S X_all y_all p_all (bi, b) = Some (Some r) \<and> r_bi r = bi))" for bi b
    using bracket_result_cases[of S X_all y_all p_all b bi] by blast
  from collect_results[of "bracket_has_split S X_all y_all p_all" "bracket_result S X_all y_all p_all" r_bi
      "zip [0..<length brackets] brackets", OF c]
  obtain rs where rs: "map_opt (bracket_result S X_all y_all p_all) (zip [0..<length brackets] brackets) = Some rs"
    "map r_bi (concat (map (\<lambda>r. case r of None \<Rightarrow> [] | Some x \<Rightarrow> [x]) rs))
     = map fst (filter (\<lambda>p. bracket_has_split S X_all y_all p_all (snd p)) (zip [0..<length brackets] brackets))"
    by blast
  show ?thesis unfolding train_brackets_def using rs by (simp add: filter_zip_index)
qed

lemma search_split_upto_None:
  "search_split S X_train y_train X_test y_test [lo..hi] = None \<longleftrightarrow>
   (\<forall>s \<in> {lo..hi}. evaluate_split S X_train y_train X_test y_test s = None)"
  unfolding search_split_def
  using fold_keep_best_None[of "evaluate_split S X_train y_train X_test y_test" "[lo..hi]"]
  by (simp only: set_upto)

lemma search_split_upto_Some:
  assumes "search_split S X_train y_train X_test y_test [lo..hi] = Some b"
  shows "c_split b \<in> {lo..hi}
       \<and> evaluate_split S X_train y_train X_test y_test (c_split b) = Some b
       \<and> (\<forall>s \<in> {lo..hi}. \<forall>c. evaluate_split S X_train y_train X_test y_test s = Some c \<longrightarrow>
              c_rmse b \<le> c_rmse c \<and> (c_rmse c = c_rmse b \<longrightarrow> c_split b \<le> s))"
proof -
  let ?ev = "evaluate_split S X_train y_train X_test y_test"
  from fold_keep_best_Some[of ?ev "[lo..hi]" b] assms
  obtain i where i: "i < length [lo..hi]" "?ev ([lo..hi] ! i) = Some b"
    "\<forall>j<length [lo..hi]. \<forall>c. ?ev ([lo..hi] ! j) = Some c \<longrightarrow>
        c_rmse b \<le> c_rmse c \<and> (j < i \<longrightarrow> c_rmse b < c_rmse c)"
    unfolding search_split_def by blast
  have nth: "[lo..hi] ! j = lo + int j" if "j < length [lo..hi]" for j
    using that by (simp add: nth_upto)
  have sb: "c_split b = lo + int i" using evaluate_split_Some[OF i(2)] nth[OF i(1)] by simp
  have in_range: "c_split b \<in> {lo..hi}" using sb i(1) by simp
  have best: "c_rmse b \<le> c_rmse c \<and> (c_rmse c = c_rmse b \<longrightarrow> c_split b \<le> s)"
    if s: "s \<in> {lo..hi}" and c: "?ev s = Some c" for s c
  proof -
    define j where "j = nat (s - lo)"
    have j: "j < length [lo..hi]" "s = lo + int j" using s by (simp_all add: j_def)
    have "?ev ([lo..hi] ! j) = Some c" using c nth[OF j(1)] j(2) by simp
    then have "c_rmse b \<le> c_rmse c \<and> (j < i \<longrightarrow> c_rmse b < c_rmse c)" using i(3) j(1) by blast
    then show ?thesis using sb j(2) by auto
  qed
  show ?thesis using in_range i(2) nth[OF i(1)] sb best by simp
qed

lemma np_select_zip:
  "length ys = length xs \<Longrightarrow>
   np_select (map P xs) xs = map fst (filter (\<lambda>(x, y). P x) (zip xs ys))
   \<and> np_select (map P xs) ys = map snd (filter (\<lambda>(x, y). P x) (zip xs ys))"
proof (induction xs arbitrary: ys)
  case Nil
  then show ?case by (simp add: np_select_def)
next
  case (Cons x xs)
  then obtain y ys' where ys: "ys = y # ys'" "length ys' = length xs" by (cases ys) auto
  show ?case using Cons.IH[OF ys(2)] unfolding ys(1) by (simp add: np_select_def)
qed

lemma fit_piecewise_cutangle_eq:
  assumes "length y_train = length X_train"
  shows "fit_piecewise_cutangle S X_train y_train s =
         (if split_valid X_train y_train s
          then Some (left_model S X_train y_train s, right_model S X_train y_train s) else None)"
proof -
  let ?P = "\<lambda>row :: real \<times> real. fst row < real_of_int s"
  note l = np_select_zip[OF assms, of ?P]
  have r: "np_select (map Not (map ?P X_train)) X_train = map fst (from_split X_train y_train s)"
    "np_select (map Not (map ?P X_train)) y_train = map snd (from_split X_train y_train s)"
    using np_select_zip[OF assms, of "\<lambda>row. \<not> ?P row"] by (simp_all add: comp_def from_split_def)
  show ?thesis
    unfolding fit_piecewise_cutangle_def Let_def r
    using l by (auto simp: split_valid_def below_split_def left_model_def right_model_def
                   POLY_DEGREE_def RIDGE_ALPHA_def not_less)
qed

lemma evaluate_split_eq:
  assumes "length y_train = length X_train"
  shows "evaluate_split S X_train y_train X_test y_test s =
         (if split_valid X_train y_train s
          then Some \<lparr> c_split = s, c_rmse = held_out_rmse S X_train y_train X_test y_test s,
                      c_mL = left_model S X_train y_train s, c_mR = right_model S X_train y_train s \<rparr>
          else None)"
  unfolding evaluate_split_def fit_piecewise_cutangle_eq[OF assms]
  by (simp add: held_out_rmse_def rmse_def)

lemma np_select_filter: "np_select (map P ps) xs = map fst (filter (\<lambda>(x, p). P p) (zip xs ps))"
proof -
  have "filter snd (zip xs (map P ps)) = map (\<lambda>(x, p). (x, P p)) (filter (\<lambda>(x, p). P p) (zip xs ps))"
  proof (induction xs arbitrary: ps)
    case Nil
    show ?case by simp
  next
    case (Cons x xs)
    show ?case using Cons.IH by (cases ps) auto
  qed
  then show ?thesis by (simp add: np_select_def comp_def case_prod_unfold)
qed

lemma bracket_result_entry:
  "bracket_result S X_all y_all p_all (bi, b) = Some (bracket_entry S X_all y_all p_all bi b)"
proof -
  have e: "rmse S y_test (predict_piecewise_cutangle S X_test (c_split best) (c_mL best) (c_mR best))
           = c_rmse best"
    if "search_split S X_train y_train X_test y_test [10..60] = Some best"
    for X_train y_train X_test y_test best
    using search_split_upto_Some[OF that] evaluate_split_Some by metis
  show ?thesis
    by (cases b)
       (auto simp: bracket_result_def bracket_entry_def Let_def split_range np_select_filter e
          MIN_SAMPLES_PER_BRACKET_def TEST_SIZE_def RANDOM_SEED_def
          split: prod.splits option.splits)
qed

lemma train_brackets_entries:
  "train_brackets S X_all y_all p_all brackets =
     Some (List.map_filter (\<lambda>(bi, b). bracket_entry S X_all y_all p_all bi b)
             (zip [0..<length brackets] brackets))"
proof -
  have m: "map_opt (bracket_result S X_all y_all p_all) ps
           = Some (map (\<lambda>(bi, b). bracket_entry S X_all y_all p_all bi b) ps)" for ps
    by (intro map_opt_Some) (auto simp: bracket_result_entry)
  have c: "concat (map (\<lambda>r. case r of None \<Rightarrow> [] | Some x \<Rightarrow> [x]) (map f ps)) = List.map_filter f ps"
    for f :: "nat \<times> real \<times> real \<Rightarrow> 'm result option" and ps
    by (induction ps) (auto simp: List.map_filter_simps split: option.splits)
  show ?thesis unfolding train_brackets_def m using c by simp
qed

lemma predict_piecewise_rowwise:
  assumes "\<And>m X. predict_model S m X = map (f m) X"
  shows "predict_piecewise_cutangle S X s mL mR
         = map (\<lambda>row. if fst row < real_of_int s then f mL row else f mR row) X"
proof -
  let ?P = "\<lambda>row :: real \<times> real. fst row < real_of_int s"
  have sel: "np_select (map Q X) X = filter Q X" for Q :: "real \<times> real \<Rightarrow> bool"
    by (induction X) (simp_all add: np_select_def)
  have l: "(if (\<exists>b \<in> set (map ?P X). b) then predict_model S mL (np_select (map ?P X) X) else [])
           = map (f mL) (filter ?P X)"
    by (auto simp: assms sel filter_empty_conv)
  have r: "(if (\<exists>b \<in> set (map ?P X). \<not> b) then predict_model S mR (np_select (map Not (map ?P X)) X) else [])
           = map (f mR) (filter (\<lambda>row. \<not> ?P row) X)"
    using sel[of "\<lambda>row. \<not> ?P row"] by (auto simp: assms comp_def filter_empty_conv)
  have sc: "np_scatter (map ?P X) (map g (filter ?P X)) (map h (filter (\<lambda>row. \<not> ?P row) X))
            = map (\<lambda>row. if ?P row then g row else h row) X" for g h :: "real \<times> real \<Rightarrow> real"
    by (induction X) simp_all
  show ?thesis unfolding predict_piecewise_cutangle_def Let_def l r by (rule sc)
qed

text \<open>
  Claim C6. The candidate thresholds are the integers 10 to 60, every one of them. A candidate
  is rejected exactly when fewer than \<open>MIN_SAMPLES_PER_SIDE\<close> training samples lie strictly below
  it or fewer lie at or above it; a candidate that is not rejected is scored with its held-out
  RMSE: the two sides are fitted separately and the square root of the mean squared error of
  their predictions on the held-out samples is taken (each held-out sample is predicted by the
  model of its side, when the model predicts row by row). The search returns nothing exactly
  when every candidate is rejected; otherwise it returns a valid candidate of the range with
  its score and models, whose held-out RMSE is at most that of every other valid candidate and
  whose threshold is the lowest among those of equal RMSE. The entries of \<open>results\<close> are, in
  order, those of the brackets with enough samples for which the search returns a candidate,
  each with the threshold, score and models of that candidate. (Finite scores: the RMSE is a
  real number.)
\<close>

theorem split_search_keeps_first_lowest_rmse:
  assumes "length y_train = length X_train"
  shows "py_range SPLIT_MIN (SPLIT_MAX + 1) SPLIT_STEP = Some [10..60]
     \<and> (\<forall>s. evaluate_split S X_train y_train X_test y_test s =
              (if split_valid X_train y_train s
               then Some \<lparr> c_split = s, c_rmse = held_out_rmse S X_train y_train X_test y_test s,
                           c_mL = left_model S X_train y_train s,
                           c_mR = right_model S X_train y_train s \<rparr>
               else None))
     \<and> (search_split S X_train y_train X_test y_test [10..60] = None \<longleftrightarrow>
          (\<forall>s \<in> {10..60}. \<not> split_valid X_train y_train s))
     \<and> (\<forall>b. search_split S X_train y_train X_test y_test [10..60] = Some b \<longrightarrow>
            c_split b \<in> {10..60} \<and> split_valid X_train y_train (c_split b)
          \<and> c_rmse b = held_out_rmse S X_train y_train X_test y_test (c_split b)
          \<and> c_mL b = left_model S X_train y_train (c_split b)
          \<and> c_mR b = right_model S X_train y_train (c_split b)
          \<and> (\<forall>s \<in> {10..60}. split_valid X_train y_train s \<longrightarrow>
                 held_out_rmse S X_train y_train X_test y_test (c_split b)
                   \<le> held_out_rmse S X_train y_train X_test y_test s
               \<and> (held_out_rmse S X_train y_train X_test y_test s
                    = held_out_rmse S X_train y_train X_test y_test (c_split b) \<longrightarrow> c_split b \<le> s)))
     \<and> ((\<forall>m X. predict_model S m X = map (f m) X) \<longrightarrow>
          (\<forall>X s mL mR. predict_piecewise_cutangle S X s mL mR
                         = map (\<lambda>row. if fst row < real_of_int s then f mL row else f mR row) X))
     \<and> train_brackets S X_all y_all p_all brackets =
          Some (List.map_filter (\<lambda>(bi, b). bracket_entry S X_all y_all p_all bi b)
                  (zip [0..<length brackets] brackets))
     \<and> (\<exists>rs. train_brackets S X_all y_all p_all brackets = Some rs
          \<and> map r_bi rs = filter (\<lambda>bi. bracket_has_split S X_all y_all p_all (brackets ! bi))
                                    [0..<length brackets])"
proof -
  let ?ev = "evaluate_split S X_train y_train X_test y_test"
  let ?h = "held_out_rmse S X_train y_train X_test y_test"
  note ev = evaluate_split_eq[OF assms, of S X_test y_test]
  have none: "search_split S X_train y_train X_test y_test [10..60] = None \<longleftrightarrow>
          (\<forall>s \<in> {10..60}. \<not> split_valid X_train y_train s)"
    unfolding search_split_upto_None by (simp add: ev)
  have some: "c_split b \<in> {10..60} \<and> split_valid X_train y_train (c_split b)
          \<and> c_rmse b = ?h (c_split b)
          \<and> c_mL b = left_model S X_train y_train (c_split b)
          \<and> c_mR b = right_model S X_train y_train (c_split b)
          \<and> (\<forall>s \<in> {10..60}. split_valid X_train y_train s \<longrightarrow>
                 ?h (c_split b) \<le> ?h s \<and> (?h s = ?h (c_split b) \<longrightarrow> c_split b \<le> s))"
    if b: "search_split S X_train y_train X_test y_test [10..60] = Some b" for b
  proof -
    note u = search_split_upto_Some[OF b]
    have e: "?ev (c_split b) = Some b" using u by blast
    then have v: "split_valid X_train y_train (c_split b)" unfolding ev by (simp split: if_splits)
    have f: "c_rmse b = ?h (c_split b)" "c_mL b = left_model S X_train y_train (c_split b)"
      "c_mR b = right_model S X_train y_train (c_split b)"
    proof -
      from e v have "b = \<lparr> c_split = c_split b, c_rmse = ?h (c_split b),
                            c_mL = left_model S X_train y_train (c_split b),
                            c_mR = right_model S X_train y_train (c_split b) \<rparr>"
        unfolding ev by simp
      then have "c_rmse b = c_rmse \<lparr> c_split = c_split b, c_rmse = ?h (c_split b),
                            c_mL = left_model S X_train y_train (c_split b),
                            c_mR = right_model S X_train y_train (c_split b) \<rparr>"
        "c_mL b = c_mL \<lparr> c_split = c_split b, c_rmse = ?h (c_split b),
                            c_mL = left_model S X_train y_train (c_split b),
                            c_mR = right_model S X_train y_train (c_split b) \<rparr>"
        "c_mR b = c_mR \<lparr> c_split = c_split b, c_rmse = ?h (c_split b),
                            c_mL = left_model S X_train y_train (c_split b),
                            c_mR = right_model S X_train y_train (c_split b) \<rparr>"
        by simp_all
      then show "c_rmse b = ?h (c_split b)" "c_mL b = left_model S X_train y_train (c_split b)"
        "c_mR b = right_model S X_train y_train (c_split b)" by simp_all
    qed
    have best: "?h (c_split b) \<le> ?h s \<and> (?h s = ?h (c_split b) \<longrightarrow> c_split b \<le> s)"
      if s: "s \<in> {10..60}" and vs: "split_valid X_train y_train s" for s
    proof -
      have "?ev s = Some \<lparr> c_split = s, c_rmse = ?h s, c_mL = left_model S X_train y_train s,
                           c_mR = right_model S X_train y_train s \<rparr>"
        using vs by (simp add: ev)
      with u s have "c_rmse b \<le> ?h s \<and> (?h s = c_rmse b \<longrightarrow> c_split b \<le> s)"
        by (metis candidate.select_convs(2))
      then show ?thesis using f(1) by simp
    qed
    show ?thesis using u v f best by blast
  qed
  show ?thesis
    using split_range ev none some predict_piecewise_rowwise[of S f] train_brackets_entries
      train_brackets_results[of S X_all y_all p_all brackets]
    by (intro conjI allI impI) blast+
qed

theorem split_search_keeps_first_lowest_rmse_witness:
  "length [1, 1, 1, 1, 1, 3, 3, 3, 3, 3 :: real]
     = length [(5, 1), (5, 1), (5, 1), (5, 1), (5, 1), (70, 1), (70, 1), (70, 1), (70, 1), (70 :: real, 1 :: real)]
   \<and> (\<exists>b. search_split
        \<lparr> fit_poly_ridge = (\<lambda>d a X y. sum_list y / real (length y)),
          predict_model = (\<lambda>m X. map (\<lambda>row. m) X),
          mean_squared_error = (\<lambda>t p. sum_list (map (\<lambda>(a, b). (a - b)\<^sup>2) (zip t p)) / real (length t)),
          train_test_split = (\<lambda>X y t r. (X, X, y, y)) \<rparr>
        [(5, 1), (5, 1), (5, 1), (5, 1), (5, 1), (70, 1), (70, 1), (70, 1), (70, 1), (70, 1)]
        [1, 1, 1, 1, 1, 3, 3, 3, 3, 3] [(5, 1), (70, 1)] [1, 5] [10..60] = Some b
      \<and> c_split b = 10 \<and> c_rmse b = sqrt 2 \<and> c_mL b = 1 \<and> c_mR b = 3)"
proof -
  let ?S = "\<lparr> fit_poly_ridge = (\<lambda>d a X y. sum_list y / real (length y)),
          predict_model = (\<lambda>m X. map (\<lambda>row. m) X),
          mean_squared_error = (\<lambda>t p. sum_list (map (\<lambda>(a, b). (a - b)\<^sup>2) (zip t p)) / real (length t)),
          train_test_split = (\<lambda>X y t r. (X, X, y, y)) \<rparr>
          :: real sklearn"
  let ?X = "[(5, 1), (5, 1), (5, 1), (5, 1), (5, 1), (70, 1), (70, 1), (70, 1), (70, 1), (70 :: real, 1 :: real)]"
  let ?y = "[1, 1, 1, 1, 1, 3, 3, 3, 3, 3 :: real]"
  let ?Xt = "[(5 :: real, 1 :: real), (70, 1)]"
  let ?yt = "[1, 5 :: real]"
  have h: "length ?y = length ?X" by simp
  note t = split_search_keeps_first_lowest_rmse[OF h, of ?S ?Xt ?yt "\<lambda>m row. m" "[]" "[]" "[]" "[]"]
  have side: "below_split ?X ?y s = [((5, 1), 1), ((5, 1), 1), ((5, 1), 1), ((5, 1), 1), ((5, 1), 1)]"
    "from_split ?X ?y s = [((70, 1), 3), ((70, 1), 3), ((70, 1), 3), ((70, 1), 3), ((70, 1), 3)]"
    if "s \<in> {10..60}" for s
    using that by (simp_all add: below_split_def from_split_def)
  have valid: "split_valid ?X ?y s" if "s \<in> {10..60}" for s
    using side[OF that] by (simp add: split_valid_def MIN_SAMPLES_PER_SIDE_def)
  have models: "left_model ?S ?X ?y s = 1" "right_model ?S ?X ?y s = 3" if "s \<in> {10..60}" for s
    using side[OF that] by (simp_all add: left_model_def right_model_def)
  have pred: "predict_piecewise_cutangle ?S ?Xt s 1 3 = [1, 3]" if "s \<in> {10..60}" for s
  proof -
    from t have "predict_piecewise_cutangle ?S ?Xt s 1 3
                 = map (\<lambda>row. if fst row < real_of_int s then 1 else 3) ?Xt" by simp
    then show ?thesis using that by simp
  qed
  have score: "held_out_rmse ?S ?X ?y ?Xt ?yt s = sqrt 2" if "s \<in> {10..60}" for s
    using models[OF that] pred[OF that] by (simp add: held_out_rmse_def)
  have m: "(10::int) \<in> {10..60}" by simp
  from t have none: "search_split ?S ?X ?y ?Xt ?yt [10..60] = None \<longleftrightarrow>
          (\<forall>s \<in> {10..60}. \<not> split_valid ?X ?y s)" by blast
  have "search_split ?S ?X ?y ?Xt ?yt [10..60] \<noteq> None"
  proof
    assume "search_split ?S ?X ?y ?Xt ?yt [10..60] = None"
    then have "\<forall>s \<in> {10..60}. \<not> split_valid ?X ?y s" by (simp only: none)
    then have "\<not> split_valid ?X ?y 10" using m by (rule bspec)
    then show False using valid[OF m] by simp
  qed
  then obtain b where b: "search_split ?S ?X ?y ?Xt ?yt [10..60] = Some b" by blast
  from t b have p: "c_split b \<in> {10..60}"
    "c_rmse b = held_out_rmse ?S ?X ?y ?Xt ?yt (c_split b)"
    "c_mL b = left_model ?S ?X ?y (c_split b)" "c_mR b = right_model ?S ?X ?y (c_split b)"
    "\<forall>s \<in> {10..60}. split_valid ?X ?y s \<longrightarrow>
         held_out_rmse ?S ?X ?y ?Xt ?yt (c_split b) \<le> held_out_rmse ?S ?X ?y ?Xt ?yt s
       \<and> (held_out_rmse ?S ?X ?y ?Xt ?yt s = held_out_rmse ?S ?X ?y ?Xt ?yt (c_split b) \<longrightarrow> c_split b \<le> s)"
    by blast+
  have "held_out_rmse ?S ?X ?y ?Xt ?yt 10 = held_out_rmse ?S ?X ?y ?Xt ?yt (c_split b) \<longrightarrow> c_split b \<le> 10"
    using p(5) m valid[OF m] by blast
  then have "c_split b \<le> 10" using score[OF m] score[OF p(1)] by simp
  then have s10: "c_split b = 10" using p(1) by simp
  show ?thesis using h b s10 p(2,3,4) score[OF m] models[OF m] by simp
qed

section \<open>Facts about the dataset loader\<close>

lemma py_float_cases:
  "(float_accepts parse v \<and> \<not> too_large v \<and> py_float parse v = Inr (float_value parse v))
   \<or> (too_large v \<and> \<not> float_accepts parse v \<and> py_float parse v = Inl OverflowError)
   \<or> (\<not> float_accepts parse v \<and> \<not> too_large v
       \<and> (py_float parse v = Inl TypeError \<or> py_float parse v = Inl ValueError))"
  by (cases v) (auto simp: py_float_def too_large_def split: option.splits)

lemma convert_row_cases:
  assumes "r ''cutAngle'' \<noteq> None" "r ''power'' \<noteq> None" "r ''angleError'' \<noteq> None"
  shows "(row_accepted parse r \<and> \<not> row_aborts parse r \<and> convert_row parse r = Inr (row_floats parse r))
       \<or> (row_aborts parse r \<and> \<not> row_accepted parse r \<and> convert_row parse r = Inl OverflowError)
       \<or> (\<not> row_accepted parse r \<and> \<not> row_aborts parse r
          \<and> (convert_row parse r = Inl TypeError \<or> convert_row parse r = Inl ValueError))"
proof -
  obtain v1 v2 v3 where v: "r ''cutAngle'' = Some v1" "r ''power'' = Some v2" "r ''angleError'' = Some v3"
    using assms by auto
  have acc: "row_accepted parse r
             \<longleftrightarrow> float_accepts parse v1 \<and> float_accepts parse v2 \<and> float_accepts parse v3"
    by (simp add: row_accepted_def v)
  have ab: "row_aborts parse r
            \<longleftrightarrow> too_large v1 \<or> (float_accepts parse v1
                  \<and> (too_large v2 \<or> (float_accepts parse v2 \<and> too_large v3)))"
    by (simp add: row_aborts_def v)
  have fl: "row_floats parse r = (float_value parse v1, float_value parse v2, float_value parse v3)"
    by (simp add: row_floats_def field_float_def v)
  have cv: "convert_row parse r =
     (case py_float parse v1 of Inl e \<Rightarrow> Inl e | Inr cut_angle \<Rightarrow>
      case py_float parse v2 of Inl e \<Rightarrow> Inl e | Inr pow \<Rightarrow>
      case py_float parse v3 of Inl e \<Rightarrow> Inl e | Inr y \<Rightarrow> Inr (cut_angle, pow, y))"
    by (simp add: convert_row_def py_item_def TARGET_def v split: sum.splits)
  note c1 = py_float_cases[of parse v1] and c2 = py_float_cases[of parse v2]
    and c3 = py_float_cases[of parse v3]
  show ?thesis
  proof (cases "py_float parse v1")
    case (Inl e)
    then show ?thesis using c1 unfolding acc ab fl cv by auto
  next
    case i1: (Inr a)
    show ?thesis
    proof (cases "py_float parse v2")
      case (Inl e)
      then show ?thesis using c1 c2 i1 unfolding acc ab fl cv by auto
    next
      case i2: (Inr b)
      show ?thesis
      proof (cases "py_float parse v3")
        case (Inl e)
        then show ?thesis using c1 c2 c3 i1 i2 unfolding acc ab fl cv by auto
      next
        case (Inr c)
        then show ?thesis using c1 c2 c3 i1 i2 unfolding acc ab fl cv by auto
      qed
    qed
  qed
qed

lemma missing_key_row:
  assumes "r ''cutAngle'' = None \<or> r ''power'' = None \<or> r ''angleError'' = None"
  shows "\<not> row_accepted parse r" "\<not> row_aborts parse r"
  using assms by (auto simp: row_accepted_def row_aborts_def split: option.splits)

lemma collect_rows_filter:
  "collect_rows parse rows =
     (if \<exists>r \<in> set rows. row_aborts parse r then Inl OverflowError
      else Inr (map (row_floats parse) (filter (row_accepted parse) rows)))"
proof (induction rows)
  case Nil
  show ?case by simp
next
  case (Cons r rows)
  show ?case
  proof (cases "r ''cutAngle'' = None \<or> r ''power'' = None \<or> r ''angleError'' = None")
    case True
    then show ?thesis using missing_key_row[OF True, of parse] Cons.IH by (simp add: TARGET_def)
  next
    case False
    then have k: "r ''cutAngle'' \<noteq> None" "r ''power'' \<noteq> None" "r ''angleError'' \<noteq> None" by simp_all
    from convert_row_cases[OF k, of parse] show ?thesis
      using False Cons.IH by (auto simp: TARGET_def)
  qed
qed

lemma feature_rows_filter:
  "feature_rows data =
     Some (map (\<lambda>shot. map (field_raw shot) [''cutAngle'', ''spinY'', ''power''])
               (filter (has_keys [''cutAngle'', ''spinY'', ''power'', ''angleError'']) data),
           map (\<lambda>shot. field_raw shot ''angleError'')
               (filter (has_keys [''cutAngle'', ''spinY'', ''power'', ''angleError'']) data))"
proof -
  let ?kept = "filter (has_keys [''cutAngle'', ''spinY'', ''power'', ''angleError'']) data"
  have f: "map_opt (\<lambda>shot. map_opt shot [''cutAngle'', ''spinY'', ''power'']) ?kept
           = Some (map (\<lambda>shot. map (field_raw shot) [''cutAngle'', ''spinY'', ''power'']) ?kept)"
    by (intro map_opt_Some) (auto simp: has_keys_def field_raw_def)
  have t: "map_opt (\<lambda>shot. shot ''angleError'') ?kept = Some (map (\<lambda>shot. field_raw shot ''angleError'') ?kept)"
    by (intro map_opt_Some) (auto simp: has_keys_def field_raw_def)
  show ?thesis unfolding feature_rows_def Let_def f t by simp
qed

text \<open>
  Claim C3, as amended. The flat numpy variant drops exactly the records that lack one of the
  four fields and hands the values of the others to \<open>np.array\<close> as they are: it has no numeric
  or finiteness test of its own, and it returns only when numpy converts the values and the
  range report does not raise. The adaptive variant drops exactly the records that lack one of
  its three fields or hold, in one of them, a value that \<open>float\<close> rejects with a TypeError or
  ValueError (null, a list, a dictionary, a string that does not parse); each retained sample
  is the \<open>float\<close> conversion of the record's three values, so a boolean or a numeric string is
  converted, an integer is rounded to the nearest double, and a NaN or infinite value stays as
  it is. The run ends with an uncaught OverflowError when \<open>float\<close> meets, in a record, an
  integer of magnitude \<open>2^1024 - 2^970\<close> or more before a value that it rejects.
\<close>

theorem loaders_drop_missing_and_unconvertible:
  "collect_rows parse rows =
     (if \<exists>r \<in> set rows. row_aborts parse r then Inl OverflowError
      else Inr (map (row_floats parse) (filter (row_accepted parse) rows)))
   \<and> extract_features NP data = do {
       X \<leftarrow> np_array2 NP (map (\<lambda>shot. map (field_raw shot) [''cutAngle'', ''spinY'', ''power''])
                              (filter (has_keys [''cutAngle'', ''spinY'', ''power'', ''angleError'']) data));
       y \<leftarrow> np_array1 NP (map (\<lambda>shot. field_raw shot ''angleError'')
                              (filter (has_keys [''cutAngle'', ''spinY'', ''power'', ''angleError'']) data));
       _ \<leftarrow> range_report NP X y;
       Some (X, y)
     }"
  by (intro conjI collect_rows_filter) (simp add: extract_features_def feature_rows_filter)

theorem loaders_drop_missing_and_unconvertible_witness:
  "collect_rows Map.empty
     [[''cutAngle'' \<mapsto> JFloat (Fin 2), ''power'' \<mapsto> JInt 1, ''angleError'' \<mapsto> JBool True],
      [''cutAngle'' \<mapsto> JNull, ''power'' \<mapsto> JInt (2 ^ 1024), ''angleError'' \<mapsto> JInt 1],
      [''cutAngle'' \<mapsto> JStr ''x'', ''power'' \<mapsto> JInt 1, ''angleError'' \<mapsto> JInt 1],
      [''cutAngle'' \<mapsto> JInt 3]]
   = Inr [(Fin 2, Fin 1, Fin 1)]
   \<and> collect_rows Map.empty
     [[''cutAngle'' \<mapsto> JFloat (Fin 2), ''power'' \<mapsto> JInt (2 ^ 1024), ''angleError'' \<mapsto> JNull]]
   = Inl OverflowError
   \<and> extract_features \<lparr> np_array2 = Some, np_array1 = Some, range_report = (\<lambda>X y. Some ()) \<rparr>
     [[''cutAngle'' \<mapsto> JNull, ''spinY'' \<mapsto> JInt 0, ''power'' \<mapsto> JStr ''x'', ''angleError'' \<mapsto> JInt 1],
      [''cutAngle'' \<mapsto> JInt 3, ''power'' \<mapsto> JInt 1, ''angleError'' \<mapsto> JInt 1]]
   = Some ([[JNull, JInt 0, JStr ''x'']], [JInt 1])"
proof -
  let ?rows = "[[''cutAngle'' \<mapsto> JFloat (Fin 2), ''power'' \<mapsto> JInt 1, ''angleError'' \<mapsto> JBool True],
      [''cutAngle'' \<mapsto> JNull, ''power'' \<mapsto> JInt (2 ^ 1024), ''angleError'' \<mapsto> JInt 1],
      [''cutAngle'' \<mapsto> JStr ''x'', ''power'' \<mapsto> JInt 1, ''angleError'' \<mapsto> JInt 1],
      [''cutAngle'' \<mapsto> JInt 3]]"
  let ?bad = "[[''cutAngle'' \<mapsto> JFloat (Fin 2), ''power'' \<mapsto> JInt (2 ^ 1024), ''angleError'' \<mapsto> JNull]]"
  let ?NP = "\<lparr> np_array2 = Some, np_array1 = Some, range_report = (\<lambda>X y. Some ()) \<rparr>
             :: (json list list, json list) numpy"
  let ?data = "[[''cutAngle'' \<mapsto> JNull, ''spinY'' \<mapsto> JInt 0, ''power'' \<mapsto> JStr ''x'', ''angleError'' \<mapsto> JInt 1],
      [''cutAngle'' \<mapsto> JInt 3, ''power'' \<mapsto> JInt 1, ''angleError'' \<mapsto> JInt 1]]"
  have small: "\<not> (2 ^ 1024 - 2 ^ 970 \<le> (1::real))"
  proof -
    have "(2::real) ^ 970 * 2 \<le> 2 ^ 970 * 2 ^ 54" by (intro mult_left_mono) simp_all
    then have "(2::real) ^ 970 + 2 ^ 970 \<le> 2 ^ 1024" by (simp flip: power_add)
    moreover have "(1::real) < 2 ^ 970" by (rule one_less_power) simp_all
    ultimately show ?thesis by linarith
  qed
  have big: "2 ^ 1024 - 2 ^ 970 \<le> (2::real) ^ 1024" by simp
  have a: "collect_rows Map.empty ?rows = Inr [(Fin 2, Fin 1, Fin 1)]"
    using loaders_drop_missing_and_unconvertible[of Map.empty ?rows ?NP ?data]
    by (simp add: row_aborts_def row_accepted_def row_floats_def field_float_def too_large_def
          round_double_examples small)
  have b: "collect_rows Map.empty ?bad = Inl OverflowError"
    using loaders_drop_missing_and_unconvertible[of Map.empty ?bad ?NP ?data]
    by (simp add: row_aborts_def too_large_def big)
  have c: "extract_features ?NP ?data = Some ([[JNull, JInt 0, JStr ''x'']], [JInt 1])"
    using loaders_drop_missing_and_unconvertible[of Map.empty ?rows ?NP ?data]
    by (simp add: has_keys_def field_raw_def)
  show ?thesis using a b c by (intro conjI)
qed

text \<open>
  The claim as stated fails: a record whose cut angle is NaN, whose power is the boolean \<open>true\<close>
  and whose target is infinite passes the loader of the adaptive variant, with the NaN and the
  infinity kept and the boolean turned into 1.
\<close>

theorem loaders_retain_nan_counterexample:
  "collect_rows Map.empty
     [[''cutAngle'' \<mapsto> JFloat NaN, ''power'' \<mapsto> JBool True, ''angleError'' \<mapsto> JFloat PInf]]
   = Inr [(NaN, Fin 1, PInf)]
   \<and> \<not> is_finite NaN \<and> \<not> is_finite PInf"
  by (simp add: convert_row_def py_item_def py_float_def TARGET_def)

section \<open>Facts about the adaptive code emitter\<close>

lemma js_split_header_now:
  "js_split_header F input_filename poly_degree clip_val mt now2
   = (js_split_header F input_filename poly_degree clip_val mt now1)[8 := '' * Generated (UTC): '' @ now2]"
  by (simp add: js_split_header_def)

lemma length_js_split_header: "length (js_split_header F input_filename poly_degree clip_val mt now) = 17"
  by (simp add: js_split_header_def)

text \<open>
  Claim C2, as amended. \<open>build_js\<close> is a function of its arguments and of the clock. With the
  same arguments, two readings of the clock give texts that differ in one line only, the ninth
  line of the header (\<open>Generated (UTC)\<close>), which holds the reading; so two runs on identical
  input and configuration produce identical text except for that line, and byte-identical text
  when they read the same second.
\<close>

theorem build_js_depends_on_clock_in_one_line:
  "build_js_lines F coeffs_of results input_filename n_samples_total poly_degree clip_val mt now2
   = map_option (\<lambda>ls. ls[8 := '' * Generated (UTC): '' @ now2])
       (build_js_lines F coeffs_of results input_filename n_samples_total poly_degree clip_val mt now1)
   \<and> build_js F coeffs_of results input_filename n_samples_total poly_degree clip_val mt now2
   = map_option (\<lambda>ls. str_join [CHR 0x0A] (ls[8 := '' * Generated (UTC): '' @ now2]))
       (build_js_lines F coeffs_of results input_filename n_samples_total poly_degree clip_val mt now1)"
proof -
  have u: "(h @ rest)[8 := x] = h[8 := x] @ rest" if "length h = 17" for h rest :: "string list" and x
    using that by (simp add: list_update_append)
  have 1: "build_js_lines F coeffs_of results input_filename n_samples_total poly_degree clip_val mt now2
   = map_option (\<lambda>ls. ls[8 := '' * Generated (UTC): '' @ now2])
       (build_js_lines F coeffs_of results input_filename n_samples_total poly_degree clip_val mt now1)"
    unfolding build_js_lines_def
    by (cases "map_opt (js_bracket_functions F coeffs_of) results")
       (simp_all add: u[OF length_js_split_header] js_split_header_now[of F input_filename poly_degree clip_val mt now2 now1])
  show ?thesis unfolding build_js_def 1 by (simp add: option.map_comp comp_def)
qed

text \<open>
  The claim as stated fails: the same arguments and two clock readings one second apart give
  two different texts.
\<close>

theorem build_js_timestamp_counterexample:
  "build_js \<lparr> fmt_4f = (\<lambda>x. ''0''), fmt_6f = (\<lambda>x. ''0''), fmt_10f = (\<lambda>x. ''0''), fmt_g = (\<lambda>x. ''15''),
              fmt_12g = (\<lambda>x. ''0''), repr_float = (\<lambda>x. ''0''), json_dumps = (\<lambda>x. ''{}'') \<rparr>
     id ([] :: (string \<times> real) list result list) ''shots.json'' 200 3 15
     \<lparr> m_r2 = 0, m_rmse = 0, m_mae = 0 \<rparr> ''2026-01-01 00:00:00Z''
   \<noteq> build_js \<lparr> fmt_4f = (\<lambda>x. ''0''), fmt_6f = (\<lambda>x. ''0''), fmt_10f = (\<lambda>x. ''0''), fmt_g = (\<lambda>x. ''15''),
              fmt_12g = (\<lambda>x. ''0''), repr_float = (\<lambda>x. ''0''), json_dumps = (\<lambda>x. ''{}'') \<rparr>
     id ([] :: (string \<times> real) list result list) ''shots.json'' 200 3 15
     \<lparr> m_r2 = 0, m_rmse = 0, m_mae = 0 \<rparr> ''2026-01-01 00:00:01Z''"
  by (simp add: build_js_def build_js_lines_def js_split_header_def)

section \<open>Facts about the emitted predictor\<close>

lemma filter_key_distinct:
  "distinct (map f xs) \<Longrightarrow> x \<in> set xs \<Longrightarrow> filter (\<lambda>y. f y = f x) xs = [x]"
proof (induction xs)
  case Nil
  then show ?case by simp
next
  case (Cons a xs)
  show ?case
  proof (cases "a = x")
    case True
    have "f x \<notin> f ` set xs" using Cons.prems(1) True by simp
    then have "\<forall>y \<in> set xs. f y \<noteq> f x" by (metis imageI)
    then have "filter (\<lambda>y. f y = f x) xs = []" by (simp add: filter_empty_conv)
    then show ?thesis using True by simp
  next
    case False
    then have x: "x \<in> set xs" using Cons.prems(2) by simp
    then have "f a \<noteq> f x" using Cons.prems(1) by auto
    then show ?thesis using Cons.IH x Cons.prems(1) by simp
  qed
qed

lemma js_lookup_distinct:
  "distinct (map r_bi results) \<Longrightarrow> r \<in> set results \<Longrightarrow> js_lookup results (r_bi r) = Some r"
  by (simp add: js_lookup_def filter_key_distinct)

lemma split_on_nonempty: "split_on sep s \<noteq> []"
  by (induction s) (auto simp: Let_def)

lemma factor_ok_value: "factor_ok f \<Longrightarrow> \<exists>v. factor_value c p f = Some v"
  by (cases f) (auto simp: js_var_def repl_var_def xmap_def)

lemma name_ok_value:
  assumes "name_ok term"
  shows "\<exists>v. js_term_value c p term = Some v"
proof (cases "term = ''1''")
  case True
  then show ?thesis by (simp add: js_term_value_def)
next
  case False
  then obtain fs where fs: "term_factors term = Some fs" "list_all factor_ok fs"
    using assms by (auto simp: name_ok_def split: option.splits)
  have "length fs = length (split_on (CHR '' '') term)"
    using fs(1) unfolding term_factors_def by (rule map_opt_length)
  then have ne: "fs \<noteq> []" using split_on_nonempty[of "CHR '' ''" "term"] by auto
  obtain vs where vs: "map_opt (factor_value c p) fs = Some vs"
    using map_opt_total[of fs "factor_value c p"] factor_ok_value fs(2) by (auto simp: list_all_iff)
  have "vs \<noteq> []" using map_opt_length[OF vs] ne by auto
  then obtain v vs' where "vs = v # vs'" by (cases vs) auto
  then show ?thesis using False fs(1) vs by (simp add: js_term_value_def)
qed

lemma model_ok_value:
  assumes "model_ok coeffs"
  shows "\<exists>y. js_poly_value coeffs c p = Some y"
proof -
  have "\<forall>x \<in> set coeffs. \<exists>y. (\<lambda>(name, k). map_option (fl_mul (Fin k)) (js_term_value c p name)) x = Some y"
  proof
    fix x assume "x \<in> set coeffs"
    then have "name_ok (fst x)" using assms by (auto simp: model_ok_def list_all_iff)
    from name_ok_value[OF this, of c p] show "\<exists>y. (\<lambda>(name, k). map_option (fl_mul (Fin k)) (js_term_value c p name)) x = Some y"
      by (cases x) auto
  qed
  from map_opt_total[OF this] obtain prods where
    pr: "map_opt (\<lambda>(name, k). map_option (fl_mul (Fin k)) (js_term_value c p name)) coeffs = Some prods"
    by blast
  have "prods \<noteq> []" using map_opt_length[OF pr] assms by (auto simp: model_ok_def)
  then obtain v vs where "prods = v # vs" by (cases prods) auto
  then show ?thesis using pr by (simp add: js_poly_value_def)
qed

lemma js_route_value:
  assumes "distinct (map r_bi results)" "r \<in> set results"
    "model_ok (coeffs_of (r_mL r))" "model_ok (coeffs_of (r_mR r))"
  shows "\<exists>y. js_poly_value (coeffs_of (if c < real_of_int (r_split r) then r_mL r else r_mR r)) c p = Some y
           \<and> js_route coeffs_of results clip r c p = Some (js_clamp clip y)"
proof -
  have "\<exists>y. js_poly_value (coeffs_of (if c < real_of_int (r_split r) then r_mL r else r_mR r)) c p = Some y"
    using model_ok_value[OF assms(3), of c p] model_ok_value[OF assms(4), of c p]
    by (cases "c < real_of_int (r_split r)") simp_all
  then obtain y where "js_poly_value (coeffs_of (if c < real_of_int (r_split r) then r_mL r else r_mR r)) c p = Some y"
    by blast
  then show ?thesis using js_lookup_distinct[OF assms(1,2)] by (auto simp: js_route_def split: if_splits)
qed

lemma js_clamp_in_clip:
  assumes "0 \<le> clip" "y \<noteq> NaN"
  shows "in_clip clip (js_clamp clip y)"
  using assms by (cases y) (auto simp: js_clamp_def in_clip_def)

lemma predictAngleError_routes:
  assumes "distinct (map r_bi results)"
    "\<forall>r \<in> set results. model_ok (coeffs_of (r_mL r)) \<and> model_ok (coeffs_of (r_mR r))"
  shows "\<exists>y. predictAngleError coeffs_of results clip cutAngle spinY pw = Some y
             \<and> (y = Fin 0 \<or> (\<exists>r \<in> set results. \<exists>c p. js_route coeffs_of results clip r c p = Some y))"
proof -
  have route: "\<exists>y. js_route coeffs_of results clip r c p = Some y" if "r \<in> set results" for r c p
    using js_route_value[OF assms(1) that, of coeffs_of c p clip] assms(2) that by blast
  show ?thesis
  proof (cases "\<exists>c s p. cutAngle = Fin c \<and> spinY = Fin s \<and> pw = Fin p")
    case False
    then have "predictAngleError coeffs_of results clip cutAngle spinY pw = Some (Fin 0)"
      by (cases cutAngle; cases spinY; cases pw) (simp_all add: predictAngleError_def)
    then show ?thesis by simp
  next
    case True
    then obtain c s p where v: "cutAngle = Fin c" "spinY = Fin s" "pw = Fin p" by blast
    show ?thesis
    proof (cases "find (\<lambda>r. r_pmin r \<le> p \<and> p < r_pmax r) results")
      case (Some r)
      then have "r \<in> set results" by (auto simp: find_Some_iff)
      then show ?thesis using route[of r c p] Some v by (auto simp: predictAngleError_def)
    next
      case None
      show ?thesis
      proof (cases "results = []")
        case True
        then show ?thesis using v by (simp add: predictAngleError_def)
      next
        case False
        then have "hd results \<in> set results" "last results \<in> set results" by simp_all
        then show ?thesis using route[of "hd results" c p] route[of "last results" c p] None v False
          by (auto simp: predictAngleError_def)
      qed
    qed
  qed
qed

text \<open>
  The routing of a power outside the whole range. For models with the feature names of
  scikit-learn and distinct bracket indices, the emitted predictor returns a number for every
  input (0 when an input is not finite or when there is no bracket). A finite power below the
  lower bound of every bracket is routed through the first bracket, a power at or above the
  upper bound of every bracket through the last one, and the routed prediction is clipped.
\<close>

lemma predictAngleError_below_first_above_last:
  assumes "distinct (map r_bi results)"
    "\<forall>r \<in> set results. model_ok (coeffs_of (r_mL r)) \<and> model_ok (coeffs_of (r_mR r))"
  shows "(\<exists>y. predictAngleError coeffs_of results clip cutAngle spinY pw = Some y)
       \<and> (results \<noteq> [] \<and> (\<forall>r \<in> set results. p < r_pmin r) \<longrightarrow>
            predictAngleError coeffs_of results clip (Fin c) (Fin s) (Fin p)
            = js_route coeffs_of results clip (hd results) c p)
       \<and> (results \<noteq> [] \<and> (\<forall>r \<in> set results. r_pmax r \<le> p)
            \<and> r_pmin (hd results) \<le> r_pmax (hd results) \<longrightarrow>
            predictAngleError coeffs_of results clip (Fin c) (Fin s) (Fin p)
            = js_route coeffs_of results clip (last results) c p)
       \<and> (\<forall>r \<in> set results.
            \<exists>y. js_poly_value (coeffs_of (if c < real_of_int (r_split r) then r_mL r else r_mR r)) c p = Some y
               \<and> js_route coeffs_of results clip r c p = Some (js_clamp clip y))"
proof (intro conjI impI ballI)
  show "\<exists>y. predictAngleError coeffs_of results clip cutAngle spinY pw = Some y"
    using predictAngleError_routes[OF assms] by blast
next
  assume a: "results \<noteq> [] \<and> (\<forall>r \<in> set results. p < r_pmin r)"
  then have "find (\<lambda>r. r_pmin r \<le> p \<and> p < r_pmax r) results = None"
    by (auto simp: find_None_iff)
  moreover have "p < r_pmin (hd results)" using a by simp
  ultimately show "predictAngleError coeffs_of results clip (Fin c) (Fin s) (Fin p)
            = js_route coeffs_of results clip (hd results) c p"
    using a by (simp add: predictAngleError_def)
next
  assume a: "results \<noteq> [] \<and> (\<forall>r \<in> set results. r_pmax r \<le> p)
            \<and> r_pmin (hd results) \<le> r_pmax (hd results)"
  then have "find (\<lambda>r. r_pmin r \<le> p \<and> p < r_pmax r) results = None"
    by (auto simp: find_None_iff)
  moreover have "r_pmax (hd results) \<le> p" using a by simp
  then have "\<not> p < r_pmin (hd results)" using a by linarith
  ultimately show "predictAngleError coeffs_of results clip (Fin c) (Fin s) (Fin p)
            = js_route coeffs_of results clip (last results) c p"
    using a by (simp add: predictAngleError_def)
next
  fix r assume "r \<in> set results"
  then show "\<exists>y. js_poly_value (coeffs_of (if c < real_of_int (r_split r) then r_mL r else r_mR r)) c p = Some y
               \<and> js_route coeffs_of results clip r c p = Some (js_clamp clip y)"
    using js_route_value[OF assms(1), of r coeffs_of c p clip] assms(2) by blast
qed

text \<open>
  Claim C8. The fallback of the emitted dispatcher is announced as a clamp to the nearest
  bracket, and it tests one thing: a power below the lower bound of the first emitted bracket
  goes to the first bracket, every other power that no bracket holds goes to the last one. The
  brackets that were skipped or failed leave gaps between the emitted ones. With the brackets
  \<open>[0, 10)\<close>, \<open>[20, 30)\<close> and \<open>[40, 50)\<close> and the power 11, one above the first bracket, the
  predictor returns the prediction of the last bracket (3), not that of the nearest (1); the
  emitted fallback is the text below.
\<close>

theorem predictAngleError_gap_goes_to_last_bracket:
  "predictAngleError id
     [\<lparr> r_bi = 0, r_pmin = 0, r_pmax = 10, r_split = 30, r_rmse = 1,
        r_mL = [(''1'', 1)], r_mR = [(''1'', 1)], r_n = 20 \<rparr>,
      \<lparr> r_bi = 2, r_pmin = 20, r_pmax = 30, r_split = 30, r_rmse = 1,
        r_mL = [(''1'', 2)], r_mR = [(''1'', 2)], r_n = 20 \<rparr>,
      \<lparr> r_bi = 4, r_pmin = 40, r_pmax = 50, r_split = 30, r_rmse = 1,
        r_mL = [(''1'', 3)], r_mR = [(''1'', 3)], r_n = 20 \<rparr>]
     15 (Fin 0) (Fin 0) (Fin 11) = Some (Fin 3)
   \<and> js_route id
     [\<lparr> r_bi = 0, r_pmin = 0, r_pmax = 10, r_split = 30, r_rmse = 1,
        r_mL = [(''1'', 1)], r_mR = [(''1'', 1)], r_n = 20 \<rparr>,
      \<lparr> r_bi = 2, r_pmin = 20, r_pmax = 30, r_split = 30, r_rmse = 1,
        r_mL = [(''1'', 2)], r_mR = [(''1'', 2)], r_n = 20 \<rparr>,
      \<lparr> r_bi = 4, r_pmin = 40, r_pmax = 50, r_split = 30, r_rmse = 1,
        r_mL = [(''1'', 3)], r_mR = [(''1'', 3)], r_n = 20 \<rparr>]
     15 \<lparr> r_bi = 0, r_pmin = 0, r_pmax = 10, r_split = 30, r_rmse = 1,
        r_mL = [(''1'', 1)], r_mR = [(''1'', 1)], r_n = 20 \<rparr> 0 11 = Some (Fin 1)
   \<and> js_fallback F 15
     [\<lparr> r_bi = 0, r_pmin = 0, r_pmax = 10, r_split = 30, r_rmse = 1,
        r_mL = [(''1'', 1 :: real)], r_mR = [(''1'', 1 :: real)], r_n = 20 \<rparr>,
      \<lparr> r_bi = 2, r_pmin = 20, r_pmax = 30, r_split = 30, r_rmse = 1,
        r_mL = [(''1'', 2)], r_mR = [(''1'', 2)], r_n = 20 \<rparr>,
      \<lparr> r_bi = 4, r_pmin = 40, r_pmax = 50, r_split = 30, r_rmse = 1,
        r_mL = [(''1'', 3)], r_mR = [(''1'', 3)], r_n = 20 \<rparr>]
     = [''  // fallback: clamp to nearest bracket'',
        ''  if (power < '' @ repr_float F 0 @ '') {'',
        ''    const split = 30;'',
        ''    let y = (cutAngle < split)'',
        ''      ? __predictAngleError_b0_left(cutAngle, power)'',
        ''      : __predictAngleError_b0_right(cutAngle, power);'',
        ''    if (y > '' @ fmt_g F 15 @ '') y = '' @ fmt_g F 15 @ '';'',
        ''    else if (y < -'' @ fmt_g F 15 @ '') y = -'' @ fmt_g F 15 @ '';'',
        ''    return y;'',
        ''  }'',
        ''  {'',
        ''    const split = 30;'',
        ''    let y = (cutAngle < split)'',
        ''      ? __predictAngleError_b4_left(cutAngle, power)'',
        ''      : __predictAngleError_b4_right(cutAngle, power);'',
        ''    if (y > '' @ fmt_g F 15 @ '') y = '' @ fmt_g F 15 @ '';'',
        ''    else if (y < -'' @ fmt_g F 15 @ '') y = -'' @ fmt_g F 15 @ '';'',
        ''    return y;'',
        ''  }'']"
proof -
  have f: "fl_of 3 = Fin 3" "fl_of 1 = Fin 1" by (rule fl_of_bounded, simp)+
  have n: "show_nat 0 = ''0''" "show_nat 4 = ''4''" "show_nat 30 = ''30''"
    by (simp_all add: show_nat.simps)
  show ?thesis
    by (simp add: predictAngleError_def js_route_def js_lookup_def js_poly_value_def js_term_value_def
        js_clamp_def f js_fallback_def js_route_lines_def n show_int_def del: show_nat.simps)
qed

lemma predictAngleError_in_clip_unless_nan:
  assumes "distinct (map r_bi results)"
    "\<forall>r \<in> set results. model_ok (coeffs_of (r_mL r)) \<and> model_ok (coeffs_of (r_mR r))"
    "0 \<le> clip"
  shows "\<exists>y. predictAngleError coeffs_of results clip cutAngle spinY pw = Some y
             \<and> (in_clip clip y \<or> y = NaN)"
proof -
  from predictAngleError_routes[OF assms(1,2), of clip cutAngle spinY pw]
  obtain y where y: "predictAngleError coeffs_of results clip cutAngle spinY pw = Some y"
    "y = Fin 0 \<or> (\<exists>r \<in> set results. \<exists>c p. js_route coeffs_of results clip r c p = Some y)"
    by blast
  have "in_clip clip y \<or> y = NaN"
  proof (cases "y = Fin 0")
    case True
    then show ?thesis using assms(3) by (simp add: in_clip_def)
  next
    case False
    then obtain r c p where r: "r \<in> set results" "js_route coeffs_of results clip r c p = Some y"
      using y(2) by blast
    from js_route_value[OF assms(1) r(1), of coeffs_of c p clip] assms(2) r(1)
    obtain z where "js_route coeffs_of results clip r c p = Some (js_clamp clip z)" by blast
    then have yz: "y = js_clamp clip z" using r(2) by simp
    show ?thesis
    proof (cases "z = NaN")
      case True
      then show ?thesis using yz by (simp add: js_clamp_def)
    next
      case False
      then show ?thesis using js_clamp_in_clip[OF assms(3) False] yz by simp
    qed
  qed
  then show ?thesis using y(1) by blast
qed

text \<open>
  Claim C9. The clip keeps every prediction that is a number or an infinity inside the range
  (the lemma above), and inputs that are not finite give 0. It does not hold for every finite
  input: with a cut angle of \<open>1e200\<close> the powers of the cut angle overflow to infinity, the
  terms of the right-hand model with coefficients of opposite sign add up to NaN, both
  comparisons of the clip are false for NaN, and the predictor returns NaN.
\<close>

theorem predictAngleError_nan_for_large_cut_angle:
  "predictAngleError id
     [\<lparr> r_bi = 0, r_pmin = 0, r_pmax = 100, r_split = 30, r_rmse = 1,
        r_mL = [(''1'', 1)],
        r_mR = [(''1'', 1 / 2), (''x0'', 1 / 10), (''x1'', 2 / 10), (''x0^2'', 1 / 100),
                (''x0 x1'', - 2 / 100), (''x1^2'', 3 / 100), (''x0^3'', - 1 / 1000),
                (''x0^2 x1'', 2 / 1000), (''x0 x1^2'', 1 / 1000), (''x1^3'', - 3 / 1000)],
        r_n = 20 \<rparr>]
     15 (Fin (10 ^ 200)) (Fin 0) (Fin 50) = Some NaN"
  by (simp add: predictAngleError_def js_route_def js_lookup_def js_poly_value_def js_term_value_def
        js_clamp_def term_factors_def parse_factor_def js_var_def repl_var_def xmap_def js_pow_def
        py_int_def fl_of_def fl_scale_inf_def)

section \<open>The solver never divides by a small pivot\<close>

lemma for_loop_sim:
  assumes "P s" "\<And>s i. P s \<Longrightarrow> i \<in> set is \<Longrightarrow> f s i = g s i \<and> (\<exists>s'. g s i = Some s' \<and> P s')"
  shows "for_loop is f s = for_loop is g s \<and> (\<exists>s'. for_loop is g s = Some s' \<and> P s')"
  using assms
proof (induction "is" arbitrary: s)
  case Nil
  then show ?case by simp
next
  case (Cons i "is")
  obtain s1 where s1: "f s i = g s i" "g s i = Some s1" "P s1" using Cons.prems by force
  have "for_loop is f s1 = for_loop is g s1 \<and> (\<exists>s'. for_loop is g s1 = Some s' \<and> P s')"
    using s1 Cons.prems(2) by (intro Cons.IH) auto
  then show ?case using s1 by simp
qed

lemma shape_length: "shape n aug \<Longrightarrow> length aug = n"
  by (simp add: shape_def)

lemma shape_row: "shape n aug \<Longrightarrow> r < n \<Longrightarrow> length (aug ! r) = Suc n"
  by (simp add: shape_def list_all_length)

lemma shape_update: "shape n aug \<Longrightarrow> length row = Suc n \<Longrightarrow> shape n (aug[r := row])"
  by (auto simp: shape_def list_all_iff dest: set_update_subset_insert[THEN subsetD])

lemma get2_shape: "shape n aug \<Longrightarrow> r < n \<Longrightarrow> c \<le> n \<Longrightarrow> get2 aug r c = Some (aug ! r ! c)"
  by (simp add: get2_def py_get_def shape_length shape_row)

lemma set2_shape:
  "shape n aug \<Longrightarrow> r < n \<Longrightarrow> c \<le> n \<Longrightarrow> set2 aug r c v = Some (aug[r := (aug ! r)[c := v]])"
  by (simp add: set2_def py_get_def py_set_def shape_length shape_row)

lemma div_ok_py: "div_ok py_truediv"
  by (auto simp: div_ok_def py_truediv_def)

lemma div_ok_eq: "div_ok dv \<Longrightarrow> \<not> \<bar>d\<bar> < 1 / 10 ^ 12 \<Longrightarrow> dv a d = py_truediv a d"
  using div_ok_py by (simp add: div_ok_def)

lemma find_pivot_range:
  assumes "shape n aug" "col < n"
  shows "\<exists>m. find_pivot aug n col = Some m \<and> col \<le> m \<and> m < n"
  unfolding find_pivot_def
proof (rule for_loop_invariant[where P = "\<lambda>m. col \<le> m \<and> m < n"])
  show "col \<le> col \<and> col < n" using assms(2) by simp
next
  fix m row assume m: "col \<le> m \<and> m < n" and row: "row \<in> set [col + 1..<n]"
  then have r: "row < n" "col \<le> row" by simp_all
  show "\<exists>s'. do { a \<leftarrow> get2 aug row col; b \<leftarrow> get2 aug m col;
                    Some (if \<bar>a\<bar> > \<bar>b\<bar> then row else m) } = Some s' \<and> col \<le> s' \<and> s' < n"
    using get2_shape[OF assms(1) r(1), of col] get2_shape[OF assms(1), of m col] m r assms(2) by simp
qed

lemma swap_rows_shape:
  assumes "shape n aug" "i < n" "j < n"
  shows "\<exists>aug'. swap_rows aug i j = Some aug' \<and> shape n aug'"
proof -
  have "swap_rows aug i j = Some (aug[i := aug ! j, j := aug ! i])"
    using assms by (simp add: swap_rows_def py_get_def py_set_def shape_length)
  moreover have "shape n (aug[i := aug ! j, j := aug ! i])"
    using assms by (intro shape_update) (simp_all add: shape_row)
  ultimately show ?thesis by blast
qed

lemma eliminate_row_sim:
  assumes "div_ok dv" "shape n aug" "col < n" "row < n" "row \<noteq> col"
    "\<not> \<bar>aug ! col ! col\<bar> < 1 / 10 ^ 12"
  shows "eliminate_row dv n col aug row = eliminate_row py_truediv n col aug row
       \<and> (\<exists>aug'. eliminate_row py_truediv n col aug row = Some aug' \<and> shape n aug'
                  \<and> aug' ! col = aug ! col)"
proof -
  let ?a = "aug ! row ! col" and ?p = "aug ! col ! col"
  have cn: "col \<le> n" using assms(3) by (rule less_imp_le)
  have ga: "get2 aug row col = Some ?a" using assms(2,4) cn by (rule get2_shape)
  have gp: "get2 aug col col = Some ?p" using assms(2,3) cn by (rule get2_shape)
  have dv: "dv ?a ?p = Some (?a / ?p)" "py_truediv ?a ?p = Some (?a / ?p)"
    using assms(1,6) div_ok_py by (simp_all add: div_ok_def)
  let ?body = "\<lambda>aug j. do { x \<leftarrow> get2 aug row j; y \<leftarrow> get2 aug col j;
                             set2 aug row j (x - ?a / ?p * y) }"
  have "\<exists>aug'. for_loop [col..<n + 1] ?body aug = Some aug' \<and> (shape n aug' \<and> aug' ! col = aug ! col)"
  proof (rule for_loop_invariant[where P = "\<lambda>a. shape n a \<and> a ! col = aug ! col"])
    show "shape n aug \<and> aug ! col = aug ! col" using assms(2) by simp
  next
    fix s j assume s: "shape n s \<and> s ! col = aug ! col" and j: "j \<in> set [col..<n + 1]"
    then have jn: "j \<le> n" by auto
    have sh: "shape n s" using s by simp
    let ?v = "s ! row ! j - ?a / ?p * (s ! col ! j)"
    have "?body s j = Some (s[row := (s ! row)[j := ?v]])"
      using get2_shape[OF sh assms(4) jn] get2_shape[OF sh assms(3) jn] set2_shape[OF sh assms(4) jn]
      by simp
    moreover have "shape n (s[row := (s ! row)[j := ?v]])"
      using sh assms(4) by (intro shape_update) (simp_all add: shape_row)
    moreover have "(s[row := (s ! row)[j := ?v]]) ! col = aug ! col"
      using s assms(5) by simp
    ultimately show "\<exists>s'. ?body s j = Some s' \<and> shape n s' \<and> s' ! col = aug ! col" by blast
  qed
  then show ?thesis by (simp add: eliminate_row_def ga gp dv)
qed

lemma forward_column_sim:
  assumes "div_ok dv" "shape n aug" "col < n"
  shows "forward_column dv n aug col = forward_column py_truediv n aug col
       \<and> (\<exists>aug'. forward_column py_truediv n aug col = Some aug' \<and> shape n aug')"
proof -
  obtain m where m: "find_pivot aug n col = Some m" "col \<le> m" "m < n"
    using find_pivot_range[OF assms(2,3)] by blast
  obtain aug1 where a1: "swap_rows aug col m = Some aug1" "shape n aug1"
    using swap_rows_shape[OF assms(2,3) m(3)] by blast
  have cn: "col \<le> n" using assms(3) by (rule less_imp_le)
  have gp: "get2 aug1 col col = Some (aug1 ! col ! col)"
    using a1(2) assms(3) cn by (rule get2_shape)
  show ?thesis
  proof (cases "\<bar>aug1 ! col ! col\<bar> < 1 / 10 ^ 12")
    case True
    then show ?thesis using a1(2) by (simp add: forward_column_def m(1) a1(1) gp)
  next
    case False
    have "for_loop [col + 1..<n] (eliminate_row dv n col) aug1
            = for_loop [col + 1..<n] (eliminate_row py_truediv n col) aug1
          \<and> (\<exists>s'. for_loop [col + 1..<n] (eliminate_row py_truediv n col) aug1 = Some s'
                   \<and> (shape n s' \<and> s' ! col = aug1 ! col))"
    proof (rule for_loop_sim[where P = "\<lambda>a. shape n a \<and> a ! col = aug1 ! col"])
      show "shape n aug1 \<and> aug1 ! col = aug1 ! col" using a1(2) by simp
    next
      fix s row assume s: "shape n s \<and> s ! col = aug1 ! col" and row: "row \<in> set [col + 1..<n]"
      then have r: "row < n" "row \<noteq> col" by simp_all
      have p: "\<not> \<bar>s ! col ! col\<bar> < 1 / 10 ^ 12" using s False by simp
      from eliminate_row_sim[OF assms(1) _ assms(3) r p] s
      show "eliminate_row dv n col s row = eliminate_row py_truediv n col s row
            \<and> (\<exists>s'. eliminate_row py_truediv n col s row = Some s' \<and> shape n s' \<and> s' ! col = aug1 ! col)"
        by auto
    qed
    then show ?thesis using False by (simp add: forward_column_def m(1) a1(1) gp) blast
  qed
qed

lemma forward_elimination_sim:
  assumes "div_ok dv" "shape n aug"
  shows "forward_elimination dv n aug = forward_elimination py_truediv n aug
       \<and> (\<exists>aug'. forward_elimination py_truediv n aug = Some aug' \<and> shape n aug')"
  unfolding forward_elimination_def
proof (rule for_loop_sim[where P = "shape n"])
  show "shape n aug" by (rule assms(2))
next
  fix s col assume "shape n s" "col \<in> set [0..<n]"
  then show "forward_column dv n s col = forward_column py_truediv n s col
             \<and> (\<exists>s'. forward_column py_truediv n s col = Some s' \<and> shape n s')"
    using forward_column_sim[OF assms(1), of n s col] by simp
qed

lemma back_row_sim:
  assumes "div_ok dv" "shape n aug" "length x = n" "i < n"
  shows "back_row dv n aug x i = back_row py_truediv n aug x i
       \<and> (\<exists>x'. back_row py_truediv n aug x i = Some x' \<and> length x' = n
                \<and> (\<forall>k. k \<noteq> i \<longrightarrow> x' ! k = x ! k)
                \<and> (\<bar>aug ! i ! i\<bar> < 1 / 10 ^ 12 \<longrightarrow> x' ! i = 0))"
proof -
  let ?p = "aug ! i ! i"
  have le: "i \<le> n" using assms(4) by (rule less_imp_le)
  have gp: "get2 aug i i = Some ?p" using assms(2,4) le by (rule get2_shape)
  show ?thesis
  proof (cases "\<bar>?p\<bar> < 1 / 10 ^ 12")
    case True
    then show ?thesis using assms(3,4) by (simp add: back_row_def gp py_set_def)
  next
    case False
    have gr: "get2 aug i n = Some (aug ! i ! n)" using assms(2,4) by (rule get2_shape) simp
    let ?x1 = "x[i := aug ! i ! n]"
    have s1: "py_set x i (aug ! i ! n) = Some ?x1" using assms(3,4) by (simp add: py_set_def)
    let ?body = "\<lambda>x j. do { xi \<leftarrow> py_get x i; a \<leftarrow> get2 aug i j; xj \<leftarrow> py_get x j;
                             py_set x i (xi - a * xj) }"
    have "\<exists>x2. for_loop [i + 1..<n] ?body ?x1 = Some x2
              \<and> (length x2 = n \<and> (\<forall>k. k \<noteq> i \<longrightarrow> x2 ! k = x ! k))"
    proof (rule for_loop_invariant[where P = "\<lambda>y. length y = n \<and> (\<forall>k. k \<noteq> i \<longrightarrow> y ! k = x ! k)"])
      show "length ?x1 = n \<and> (\<forall>k. k \<noteq> i \<longrightarrow> ?x1 ! k = x ! k)" using assms(3) by simp
    next
      fix y j assume y: "length y = n \<and> (\<forall>k. k \<noteq> i \<longrightarrow> y ! k = x ! k)" and j: "j \<in> set [i + 1..<n]"
      then have jn: "j < n" "j \<le> n" by auto
      have "?body y j = Some (y[i := y ! i - aug ! i ! j * y ! j])"
        using get2_shape[OF assms(2,4) jn(2)] y jn(1) assms(4) by (simp add: py_get_def py_set_def)
      moreover have "length (y[i := y ! i - aug ! i ! j * y ! j]) = n
                     \<and> (\<forall>k. k \<noteq> i \<longrightarrow> (y[i := y ! i - aug ! i ! j * y ! j]) ! k = x ! k)"
        using y by simp
      ultimately show "\<exists>s'. ?body y j = Some s' \<and> length s' = n \<and> (\<forall>k. k \<noteq> i \<longrightarrow> s' ! k = x ! k)"
        by blast
    qed
    then obtain x2 where x2: "for_loop [i + 1..<n] ?body ?x1 = Some x2" "length x2 = n"
      "\<forall>k. k \<noteq> i \<longrightarrow> x2 ! k = x ! k" by blast
    have gi: "py_get x2 i = Some (x2 ! i)" using x2(2) assms(4) by (simp add: py_get_def)
    have dv: "dv (x2 ! i) ?p = Some (x2 ! i / ?p)" "py_truediv (x2 ! i) ?p = Some (x2 ! i / ?p)"
      using assms(1) False div_ok_py by (simp_all add: div_ok_def)
    have s2: "py_set x2 i (x2 ! i / ?p) = Some (x2[i := x2 ! i / ?p])"
      using x2(2) assms(4) by (simp add: py_set_def)
    note x2' = x2(1)[simplified]
    have "back_row dv n aug x i = Some (x2[i := x2 ! i / ?p])"
      using False by (simp add: back_row_def gp gr s1 x2' gi dv s2)
    moreover have "back_row py_truediv n aug x i = Some (x2[i := x2 ! i / ?p])"
      using False by (simp add: back_row_def gp gr s1 x2' gi dv s2)
    ultimately show ?thesis using x2(2,3) False by simp
  qed
qed

lemma for_loop_each:
  assumes "distinct is" "length x = n"
    "\<And>y i. i \<in> set is \<Longrightarrow> length y = n \<Longrightarrow>
       \<exists>y'. g y i = Some y' \<and> length y' = n \<and> (\<forall>k. k \<noteq> i \<longrightarrow> y' ! k = y ! k)
            \<and> (Z i \<longrightarrow> y' ! i = (0::real))"
  shows "\<exists>x'. for_loop is g x = Some x' \<and> length x' = n
            \<and> (\<forall>i \<in> set is. Z i \<longrightarrow> x' ! i = 0) \<and> (\<forall>k. k \<notin> set is \<longrightarrow> x' ! k = x ! k)"
  using assms
proof (induction "is" arbitrary: x)
  case Nil
  then show ?case by simp
next
  case (Cons i "is")
  obtain x1 where x1: "g x i = Some x1" "length x1 = n" "\<forall>k. k \<noteq> i \<longrightarrow> x1 ! k = x ! k"
    "Z i \<longrightarrow> x1 ! i = 0"
    using Cons.prems(3)[of i x] Cons.prems(2) by auto
  have "\<exists>x'. for_loop is g x1 = Some x' \<and> length x' = n
            \<and> (\<forall>i \<in> set is. Z i \<longrightarrow> x' ! i = 0) \<and> (\<forall>k. k \<notin> set is \<longrightarrow> x' ! k = x1 ! k)"
    using Cons.prems(1) x1(2) Cons.prems(3) by (intro Cons.IH) auto
  then obtain x' where x': "for_loop is g x1 = Some x'" "length x' = n"
    "\<forall>j \<in> set is. Z j \<longrightarrow> x' ! j = 0" "\<forall>k. k \<notin> set is \<longrightarrow> x' ! k = x1 ! k" by blast
  have "i \<notin> set is" using Cons.prems(1) by simp
  then have "x' ! i = x1 ! i" using x'(4) by simp
  then have zi: "Z i \<longrightarrow> x' ! i = 0" using x1(4) by simp
  have "\<forall>k. k \<notin> set (i # is) \<longrightarrow> x' ! k = x ! k" using x'(4) x1(3) by simp
  then show ?case using x1(1) x' zi by simp
qed

lemma augment_shape:
  assumes "square_system A b"
  shows "\<exists>aug. augment A b = Some aug \<and> shape (length A) aug"
proof -
  let ?n = "length A"
  have len: "length b = ?n" and rows: "\<forall>row \<in> set A. length row = ?n"
    using assms by (simp_all add: square_system_def list_all_iff)
  have "augment A b = Some (map (\<lambda>(i, row). row @ [b ! i]) (zip [0..<?n] A))"
    unfolding augment_def
  proof (rule map_opt_Some, rule ballI)
    fix x assume x: "x \<in> set (zip [0..<?n] A)"
    obtain i row where ir: "x = (i, row)" by (cases x)
    then have "i < ?n" using x by (auto dest: set_zip_leftD)
    then show "(\<lambda>(i, row). do { bi \<leftarrow> py_get b i; Some (row @ [bi]) }) x = Some ((\<lambda>(i, row). row @ [b ! i]) x)"
      unfolding ir using len by (simp add: py_get_def)
  qed
  then have "augment A b = Some (map (\<lambda>(i, row). row @ [b ! i]) (zip [0..<?n] A))"
    by (simp add: case_prod_beta)
  moreover have "shape ?n (map (\<lambda>(i, row). row @ [b ! i]) (zip [0..<?n] A))"
    using rows by (auto simp: shape_def list_all_iff dest: set_zip_rightD)
  ultimately show ?thesis by blast
qed

lemma back_substitution_sim:
  assumes "div_ok dv" "shape n aug"
  shows "back_substitution dv n aug = back_substitution py_truediv n aug
       \<and> (\<exists>x. back_substitution py_truediv n aug = Some x \<and> length x = n
               \<and> (\<forall>i<n. \<bar>aug ! i ! i\<bar> < 1 / 10 ^ 12 \<longrightarrow> x ! i = 0))"
proof -
  have eq: "for_loop (rev [0..<n]) (back_row dv n aug) (replicate n 0)
            = for_loop (rev [0..<n]) (back_row py_truediv n aug) (replicate n 0)
          \<and> (\<exists>s'. for_loop (rev [0..<n]) (back_row py_truediv n aug) (replicate n 0) = Some s'
                  \<and> length s' = n)"
  proof (rule for_loop_sim[where P = "\<lambda>y. length y = n"])
    show "length (replicate n (0::real)) = n" by simp
  next
    fix y :: "real list" and i assume y: "length y = n" and "i \<in> set (rev [0..<n])"
    then have i: "i < n" by simp
    from back_row_sim[OF assms y i]
    show "back_row dv n aug y i = back_row py_truediv n aug y i
               \<and> (\<exists>s'. back_row py_truediv n aug y i = Some s' \<and> length s' = n)"
      by blast
  qed
  have "\<exists>x'. for_loop (rev [0..<n]) (back_row py_truediv n aug) (replicate n 0) = Some x' \<and> length x' = n
            \<and> (\<forall>i \<in> set (rev [0..<n]). \<bar>aug ! i ! i\<bar> < 1 / 10 ^ 12 \<longrightarrow> x' ! i = 0)
            \<and> (\<forall>k. k \<notin> set (rev [0..<n]) \<longrightarrow> x' ! k = replicate n 0 ! k)"
  proof (rule for_loop_each)
    show "distinct (rev [0..<n])" by simp
    show "length (replicate n (0::real)) = n" by simp
  next
    fix y :: "real list" and i assume "i \<in> set (rev [0..<n])" and y: "length y = n"
    then have i: "i < n" by simp
    from back_row_sim[OF div_ok_py assms(2) y i]
    show "\<exists>y'. back_row py_truediv n aug y i = Some y' \<and> length y' = n
                 \<and> (\<forall>k. k \<noteq> i \<longrightarrow> y' ! k = y ! k) \<and> (\<bar>aug ! i ! i\<bar> < 1 / 10 ^ 12 \<longrightarrow> y' ! i = 0)"
      by blast
  qed
  then obtain x' where x': "for_loop (rev [0..<n]) (back_row py_truediv n aug) (replicate n 0) = Some x'"
    "length x' = n" "\<forall>i \<in> set (rev [0..<n]). \<bar>aug ! i ! i\<bar> < 1 / 10 ^ 12 \<longrightarrow> x' ! i = 0"
    by blast
  have "\<forall>i<n. \<bar>aug ! i ! i\<bar> < 1 / 10 ^ 12 \<longrightarrow> x' ! i = 0" using x'(3) by simp
  then show ?thesis unfolding back_substitution_def using eq x'(1,2) by blast
qed

lemma div_ok_strict: "div_ok strict_truediv"
  by (simp add: div_ok_def strict_truediv_def)

lemma solve_example: "solve_linear_system py_truediv [[1, 2], [2, 4]] [3, 6] = Some [3, 0]"
  by code_simp

text \<open>
  Claim C5. On a square system (\<open>n\<close> rows of \<open>n\<close> entries, \<open>n\<close> right-hand sides) the solver
  returns a vector of \<open>n\<close> coefficients: no read or write is out of range and no division
  raises. Every division it performs has a divisor of magnitude \<open>1e-12\<close> or more: the result is
  the same for every division operator that is the quotient on such divisors, whatever it does
  on smaller ones (raising included). A coefficient whose pivot, after the forward elimination,
  is below \<open>1e-12\<close> in magnitude is 0.
\<close>

theorem solve_linear_system_guards_pivots:
  assumes "square_system A b" "div_ok dv"
  shows "solve_linear_system dv A b = solve_linear_system py_truediv A b
       \<and> (\<exists>aug U x. augment A b = Some aug
              \<and> forward_elimination py_truediv (length A) aug = Some U
              \<and> solve_linear_system py_truediv A b = Some x \<and> length x = length A
              \<and> (\<forall>i<length A. \<bar>U ! i ! i\<bar> < 1 / 10 ^ 12 \<longrightarrow> x ! i = 0))"
proof -
  let ?n = "length A"
  obtain aug where aug: "augment A b = Some aug" "shape ?n aug"
    using augment_shape[OF assms(1)] by blast
  from forward_elimination_sim[OF assms(2) aug(2)]
  obtain U where U: "forward_elimination dv ?n aug = forward_elimination py_truediv ?n aug"
    "forward_elimination py_truediv ?n aug = Some U" "shape ?n U" by blast
  from back_substitution_sim[OF assms(2) U(3)]
  obtain x where x: "back_substitution dv ?n U = back_substitution py_truediv ?n U"
    "back_substitution py_truediv ?n U = Some x" "length x = ?n"
    "\<forall>i<?n. \<bar>U ! i ! i\<bar> < 1 / 10 ^ 12 \<longrightarrow> x ! i = 0" by blast
  have py: "solve_linear_system py_truediv A b = Some x"
    by (simp add: solve_linear_system_def aug(1) U(2) x(2))
  have dv: "solve_linear_system dv A b = Some x"
    by (simp add: solve_linear_system_def aug(1) U(1,2) x(1,2))
  show ?thesis using py dv aug(1) U(2) x(3,4) by auto
qed

theorem solve_linear_system_guards_pivots_witness:
  "square_system [[1, 2], [2, 4]] [3, 6] \<and> div_ok strict_truediv
   \<and> solve_linear_system strict_truediv [[1, 2], [2, 4]] [3, 6] = Some [3, 0]"
proof -
  have s: "square_system [[1, 2], [2, 4]] [3, 6]" by (simp add: square_system_def)
  from solve_linear_system_guards_pivots[OF s div_ok_strict]
  have "solve_linear_system strict_truediv [[1, 2], [2, 4]] [3, 6]
        = solve_linear_system py_truediv [[1, 2], [2, 4]] [3, 6]" by blast
  then show ?thesis using s div_ok_strict solve_example by simp
qed

end
